theory Spec2Isabelle
  imports Complex_Main "HOL-Library.Log_Nat"
begin

section \<open>Values that cross the HTTP and storage boundaries\<close>

text \<open>
  A property of a JSON object sent by a client is absent (\<open>undefined\<close> once read in
  JavaScript), \<open>null\<close>, or a value. The storage client treats the three differently:
  in \<open>create\<close> an absent or null optional column is stored as NULL and an absent or null
  required column is rejected; in \<open>update\<close> an absent property leaves the column as it is,
  null clears a nullable column and is rejected for a required one.
\<close>

datatype 'a field = Undefined | Null | Val 'a

text \<open>
  \<open>new Date(v)\<close>: \<open>Some ms\<close> is a date with that time value (milliseconds since the epoch),
  \<open>None\<close> is the Invalid Date (time value NaN). The client records below carry their date
  properties already passed through \<open>new Date\<close>, as every use in the sync routes does.
\<close>

type_synonym jsdate = "int option"

text \<open>
  A JavaScript number, which is also what a DOUBLE PRECISION column holds: a finite binary64
  value, given by the rational it denotes, an infinity, or NaN. The sign of zero is left out:
  no JSON response shows it and no operation of the routes divides by a zero.
\<close>

datatype jsnum = Num rat | PosInf | NegInf | NaN

text \<open>
  Rounding of an exact result to binary64, to nearest with ties to even: \<open>ilog2 x\<close> is the
  position of the leading bit of \<open>x\<close>, the spacing of the doubles around \<open>x\<close> is 52 binary
  places below it (and never below that of the subnormals), and a result that rounds to
  \<open>2 ^ 1024\<close> or beyond is an infinity.
\<close>

definition ilog2 :: "rat \<Rightarrow> int" where
  "ilog2 x = (case quotient_of \<bar>x\<bar> of (p, q) \<Rightarrow>
      (let e0 = int (floorlog 2 (nat p)) - int (floorlog 2 (nat q))
       in if 2 powi e0 \<le> \<bar>x\<bar> then e0 else e0 - 1))"

definition round_half_even :: "rat \<Rightarrow> int" where
  "round_half_even y = (let f = \<lfloor>y\<rfloor>; r = y - of_int f
      in if r < 1 / 2 then f else if 1 / 2 < r then f + 1 else if even f then f else f + 1)"

definition ulp :: "rat \<Rightarrow> rat" where
  "ulp x = 2 powi (max (ilog2 x) (- 1022) - 52)"

definition binary64 :: "rat \<Rightarrow> jsnum" where
  "binary64 x = (if x = 0 then Num 0 else
      (let v = of_int (round_half_even (x / ulp x)) * ulp x
       in if 2 powi 1024 \<le> \<bar>v\<bar> then (if 0 < x then PosInf else NegInf) else Num v))"

text \<open>The arithmetic of JavaScript numbers: the exact result, rounded; the IEEE rules at the
  infinities and NaN.\<close>

definition inf_of :: "bool \<Rightarrow> jsnum" where
  "inf_of positive = (if positive then PosInf else NegInf)"

fun js_neg :: "jsnum \<Rightarrow> jsnum" where
  "js_neg (Num a) = Num (- a)"
| "js_neg PosInf = NegInf"
| "js_neg NegInf = PosInf"
| "js_neg NaN = NaN"

fun js_add :: "jsnum \<Rightarrow> jsnum \<Rightarrow> jsnum" where
  "js_add (Num a) (Num b) = binary64 (a + b)"
| "js_add NaN y = NaN"
| "js_add x NaN = NaN"
| "js_add PosInf NegInf = NaN"
| "js_add NegInf PosInf = NaN"
| "js_add PosInf y = PosInf"
| "js_add NegInf y = NegInf"
| "js_add (Num a) y = y"

definition js_sub :: "jsnum \<Rightarrow> jsnum \<Rightarrow> jsnum" where
  "js_sub x y = js_add x (js_neg y)"

fun js_mul :: "jsnum \<Rightarrow> jsnum \<Rightarrow> jsnum" where
  "js_mul (Num a) (Num b) = binary64 (a * b)"
| "js_mul NaN y = NaN"
| "js_mul x NaN = NaN"
| "js_mul (Num a) y = (if a = 0 then NaN else inf_of ((0 < a) = (y = PosInf)))"
| "js_mul x (Num b) = (if b = 0 then NaN else inf_of ((0 < b) = (x = PosInf)))"
| "js_mul x y = inf_of (x = y)"

fun js_div :: "jsnum \<Rightarrow> jsnum \<Rightarrow> jsnum" where
  "js_div (Num a) (Num b) =
     (if b = 0 then (if a = 0 then NaN else inf_of (0 < a)) else binary64 (a / b))"
| "js_div NaN y = NaN"
| "js_div x NaN = NaN"
| "js_div (Num a) y = Num 0"
| "js_div x (Num b) = inf_of ((0 \<le> b) = (x = PosInf))"
| "js_div x y = NaN"

text \<open>\<open>x > y\<close>\<close>

fun js_gt :: "jsnum \<Rightarrow> jsnum \<Rightarrow> bool" where
  "js_gt (Num a) (Num b) = (b < a)"
| "js_gt NaN y = False"
| "js_gt x NaN = False"
| "js_gt PosInf y = (y \<noteq> PosInf)"
| "js_gt x NegInf = (x \<noteq> NegInf)"
| "js_gt x y = False"

text \<open>\<open>Math.round\<close>: the nearest integer, a tie going up; it is a double whenever its argument is.\<close>

fun js_round :: "jsnum \<Rightarrow> jsnum" where
  "js_round (Num a) = Num (of_int \<lfloor>a + 1 / 2\<rfloor>)"
| "js_round x = x"

text \<open>Truthiness of a number: every number but zero and NaN.\<close>

fun truthy :: "jsnum \<Rightarrow> bool" where
  "truthy (Num a) = (a \<noteq> 0)"
| "truthy NaN = False"
| "truthy x = True"

text \<open>\<open>a > b\<close> on two Date objects compares time values; with NaN on either side it is false.\<close>

definition date_gt :: "jsdate \<Rightarrow> jsdate \<Rightarrow> bool" where
  "date_gt a b = (case a of None \<Rightarrow> False | Some x \<Rightarrow> (case b of None \<Rightarrow> False | Some y \<Rightarrow> y < x))"

text \<open>
  What a handler can catch: what a rejected storage call reports (the text of
  \<open>error.message\<close> is the storage client's), and the \<open>TypeError\<close> that reading a property of
  \<open>null\<close> throws.
\<close>

datatype prisma_error =
    Unavailable
  | ValidationError
  | UniqueConstraint
  | ForeignKeyConstraint
  | RecordNotFound
  | TypeError

text \<open>
  Every \<open>await prisma...\<close> may reject because the store cannot be reached. The schedule lists,
  for the successive storage calls of one request, whether the call is rejected that way; calls
  beyond the end of the schedule go through.
\<close>

type_synonym faults = "bool list"

definition storage_call :: "faults \<Rightarrow> (prisma_error + 'a) \<Rightarrow> (prisma_error + 'a) \<times> faults" where
  "storage_call fs r = (case fs of [] \<Rightarrow> (r, []) | b # fs' \<Rightarrow> ((if b then Inl Unavailable else r), fs'))"

definition set_nullable :: "'a field \<Rightarrow> 'a option \<Rightarrow> 'a option" where
  "set_nullable f old = (case f of Undefined \<Rightarrow> old | Null \<Rightarrow> None | Val v \<Rightarrow> Some v)"

definition create_nullable :: "'a field \<Rightarrow> 'a option" where
  "create_nullable f = (case f of Undefined \<Rightarrow> None | Null \<Rightarrow> None | Val v \<Rightarrow> Some v)"

section \<open>Tables (the schema the routes are written against)\<close>

datatype tx_status = ACTIVE | CLOSED

record provider_row =
  prov_id :: string
  prov_name :: string
  prov_email :: "string option"
  prov_phone :: "string option"
  prov_address :: "string option"
  prov_notes :: "string option"
  prov_userId :: "string option"
  prov_organizationId :: "string option"
  prov_createdAt :: int
  prov_updatedAt :: int

record transaction_row =
  tx_id :: string
  tx_contractNumber :: string
  tx_description :: "string option"
  tx_status :: tx_status
  tx_productServiceId :: "string option"
  tx_quantity :: "jsnum option"
  tx_unitPrice :: "jsnum option"
  tx_totalAmount :: "jsnum option"
  tx_transactionDate :: int
  tx_closedAt :: "int option"
  tx_userId :: string
  tx_organizationId :: "string option"
  tx_providerId :: string
  tx_createdAt :: int
  tx_updatedAt :: int

text \<open>
  Of the movement, expense, category and log tables the columns kept are those a route below
  writes from its request or reads; the id and the timestamps a row is given by column defaults
  are left out where no route reads them.
\<close>

record advance_row =
  adv_amount :: jsnum
  adv_description :: "string option"
  adv_advanceDate :: int
  adv_transactionId :: string

record delivery_row =
  del_quantity :: jsnum
  del_description :: "string option"
  del_deliveryDate :: int
  del_transactionId :: string

record category_row =
  cat_id :: string
  cat_name :: string
  cat_isDefault :: bool
  cat_userId :: "string option"

record expense_row =
  exp_id :: string
  exp_amount :: jsnum
  exp_description :: "string option"
  exp_categoryId :: string
  exp_transactionId :: "string option"
  exp_updatedAt :: int

record synclog_row =
  log_userId :: string
  log_syncType :: string
  log_recordsCount :: nat
  log_status :: string
  log_errorMessage :: "prisma_error option"

text \<open>
  The store. A table is the list of its rows; the primary key of a row is its id column.
  \<open>productServices\<close> and \<open>organizations\<close> hold the ids of those tables, which the routes
  below only reference through foreign keys; \<open>organizationMembers\<close> holds the pairs
  (userId, organizationId) of the membership table.
\<close>

record db =
  providers :: "provider_row list"
  transactions :: "transaction_row list"
  productServices :: "string list"
  organizations :: "string list"
  organizationMembers :: "(string \<times> string) list"
  advances :: "advance_row list"
  deliveries :: "delivery_row list"
  expenses :: "expense_row list"
  expenseCategories :: "category_row list"
  syncLogs :: "synclog_row list"

section \<open>The records of a push batch\<close>

text \<open>
  The validators ask of each collection only that it is an array (\<open>isArray()\<close>). An element is
  a JSON object with an id, as the route documents it (\<open>items: {type: object}\<close>), whose other
  properties may be absent or null; or it is \<open>null\<close>, the one JSON value of which reading a
  property throws. Objects without an id and elements that are numbers, strings, booleans or
  arrays (whose \<open>id\<close> reads as \<open>undefined\<close>) are outside this model.
\<close>

datatype 'a element = Object 'a | NullElement

record client_provider =
  cp_id :: string
  cp_name :: "string field"
  cp_email :: "string field"
  cp_phone :: "string field"
  cp_address :: "string field"
  cp_notes :: "string field"
  cp_createdAt :: jsdate
  cp_updatedAt :: jsdate

record client_transaction =
  ct_id :: string
  ct_contractNumber :: "string field"
  ct_description :: "string field"
  ct_quantity :: "jsnum field"
  ct_unitPrice :: "jsnum field"
  ct_totalAmount :: "jsnum field"
  ct_status :: "tx_status field"
  ct_providerId :: "string field"
  ct_productServiceId :: "string field"
  ct_transactionDate :: jsdate
  ct_createdAt :: jsdate
  ct_updatedAt :: jsdate

record client_expense =
  ce_id :: string
  ce_amount :: "jsnum field"
  ce_description :: "string field"
  ce_categoryId :: "string field"
  ce_createdAt :: jsdate
  ce_updatedAt :: jsdate

text \<open>The request body: each collection is optional and defaults to the empty array.\<close>

record push_body =
  body_transactions :: "client_transaction element list option"
  body_providers :: "client_provider element list option"
  body_expenses :: "client_expense element list option"

definition default_list :: "'a list option \<Rightarrow> 'a list" where
  "default_list xs = (case xs of None \<Rightarrow> [] | Some ys \<Rightarrow> ys)"

record counts =
  created :: nat
  updated :: nat
  errors :: "(string \<times> prisma_error) list"

record results =
  res_transactions :: counts
  res_providers :: counts
  res_expenses :: counts

definition no_counts :: counts where
  "no_counts = \<lparr>created = 0, updated = 0, errors = []\<rparr>"

definition results0 :: results where
  "results0 = \<lparr>res_transactions = no_counts, res_providers = no_counts, res_expenses = no_counts\<rparr>"

section \<open>Storage operations used by the sync routes\<close>

text \<open>\<open>prisma.provider.findFirst({where: {id, userId}})\<close>\<close>

definition provider_findFirst :: "string \<Rightarrow> string \<Rightarrow> provider_row list \<Rightarrow> provider_row option" where
  "provider_findFirst i uid rows = find (\<lambda>r. prov_id r = i \<and> prov_userId r = Some uid) rows"

text \<open>
  \<open>prisma.provider.update({where: {id}, data: {name, email, phone, address, notes, updatedAt}})\<close>.
  The name column is required: null is rejected, an absent name is left as it is.
\<close>

definition provider_update :: "client_provider \<Rightarrow> provider_row list \<Rightarrow> prisma_error + provider_row list" where
  "provider_update p rows =
     (case cp_updatedAt p of
        None \<Rightarrow> Inl ValidationError
      | Some u \<Rightarrow>
          if cp_name p = Null then Inl ValidationError
          else if cp_id p \<notin> prov_id ` set rows then Inl RecordNotFound
          else Inr (map (\<lambda>r. if prov_id r = cp_id p
                              then r\<lparr>prov_name := (case cp_name p of Val n \<Rightarrow> n | _ \<Rightarrow> prov_name r),
                                     prov_email := set_nullable (cp_email p) (prov_email r),
                                     prov_phone := set_nullable (cp_phone p) (prov_phone r),
                                     prov_address := set_nullable (cp_address p) (prov_address r),
                                     prov_notes := set_nullable (cp_notes p) (prov_notes r),
                                     prov_updatedAt := u\<rparr>
                              else r) rows))"

text \<open>
  \<open>prisma.provider.create({data: {id, name, ..., userId: req.user.id, createdAt, updatedAt}})\<close>.
  The client checks the arguments (required name, valid dates) before the insert, which the
  primary key can still reject.
\<close>

definition provider_create :: "string \<Rightarrow> client_provider \<Rightarrow> provider_row list \<Rightarrow> prisma_error + provider_row list" where
  "provider_create uid p rows =
     (case cp_name p of
        Val n \<Rightarrow>
          (case cp_createdAt p of
             None \<Rightarrow> Inl ValidationError
           | Some c \<Rightarrow>
               (case cp_updatedAt p of
                  None \<Rightarrow> Inl ValidationError
                | Some u \<Rightarrow>
                    if cp_id p \<in> prov_id ` set rows then Inl UniqueConstraint
                    else Inr (rows @ [\<lparr>prov_id = cp_id p, prov_name = n,
                                        prov_email = create_nullable (cp_email p),
                                        prov_phone = create_nullable (cp_phone p),
                                        prov_address = create_nullable (cp_address p),
                                        prov_notes = create_nullable (cp_notes p),
                                        prov_userId = Some uid,
                                        prov_organizationId = None,
                                        prov_createdAt = c,
                                        prov_updatedAt = u\<rparr>])))
      | _ \<Rightarrow> Inl ValidationError)"

text \<open>\<open>prisma.transaction.findFirst({where: {id, userId}})\<close>\<close>

definition transaction_findFirst :: "string \<Rightarrow> string \<Rightarrow> transaction_row list \<Rightarrow> transaction_row option" where
  "transaction_findFirst i uid rows = find (\<lambda>r. tx_id r = i \<and> tx_userId r = uid) rows"

text \<open>
  \<open>prisma.transaction.update({where: {id}, data: {description, quantity, unitPrice, totalAmount,
  status, updatedAt}})\<close>. The status column is required.
\<close>

definition transaction_update :: "client_transaction \<Rightarrow> transaction_row list \<Rightarrow> prisma_error + transaction_row list" where
  "transaction_update t rows =
     (case ct_updatedAt t of
        None \<Rightarrow> Inl ValidationError
      | Some u \<Rightarrow>
          if ct_status t = Null then Inl ValidationError
          else if ct_id t \<notin> tx_id ` set rows then Inl RecordNotFound
          else Inr (map (\<lambda>r. if tx_id r = ct_id t
                              then r\<lparr>tx_description := set_nullable (ct_description t) (tx_description r),
                                     tx_quantity := set_nullable (ct_quantity t) (tx_quantity r),
                                     tx_unitPrice := set_nullable (ct_unitPrice t) (tx_unitPrice r),
                                     tx_totalAmount := set_nullable (ct_totalAmount t) (tx_totalAmount r),
                                     tx_status := (case ct_status t of Val s \<Rightarrow> s | _ \<Rightarrow> tx_status r),
                                     tx_updatedAt := u\<rparr>
                              else r) rows))"

text \<open>
  The insert of a transaction row, as the database decides it: rejected by the primary key, by
  the unique index on the contract number, and by the foreign keys to the provider, product and
  organization tables.
\<close>

definition transaction_insert :: "transaction_row \<Rightarrow> db \<Rightarrow> prisma_error + transaction_row list" where
  "transaction_insert row d =
     (if tx_id row \<in> tx_id ` set (transactions d) then Inl UniqueConstraint
      else if tx_contractNumber row \<in> tx_contractNumber ` set (transactions d) then Inl UniqueConstraint
      else if tx_providerId row \<notin> prov_id ` set (providers d) then Inl ForeignKeyConstraint
      else if (case tx_productServiceId row of None \<Rightarrow> False | Some ps \<Rightarrow> ps \<notin> set (productServices d))
           then Inl ForeignKeyConstraint
      else if (case tx_organizationId row of None \<Rightarrow> False | Some org \<Rightarrow> org \<notin> set (organizations d))
           then Inl ForeignKeyConstraint
      else Inr (transactions d @ [row]))"

text \<open>
  \<open>prisma.transaction.create({data: {...}})\<close> of the push route, with the client's id, contract
  number, dates and status, and \<open>userId: req.user.id\<close>. Required: contract number, provider, the
  three dates; an absent status takes the column default.
\<close>

definition transaction_create ::
  "string \<Rightarrow> client_transaction \<Rightarrow> db \<Rightarrow> prisma_error + transaction_row list" where
  "transaction_create uid t d =
     (case ct_contractNumber t of
        Val cn \<Rightarrow>
          (case ct_providerId t of
             Val pid \<Rightarrow>
               (case ct_transactionDate t of
                  None \<Rightarrow> Inl ValidationError
                | Some td \<Rightarrow>
                    (case ct_createdAt t of
                       None \<Rightarrow> Inl ValidationError
                     | Some c \<Rightarrow>
                         (case ct_updatedAt t of
                            None \<Rightarrow> Inl ValidationError
                          | Some u \<Rightarrow>
                              if ct_status t = Null then Inl ValidationError
                              else transaction_insert
                                     \<lparr>tx_id = ct_id t, tx_contractNumber = cn,
                                      tx_description = create_nullable (ct_description t),
                                      tx_status = (case ct_status t of Val s \<Rightarrow> s | _ \<Rightarrow> ACTIVE),
                                      tx_productServiceId = create_nullable (ct_productServiceId t),
                                      tx_quantity = create_nullable (ct_quantity t),
                                      tx_unitPrice = create_nullable (ct_unitPrice t),
                                      tx_totalAmount = create_nullable (ct_totalAmount t),
                                      tx_transactionDate = td,
                                      tx_closedAt = None,
                                      tx_userId = uid,
                                      tx_organizationId = None,
                                      tx_providerId = pid,
                                      tx_createdAt = c,
                                      tx_updatedAt = u\<rparr> d)))
           | _ \<Rightarrow> Inl ValidationError)
      | _ \<Rightarrow> Inl ValidationError)"

text \<open>\<open>prisma.syncLog.create({data: {...}})\<close>\<close>

definition syncLog_create :: "synclog_row \<Rightarrow> db \<Rightarrow> prisma_error + db" where
  "syncLog_create row d = Inr (d\<lparr>syncLogs := syncLogs d @ [row]\<rparr>)"

section \<open>POST /api/sync/push\<close>

text \<open>
  The body of the \<open>try\<close> block for one provider of the batch that is an object: look the id up
  among the caller's providers; when found, overwrite only if the client's \<open>updatedAt\<close> is
  later; when not found, create. The result is the error thrown, or the store and the counters
  after the record.
\<close>

definition sync_provider_try ::
  "string \<Rightarrow> client_provider \<Rightarrow> db \<Rightarrow> counts \<Rightarrow> faults \<Rightarrow> (prisma_error + db \<times> counts) \<times> faults" where
  "sync_provider_try uid p d c fs =
     (case storage_call fs (Inr (provider_findFirst (cp_id p) uid (providers d))) of
        (Inl e, fs1) \<Rightarrow> (Inl e, fs1)
      | (Inr (Some existing), fs1) \<Rightarrow>
          if date_gt (cp_updatedAt p) (Some (prov_updatedAt existing)) then
            (case storage_call fs1 (provider_update p (providers d)) of
               (Inl e, fs2) \<Rightarrow> (Inl e, fs2)
             | (Inr rows, fs2) \<Rightarrow> (Inr (d\<lparr>providers := rows\<rparr>, c\<lparr>updated := updated c + 1\<rparr>), fs2))
          else (Inr (d, c), fs1)
      | (Inr None, fs1) \<Rightarrow>
          (case storage_call fs1 (provider_create uid p (providers d)) of
             (Inl e, fs2) \<Rightarrow> (Inl e, fs2)
           | (Inr rows, fs2) \<Rightarrow> (Inr (d\<lparr>providers := rows\<rparr>, c\<lparr>created := created c + 1\<rparr>), fs2)))"

text \<open>The \<open>catch\<close> of the record: push \<open>{id: provider.id, error: error.message}\<close> and go on.\<close>

definition add_error :: "string \<Rightarrow> prisma_error \<Rightarrow> counts \<Rightarrow> counts" where
  "add_error i e c = c\<lparr>errors := errors c @ [(i, e)]\<rparr>"

text \<open>
  One turn of the loop over the providers: the \<open>try\<close> block and its \<open>catch\<close> handler. The
  result is the state after the turn and the error that leaves the turn uncaught, if any.
  When the element is \<open>null\<close> the \<open>try\<close> block throws a \<open>TypeError\<close> at its first
  \<open>provider.id\<close>, before any storage call; the handler catches it, reads \<open>provider.id\<close>
  itself to build the entry of the error list, and so throws a \<open>TypeError\<close> again, which nothing
  inside the loop catches.
\<close>

definition sync_provider ::
  "string \<Rightarrow> client_provider element \<Rightarrow> db \<times> results \<times> faults
     \<Rightarrow> (db \<times> results \<times> faults) \<times> prisma_error option" where
  "sync_provider uid el st =
     (case st of (d, res, fs) \<Rightarrow>
        (case (case el of
                 NullElement \<Rightarrow> (Inl TypeError, fs)
               | Object p \<Rightarrow> sync_provider_try uid p d (res_providers res) fs) of
           (Inr (d', c'), fs') \<Rightarrow> ((d', res\<lparr>res_providers := c'\<rparr>, fs'), None)
         | (Inl e, fs') \<Rightarrow>
             (case el of
                NullElement \<Rightarrow> ((d, res, fs'), Some TypeError)
              | Object p \<Rightarrow>
                  ((d, res\<lparr>res_providers := add_error (cp_id p) e (res_providers res)\<rparr>, fs'), None))))"

text \<open>The \<open>for\<close> loop: the turns in order, up to the first error that leaves a turn.\<close>

fun sync_providers ::
  "string \<Rightarrow> client_provider element list \<Rightarrow> db \<times> results \<times> faults
     \<Rightarrow> (db \<times> results \<times> faults) \<times> prisma_error option" where
  "sync_providers uid [] st = (st, None)"
| "sync_providers uid (el # els) st =
     (case sync_provider uid el st of
        (st', None) \<Rightarrow> sync_providers uid els st'
      | (st', Some e) \<Rightarrow> (st', Some e))"

text \<open>The same for the transactions.\<close>

definition sync_transaction_try ::
  "string \<Rightarrow> client_transaction \<Rightarrow> db \<Rightarrow> counts \<Rightarrow> faults \<Rightarrow> (prisma_error + db \<times> counts) \<times> faults" where
  "sync_transaction_try uid t d c fs =
     (case storage_call fs (Inr (transaction_findFirst (ct_id t) uid (transactions d))) of
        (Inl e, fs1) \<Rightarrow> (Inl e, fs1)
      | (Inr (Some existing), fs1) \<Rightarrow>
          if date_gt (ct_updatedAt t) (Some (tx_updatedAt existing)) then
            (case storage_call fs1 (transaction_update t (transactions d)) of
               (Inl e, fs2) \<Rightarrow> (Inl e, fs2)
             | (Inr rows, fs2) \<Rightarrow> (Inr (d\<lparr>transactions := rows\<rparr>, c\<lparr>updated := updated c + 1\<rparr>), fs2))
          else (Inr (d, c), fs1)
      | (Inr None, fs1) \<Rightarrow>
          (case storage_call fs1 (transaction_create uid t d) of
             (Inl e, fs2) \<Rightarrow> (Inl e, fs2)
           | (Inr rows, fs2) \<Rightarrow> (Inr (d\<lparr>transactions := rows\<rparr>, c\<lparr>created := created c + 1\<rparr>), fs2)))"

definition sync_transaction ::
  "string \<Rightarrow> client_transaction element \<Rightarrow> db \<times> results \<times> faults
     \<Rightarrow> (db \<times> results \<times> faults) \<times> prisma_error option" where
  "sync_transaction uid el st =
     (case st of (d, res, fs) \<Rightarrow>
        (case (case el of
                 NullElement \<Rightarrow> (Inl TypeError, fs)
               | Object t \<Rightarrow> sync_transaction_try uid t d (res_transactions res) fs) of
           (Inr (d', c'), fs') \<Rightarrow> ((d', res\<lparr>res_transactions := c'\<rparr>, fs'), None)
         | (Inl e, fs') \<Rightarrow>
             (case el of
                NullElement \<Rightarrow> ((d, res, fs'), Some TypeError)
              | Object t \<Rightarrow>
                  ((d, res\<lparr>res_transactions := add_error (ct_id t) e (res_transactions res)\<rparr>, fs'), None))))"

fun sync_transactions ::
  "string \<Rightarrow> client_transaction element list \<Rightarrow> db \<times> results \<times> faults
     \<Rightarrow> (db \<times> results \<times> faults) \<times> prisma_error option" where
  "sync_transactions uid [] st = (st, None)"
| "sync_transactions uid (el # els) st =
     (case sync_transaction uid el st of
        (st', None) \<Rightarrow> sync_transactions uid els st'
      | (st', Some e) \<Rightarrow> (st', Some e))"

text \<open>
  The response of the route: 200 with the results, 500 \<open>Sync failed\<close>, or none at all when the
  insert of the failure log is rejected too and the handler's promise rejects.
\<close>

datatype push_response = PushOk results | PushFailed | PushNoResponse

text \<open>The outer \<open>catch\<close> of the route: the failure log, then 500.\<close>

definition push_failed :: "string \<Rightarrow> prisma_error \<Rightarrow> db \<Rightarrow> faults \<Rightarrow> db \<times> push_response \<times> faults" where
  "push_failed uid e d fs =
     (case storage_call fs
             (syncLog_create \<lparr>log_userId = uid, log_syncType = ''push'', log_recordsCount = 0,
                              log_status = ''failed'', log_errorMessage = Some e\<rparr> d) of
        (Inr d', fs') \<Rightarrow> (d', PushFailed, fs')
      | (Inl e', fs') \<Rightarrow> (d, PushNoResponse, fs'))"

text \<open>
  The handler. The providers are synchronised first, then the transactions; the expenses of the
  body are only counted. What reaches the outer \<open>catch\<close> is an error that leaves a loop, and the
  rejection of the success log, which is written outside the per-record \<open>try\<close> blocks.
\<close>

definition push :: "string \<Rightarrow> push_body \<Rightarrow> faults \<Rightarrow> db \<Rightarrow> db \<times> push_response \<times> faults" where
  "push uid body fs d =
     (let txs = default_list (body_transactions body);
          provs = default_list (body_providers body);
          exps = default_list (body_expenses body)
      in case sync_providers uid provs (d, results0, fs) of
           ((d1, res1, fs1), Some e) \<Rightarrow> push_failed uid e d1 fs1
         | ((d1, res1, fs1), None) \<Rightarrow>
             (case sync_transactions uid txs (d1, res1, fs1) of
                ((d2, res, fs2), Some e) \<Rightarrow> push_failed uid e d2 fs2
              | ((d2, res, fs2), None) \<Rightarrow>
                  (case storage_call fs2
                          (syncLog_create \<lparr>log_userId = uid, log_syncType = ''push'',
                                           log_recordsCount = length txs + length provs + length exps,
                                           log_status = ''success'', log_errorMessage = None\<rparr> d2) of
                     (Inr d3, fs3) \<Rightarrow> (d3, PushOk res, fs3)
                   | (Inl e, fs3) \<Rightarrow> push_failed uid e d2 fs3)))"

section \<open>GET /api/sync/pull\<close>

record pulled_transaction =
  pt_transaction :: transaction_row
  pt_advances :: "advance_row list"
  pt_deliveries :: "delivery_row list"
  pt_expenses :: "(expense_row \<times> category_row option) list"

record pull_data =
  data_transactions :: "pulled_transaction list"
  data_providers :: "provider_row list"
  data_expenses :: "(expense_row \<times> category_row option) list"
  data_categories :: "category_row list"

text \<open>200 with the data and \<open>syncTimestamp\<close>, 500, or no response.\<close>

datatype pull_response = PullOk pull_data int | PullFailed | PullNoResponse

text \<open>\<open>include: {category: true}\<close>\<close>

definition with_category :: "db \<Rightarrow> expense_row \<Rightarrow> expense_row \<times> category_row option" where
  "with_category d e = (e, find (\<lambda>c. cat_id c = exp_categoryId e) (expenseCategories d))"

text \<open>\<open>include: {advances: true, deliveries: true, expenses: {include: {category: true}}}\<close>\<close>

definition with_movements :: "db \<Rightarrow> transaction_row \<Rightarrow> pulled_transaction" where
  "with_movements d r =
     \<lparr>pt_transaction = r,
      pt_advances = filter (\<lambda>a. adv_transactionId a = tx_id r) (advances d),
      pt_deliveries = filter (\<lambda>x. del_transactionId x = tx_id r) (deliveries d),
      pt_expenses = map (with_category d)
                      (filter (\<lambda>e. exp_transactionId e = Some (tx_id r)) (expenses d))\<rparr>"

text \<open>
  The four \<open>findMany\<close> queries. A filter \<open>updatedAt: {gt: lastSyncDate}\<close> with the Invalid Date
  is rejected by the storage client.
\<close>

definition transaction_findMany_since :: "string \<Rightarrow> jsdate \<Rightarrow> db \<Rightarrow> prisma_error + pulled_transaction list" where
  "transaction_findMany_since uid since d =
     (case since of
        None \<Rightarrow> Inl ValidationError
      | Some s \<Rightarrow> Inr (map (with_movements d)
                         (filter (\<lambda>r. tx_userId r = uid \<and> s < tx_updatedAt r) (transactions d))))"

definition provider_findMany_since :: "string \<Rightarrow> jsdate \<Rightarrow> db \<Rightarrow> prisma_error + provider_row list" where
  "provider_findMany_since uid since d =
     (case since of
        None \<Rightarrow> Inl ValidationError
      | Some s \<Rightarrow> Inr (filter (\<lambda>r. prov_userId r = Some uid \<and> s < prov_updatedAt r) (providers d)))"

definition expense_findMany_general_since :: "jsdate \<Rightarrow> db \<Rightarrow> prisma_error + (expense_row \<times> category_row option) list" where
  "expense_findMany_general_since since d =
     (case since of
        None \<Rightarrow> Inl ValidationError
      | Some s \<Rightarrow> Inr (map (with_category d)
                         (filter (\<lambda>e. exp_transactionId e = None \<and> s < exp_updatedAt e) (expenses d))))"

definition expenseCategory_findMany_visible :: "string \<Rightarrow> db \<Rightarrow> prisma_error + category_row list" where
  "expenseCategory_findMany_visible uid d =
     Inr (filter (\<lambda>c. cat_isDefault c \<or> cat_userId c = Some uid) (expenseCategories d))"

text \<open>The \<open>catch\<close> of the route: the failure log, then 500.\<close>

definition pull_failed :: "string \<Rightarrow> prisma_error \<Rightarrow> db \<Rightarrow> faults \<Rightarrow> db \<times> pull_response \<times> faults" where
  "pull_failed uid e d fs =
     (case storage_call fs
             (syncLog_create \<lparr>log_userId = uid, log_syncType = ''pull'', log_recordsCount = 0,
                              log_status = ''failed'', log_errorMessage = Some e\<rparr> d) of
        (Inr d', fs') \<Rightarrow> (d', PullFailed, fs')
      | (Inl e', fs') \<Rightarrow> (d, PullNoResponse, fs'))"

text \<open>
  The handler. \<open>lastSync\<close> is the query parameter: \<open>None\<close> when it is absent or empty, else
  \<open>new Date(lastSync)\<close>. \<open>now\<close> is the clock when the response is built.
\<close>

definition pull :: "string \<Rightarrow> jsdate option \<Rightarrow> int \<Rightarrow> faults \<Rightarrow> db \<Rightarrow> db \<times> pull_response \<times> faults" where
  "pull uid lastSync now fs d =
     (let lastSyncDate = (case lastSync of None \<Rightarrow> Some 0 | Some dt \<Rightarrow> dt)
      in (case storage_call fs (transaction_findMany_since uid lastSyncDate d) of (r1, fs1) \<Rightarrow>
         (case storage_call fs1 (provider_findMany_since uid lastSyncDate d) of (r2, fs2) \<Rightarrow>
         (case storage_call fs2 (expense_findMany_general_since lastSyncDate d) of (r3, fs3) \<Rightarrow>
         (case storage_call fs3 (expenseCategory_findMany_visible uid d) of (r4, fs4) \<Rightarrow>
           (case r1 of Inl e \<Rightarrow> pull_failed uid e d fs4 | Inr txs \<Rightarrow>
           (case r2 of Inl e \<Rightarrow> pull_failed uid e d fs4 | Inr provs \<Rightarrow>
           (case r3 of Inl e \<Rightarrow> pull_failed uid e d fs4 | Inr exps \<Rightarrow>
           (case r4 of Inl e \<Rightarrow> pull_failed uid e d fs4 | Inr cats \<Rightarrow>
              (case storage_call fs4
                      (syncLog_create \<lparr>log_userId = uid, log_syncType = ''pull'',
                                       log_recordsCount = length txs + length provs + length exps,
                                       log_status = ''success'', log_errorMessage = None\<rparr> d) of
                 (Inr d', fs5) \<Rightarrow>
                   (d', PullOk \<lparr>data_transactions = txs, data_providers = provs,
                                data_expenses = exps, data_categories = cats\<rparr> now, fs5)
               | (Inl e, fs5) \<Rightarrow> pull_failed uid e d fs5))))))))))"

section \<open>The balance computation\<close>

record balances =
  totalAdvances :: jsnum
  totalDelivered :: jsnum
  moneyBalance :: jsnum
  productBalance :: jsnum
  moneyProgress :: jsnum
  productProgress :: jsnum

text \<open>\<open>v || 0\<close> and \<open>v > 0\<close> on a nullable column (\<open>null > 0\<close> is false).\<close>

definition or_zero :: "jsnum option \<Rightarrow> jsnum" where
  "or_zero v = (case v of None \<Rightarrow> Num 0 | Some x \<Rightarrow> if truthy x then x else Num 0)"

definition progress :: "jsnum \<Rightarrow> jsnum option \<Rightarrow> jsnum" where
  "progress reached agreed =
     (case agreed of
        None \<Rightarrow> Num 0
      | Some a \<Rightarrow> if js_gt a (Num 0) then js_mul (js_div reached a) (Num 100) else Num 0)"

text \<open>\<open>Math.round(p * 100) / 100\<close>\<close>

definition round2 :: "jsnum \<Rightarrow> jsnum" where
  "round2 p = js_div (js_round (js_mul p (Num 100))) (Num 100)"

definition calculateBalances :: "transaction_row \<Rightarrow> advance_row list \<Rightarrow> delivery_row list \<Rightarrow> balances" where
  "calculateBalances transaction advs dels =
     (let totalAdvances = foldl (\<lambda>sum adv. js_add sum (adv_amount adv)) (Num 0) advs;
          totalDelivered = foldl (\<lambda>sum del. js_add sum (del_quantity del)) (Num 0) dels;
          moneyBalance = js_sub (or_zero (tx_totalAmount transaction)) totalAdvances;
          productBalance = js_sub (or_zero (tx_quantity transaction)) totalDelivered;
          moneyProgress = progress totalAdvances (tx_totalAmount transaction);
          productProgress = progress totalDelivered (tx_quantity transaction)
      in \<lparr>totalAdvances = totalAdvances,
          totalDelivered = totalDelivered,
          moneyBalance = moneyBalance,
          productBalance = productBalance,
          moneyProgress = round2 moneyProgress,
          productProgress = round2 productProgress\<rparr>)"

section \<open>The transaction routes\<close>

datatype 'a response = Http200 'a | Http201 'a | Http400 | Http404 | Http500

text \<open>
  The request validators \<open>isFloat({min})\<close>, alone and after \<open>optional()\<close>. The id formats the
  validators also check are not modelled: ids are opaque strings.
\<close>

definition isFloat_min :: "rat \<Rightarrow> jsnum \<Rightarrow> bool" where
  "isFloat_min m v = (case v of Num x \<Rightarrow> m \<le> x | _ \<Rightarrow> False)"

definition optional_isFloat_min :: "rat \<Rightarrow> jsnum option \<Rightarrow> bool" where
  "optional_isFloat_min m v = (case v of None \<Rightarrow> True | Some x \<Rightarrow> isFloat_min m x)"

subsection \<open>POST /api/transactions\<close>

record create_body =
  cb_providerId :: string
  cb_productServiceId :: "string option"
  cb_description :: "string option"
  cb_quantity :: "jsnum option"
  cb_unitPrice :: "jsnum option"
  cb_totalAmount :: "jsnum option"
  cb_organizationId :: "string option"

text \<open>\<open>totalAmount || (quantity && unitPrice ? quantity * unitPrice : null)\<close>\<close>

definition calculatedTotal :: "jsnum option \<Rightarrow> jsnum option \<Rightarrow> jsnum option \<Rightarrow> jsnum option" where
  "calculatedTotal totalAmount quantity unitPrice =
     (let product =
            (case quantity of
               None \<Rightarrow> None
             | Some q \<Rightarrow>
                 if truthy q
                 then (case unitPrice of
                         None \<Rightarrow> None
                       | Some u \<Rightarrow> if truthy u then Some (js_mul q u) else None)
                 else None)
      in case totalAmount of
           None \<Rightarrow> product
         | Some t \<Rightarrow> if truthy t then Some t else product)"

text \<open>
  The handler; \<open>contractNumber\<close> is what \<open>generateContractNumber()\<close> returned, \<open>newId\<close> the id
  the row is given, \<open>now\<close> the clock. The row starts ACTIVE.
\<close>

definition create_transaction ::
  "string \<Rightarrow> create_body \<Rightarrow> string \<Rightarrow> string \<Rightarrow> int \<Rightarrow> faults \<Rightarrow> db
     \<Rightarrow> db \<times> transaction_row response \<times> faults" where
  "create_transaction uid body newId contractNumber now fs d =
     (if \<not> (optional_isFloat_min 0 (cb_quantity body) \<and> optional_isFloat_min 0 (cb_unitPrice body)
             \<and> optional_isFloat_min 0 (cb_totalAmount body))
      then (d, Http400, fs)
      else
        (let row = \<lparr>tx_id = newId, tx_contractNumber = contractNumber,
                    tx_description = cb_description body,
                    tx_status = ACTIVE,
                    tx_productServiceId = cb_productServiceId body,
                    tx_quantity = cb_quantity body,
                    tx_unitPrice = cb_unitPrice body,
                    tx_totalAmount = calculatedTotal (cb_totalAmount body) (cb_quantity body) (cb_unitPrice body),
                    tx_transactionDate = now,
                    tx_closedAt = None,
                    tx_userId = uid,
                    tx_organizationId = cb_organizationId body,
                    tx_providerId = cb_providerId body,
                    tx_createdAt = now,
                    tx_updatedAt = now\<rparr>
         in case storage_call fs (transaction_insert row d) of
              (Inl e, fs') \<Rightarrow> (d, Http500, fs')
            | (Inr rows, fs') \<Rightarrow> (d\<lparr>transactions := rows\<rparr>, Http201 row, fs')))"

subsection \<open>GET /api/transactions/:id\<close>

text \<open>The transaction with that id which the caller owns or sees through an organization.\<close>

definition transaction_findFirst_visible :: "string \<Rightarrow> string \<Rightarrow> db \<Rightarrow> transaction_row option" where
  "transaction_findFirst_visible i uid d =
     find (\<lambda>r. tx_id r = i \<and>
               (tx_userId r = uid \<or>
                (case tx_organizationId r of
                   None \<Rightarrow> False
                 | Some org \<Rightarrow> (uid, org) \<in> set (organizationMembers d))))
          (transactions d)"

text \<open>
  The included movements come latest first (\<open>orderBy: {advanceDate: 'desc'}\<close>); among equal
  dates the order is the store's, here that of insertion.
\<close>

definition get_transaction ::
  "string \<Rightarrow> string \<Rightarrow> faults \<Rightarrow> db \<Rightarrow> (transaction_row \<times> balances) response \<times> faults" where
  "get_transaction uid i fs d =
     (case storage_call fs (Inr (transaction_findFirst_visible i uid d)) of
        (Inl e, fs') \<Rightarrow> (Http500, fs')
      | (Inr None, fs') \<Rightarrow> (Http404, fs')
      | (Inr (Some transaction), fs') \<Rightarrow>
          (Http200 (transaction,
                    calculateBalances transaction
                      (sort_key (\<lambda>a. - adv_advanceDate a)
                         (filter (\<lambda>a. adv_transactionId a = tx_id transaction) (advances d)))
                      (sort_key (\<lambda>x. - del_deliveryDate x)
                         (filter (\<lambda>x. del_transactionId x = tx_id transaction) (deliveries d)))),
           fs'))"

subsection \<open>PATCH /api/transactions/:id and POST /api/transactions/:id/close\<close>

text \<open>
  \<open>prisma.transaction.updateMany({where, data})\<close>: the rows after the update and the number of
  rows matched. The \<open>updatedAt\<close> column has no database default; the storage client stamps it
  with the clock on every update that does not set it.
\<close>

definition transaction_updateMany ::
  "(transaction_row \<Rightarrow> bool) \<Rightarrow> (transaction_row \<Rightarrow> transaction_row) \<Rightarrow> int \<Rightarrow> transaction_row list
     \<Rightarrow> transaction_row list \<times> nat" where
  "transaction_updateMany matches change now rows =
     (map (\<lambda>r. if matches r then (change r)\<lparr>tx_updatedAt := now\<rparr> else r) rows,
      length (filter matches rows))"

record update_body =
  ub_description :: "string option"
  ub_quantity :: "jsnum option"
  ub_unitPrice :: "jsnum option"
  ub_totalAmount :: "jsnum option"

text \<open>\<open>...(v !== undefined && {column: v})\<close>\<close>

definition if_defined :: "'a option \<Rightarrow> 'a option \<Rightarrow> 'a option" where
  "if_defined v old = (case v of None \<Rightarrow> old | Some x \<Rightarrow> Some x)"

definition update_transaction ::
  "string \<Rightarrow> string \<Rightarrow> update_body \<Rightarrow> int \<Rightarrow> faults \<Rightarrow> db \<Rightarrow> db \<times> transaction_row option response \<times> faults" where
  "update_transaction uid i body now fs d =
     (if \<not> (optional_isFloat_min 0 (ub_quantity body) \<and> optional_isFloat_min 0 (ub_unitPrice body)
             \<and> optional_isFloat_min 0 (ub_totalAmount body))
      then (d, Http400, fs)
      else
        (case storage_call fs
                (Inr (transaction_updateMany
                        (\<lambda>r. tx_id r = i \<and> tx_userId r = uid \<and> tx_status r = ACTIVE)
                        (\<lambda>r. r\<lparr>tx_description := if_defined (ub_description body) (tx_description r),
                                tx_quantity := if_defined (ub_quantity body) (tx_quantity r),
                                tx_unitPrice := if_defined (ub_unitPrice body) (tx_unitPrice r),
                                tx_totalAmount := if_defined (ub_totalAmount body) (tx_totalAmount r)\<rparr>)
                        now (transactions d))) of
           (Inl e, fs1) \<Rightarrow> (d, Http500, fs1)
         | (Inr (rows, count), fs1) \<Rightarrow>
             if count = 0 then (d, Http404, fs1)
             else
               (case storage_call fs1 (Inr (find (\<lambda>r. tx_id r = i) rows)) of
                  (Inl e, fs2) \<Rightarrow> (d\<lparr>transactions := rows\<rparr>, Http500, fs2)
                | (Inr transaction, fs2) \<Rightarrow> (d\<lparr>transactions := rows\<rparr>, Http200 transaction, fs2))))"

definition close_transaction ::
  "string \<Rightarrow> string \<Rightarrow> int \<Rightarrow> faults \<Rightarrow> db \<Rightarrow> db \<times> unit response \<times> faults" where
  "close_transaction uid i now fs d =
     (case storage_call fs
             (Inr (transaction_updateMany
                     (\<lambda>r. tx_id r = i \<and> tx_userId r = uid \<and> tx_status r = ACTIVE)
                     (\<lambda>r. r\<lparr>tx_status := CLOSED, tx_closedAt := Some now\<rparr>)
                     now (transactions d))) of
        (Inl e, fs1) \<Rightarrow> (d, Http500, fs1)
      | (Inr (rows, count), fs1) \<Rightarrow>
          if count = 0 then (d, Http404, fs1)
          else (d\<lparr>transactions := rows\<rparr>, Http200 (), fs1))"

subsection \<open>POST /api/transactions/:id/advances and /deliveries\<close>

text \<open>The lookup both routes start with: the caller's transaction with that id, if ACTIVE.\<close>

definition transaction_findFirst_active :: "string \<Rightarrow> string \<Rightarrow> transaction_row list \<Rightarrow> transaction_row option" where
  "transaction_findFirst_active i uid rows =
     find (\<lambda>r. tx_id r = i \<and> tx_userId r = uid \<and> tx_status r = ACTIVE) rows"

record advance_body =
  ab_amount :: jsnum
  ab_description :: "string option"

definition add_advance ::
  "string \<Rightarrow> string \<Rightarrow> advance_body \<Rightarrow> int \<Rightarrow> faults \<Rightarrow> db \<Rightarrow> db \<times> advance_row response \<times> faults" where
  "add_advance uid i body now fs d =
     (if \<not> isFloat_min (1 / 100) (ab_amount body) then (d, Http400, fs)
      else
        (case storage_call fs (Inr (transaction_findFirst_active i uid (transactions d))) of
           (Inl e, fs1) \<Rightarrow> (d, Http500, fs1)
         | (Inr None, fs1) \<Rightarrow> (d, Http404, fs1)
         | (Inr (Some transaction), fs1) \<Rightarrow>
             (let advance = \<lparr>adv_amount = ab_amount body, adv_description = ab_description body,
                             adv_advanceDate = now, adv_transactionId = i\<rparr>
              in case storage_call fs1 (Inr (advances d @ [advance])) of
                   (Inl e, fs2) \<Rightarrow> (d, Http500, fs2)
                 | (Inr rows, fs2) \<Rightarrow> (d\<lparr>advances := rows\<rparr>, Http201 advance, fs2))))"

record delivery_body =
  db_quantity :: jsnum
  db_description :: "string option"

definition add_delivery ::
  "string \<Rightarrow> string \<Rightarrow> delivery_body \<Rightarrow> int \<Rightarrow> faults \<Rightarrow> db \<Rightarrow> db \<times> delivery_row response \<times> faults" where
  "add_delivery uid i body now fs d =
     (if \<not> isFloat_min (1 / 100) (db_quantity body) then (d, Http400, fs)
      else
        (case storage_call fs (Inr (transaction_findFirst_active i uid (transactions d))) of
           (Inl e, fs1) \<Rightarrow> (d, Http500, fs1)
         | (Inr None, fs1) \<Rightarrow> (d, Http404, fs1)
         | (Inr (Some transaction), fs1) \<Rightarrow>
             (let delivery = \<lparr>del_quantity = db_quantity body, del_description = db_description body,
                              del_deliveryDate = now, del_transactionId = i\<rparr>
              in case storage_call fs1 (Inr (deliveries d @ [delivery])) of
                   (Inl e, fs2) \<Rightarrow> (d, Http500, fs2)
                 | (Inr rows, fs2) \<Rightarrow> (d\<lparr>deliveries := rows\<rparr>, Http201 delivery, fs2))))"

section \<open>The loops on a batch of objects\<close>

text \<open>
  What a turn of either loop does for an element that is an object, where no error leaves the
  turn; the turns for a list of objects; and the objects of a batch that the loop reaches, those
  before its first \<open>null\<close>.
\<close>

definition provider_turn :: "string \<Rightarrow> client_provider \<Rightarrow> db \<times> results \<times> faults \<Rightarrow> db \<times> results \<times> faults" where
  "provider_turn uid p st = fst (sync_provider uid (Object p) st)"

fun provider_turns :: "string \<Rightarrow> client_provider list \<Rightarrow> db \<times> results \<times> faults \<Rightarrow> db \<times> results \<times> faults" where
  "provider_turns uid [] st = st"
| "provider_turns uid (p # ps) st = provider_turns uid ps (provider_turn uid p st)"

definition transaction_turn :: "string \<Rightarrow> client_transaction \<Rightarrow> db \<times> results \<times> faults \<Rightarrow> db \<times> results \<times> faults" where
  "transaction_turn uid t st = fst (sync_transaction uid (Object t) st)"

fun transaction_turns :: "string \<Rightarrow> client_transaction list \<Rightarrow> db \<times> results \<times> faults \<Rightarrow> db \<times> results \<times> faults" where
  "transaction_turns uid [] st = st"
| "transaction_turns uid (t # ts) st = transaction_turns uid ts (transaction_turn uid t st)"

fun leading_objects :: "'a element list \<Rightarrow> 'a list" where
  "leading_objects [] = []"
| "leading_objects (Object x # els) = x # leading_objects els"
| "leading_objects (NullElement # els) = []"

section \<open>Observations on the store\<close>

text \<open>The primary keys of the provider and transaction tables: no id twice.\<close>

definition keys_ok :: "db \<Rightarrow> bool" where
  "keys_ok d = (distinct (map prov_id (providers d)) \<and> distinct (map tx_id (transactions d)))"


text \<open>Counters advanced by \<open>c\<close> creations, \<open>u\<close> updates and the errors \<open>es\<close>.\<close>

definition bump :: "nat \<Rightarrow> nat \<Rightarrow> (string \<times> prisma_error) list \<Rightarrow> counts \<Rightarrow> counts" where
  "bump c u es k = \<lparr>created = created k + c, updated = updated k + u, errors = errors k @ es\<rparr>"

text \<open>The status of the transaction with id \<open>i\<close>, and the movements recorded against it.\<close>

definition status_of :: "db \<Rightarrow> string \<Rightarrow> tx_status option" where
  "status_of d i = map_option tx_status (find (\<lambda>r. tx_id r = i) (transactions d))"

definition advances_of :: "db \<Rightarrow> string \<Rightarrow> advance_row list" where
  "advances_of d i = filter (\<lambda>a. adv_transactionId a = i) (advances d)"

definition deliveries_of :: "db \<Rightarrow> string \<Rightarrow> delivery_row list" where
  "deliveries_of d i = filter (\<lambda>x. del_transactionId x = i) (deliveries d)"

text \<open>
  The store holds, among the rows of user \<open>uid\<close>, a row with the record's id that is at least
  as recent as the record.
\<close>

definition provider_covered :: "string \<Rightarrow> provider_row list \<Rightarrow> client_provider \<Rightarrow> bool" where
  "provider_covered uid rows p =
     (case provider_findFirst (cp_id p) uid rows of
        None \<Rightarrow> False
      | Some r \<Rightarrow> \<not> date_gt (cp_updatedAt p) (Some (prov_updatedAt r)))"

definition transaction_covered :: "string \<Rightarrow> transaction_row list \<Rightarrow> client_transaction \<Rightarrow> bool" where
  "transaction_covered uid rows t =
     (case transaction_findFirst (ct_id t) uid rows of
        None \<Rightarrow> False
      | Some r \<Rightarrow> \<not> date_gt (ct_updatedAt t) (Some (tx_updatedAt r)))"

section \<open>The progress percentage as the specification words it\<close>

text \<open>
  Rounding to two decimal places, a tie going up, of the exact percentage; and the progress
  percentage defined from it: zero when nothing was agreed, else the rounded exact quotient.
\<close>

definition spec_round2 :: "rat \<Rightarrow> rat" where
  "spec_round2 p = of_int \<lfloor>p * 100 + 1 / 2\<rfloor> / 100"

definition spec_progress :: "rat \<Rightarrow> rat \<Rightarrow> rat" where
  "spec_progress reached agreed = (if agreed = 0 then 0 else spec_round2 (100 * reached / agreed))"

section \<open>Example data\<close>

definition empty_db :: db where
  "empty_db = \<lparr>providers = [], transactions = [], productServices = [], organizations = [],
     organizationMembers = [], advances = [], deliveries = [], expenses = [],
     expenseCategories = [], syncLogs = []\<rparr>"

definition ana_row :: provider_row where
  "ana_row = \<lparr>prov_id = ''p1'', prov_name = ''Ana'', prov_email = None, prov_phone = None,
     prov_address = None, prov_notes = None, prov_userId = Some ''u1'', prov_organizationId = None,
     prov_createdAt = 10, prov_updatedAt = 20\<rparr>"

definition maize_row :: transaction_row where
  "maize_row = \<lparr>tx_id = ''t1'', tx_contractNumber = ''20250127-A3F9'', tx_description = None,
     tx_status = ACTIVE, tx_productServiceId = None, tx_quantity = Some (Num 100),
     tx_unitPrice = Some (Num 10), tx_totalAmount = Some (Num 1000), tx_transactionDate = 10,
     tx_closedAt = None, tx_userId = ''u1'', tx_organizationId = None, tx_providerId = ''p1'',
     tx_createdAt = 10, tx_updatedAt = 20\<rparr>"

definition shop_db :: db where
  "shop_db = empty_db\<lparr>providers := [ana_row], transactions := [maize_row]\<rparr>"

text \<open>The provider and the transaction of \<open>shop_db\<close> as a client sends them, stamped \<open>u\<close>.\<close>

definition ana_client :: "jsdate \<Rightarrow> client_provider" where
  "ana_client u = \<lparr>cp_id = ''p1'', cp_name = Val ''Ana Maria'', cp_email = Undefined, cp_phone = Null,
     cp_address = Undefined, cp_notes = Undefined, cp_createdAt = Some 10, cp_updatedAt = u\<rparr>"

definition maize_client :: "jsdate \<Rightarrow> client_transaction" where
  "maize_client u = \<lparr>ct_id = ''t1'', ct_contractNumber = Val ''20250127-A3F9'', ct_description = Val ''maize'',
     ct_quantity = Val (Num 100), ct_unitPrice = Val (Num 10), ct_totalAmount = Val (Num 1000),
     ct_status = Val ACTIVE, ct_providerId = Val ''p1'', ct_productServiceId = Undefined,
     ct_transactionDate = Some 10, ct_createdAt = Some 10, ct_updatedAt = u\<rparr>"

text \<open>Another user pushes records under the ids of \<open>shop_db\<close>.\<close>

definition intruder_body :: push_body where
  "intruder_body = \<lparr>body_transactions = Some [Object (maize_client (Some 99))],
                    body_providers = Some [Object (ana_client (Some 99))], body_expenses = None\<rparr>"

text \<open>A provider the store does not know yet, and a batch that holds only it.\<close>

definition rosa_client :: client_provider where
  "rosa_client = \<lparr>cp_id = ''p2'', cp_name = Val ''Rosa'', cp_email = Val ''rosa@example.org'',
     cp_phone = Undefined, cp_address = Undefined, cp_notes = Null,
     cp_createdAt = Some 30, cp_updatedAt = Some 31\<rparr>"

definition rosa_row :: provider_row where
  "rosa_row = \<lparr>prov_id = ''p2'', prov_name = ''Rosa'', prov_email = Some ''rosa@example.org'',
     prov_phone = None, prov_address = None, prov_notes = None, prov_userId = Some ''u1'',
     prov_organizationId = None, prov_createdAt = 30, prov_updatedAt = 31\<rparr>"

definition rosa_body :: push_body where
  "rosa_body = \<lparr>body_transactions = None, body_providers = Some [Object rosa_client], body_expenses = None\<rparr>"

text \<open>A batch that holds one expense and nothing else.\<close>

definition fuel_client :: client_expense where
  "fuel_client = \<lparr>ce_id = ''e1'', ce_amount = Val (Num 25), ce_description = Val ''fuel'',
     ce_categoryId = Val ''c1'', ce_createdAt = Some 40, ce_updatedAt = Some 40\<rparr>"

definition fuel_body :: push_body where
  "fuel_body = \<lparr>body_transactions = None, body_providers = None, body_expenses = Some [Object fuel_client]\<rparr>"

text \<open>A provider record without a name, which no row can be created from.\<close>

definition nameless_client :: client_provider where
  "nameless_client = \<lparr>cp_id = ''p3'', cp_name = Undefined, cp_email = Undefined,
     cp_phone = Undefined, cp_address = Undefined, cp_notes = Undefined,
     cp_createdAt = Some 30, cp_updatedAt = Some 31\<rparr>"

text \<open>A transaction record whose provider does not exist.\<close>

definition orphan_client :: client_transaction where
  "orphan_client = \<lparr>ct_id = ''t7'', ct_contractNumber = Val ''20250301-0B1C'', ct_description = Undefined,
     ct_quantity = Undefined, ct_unitPrice = Undefined, ct_totalAmount = Undefined,
     ct_status = Undefined, ct_providerId = Val ''p404'', ct_productServiceId = Undefined,
     ct_transactionDate = Some 50, ct_createdAt = Some 50, ct_updatedAt = Some 50\<rparr>"

text \<open>A general expense recorded in a category that user \<open>u1\<close> made for themselves.\<close>

definition transport_cat :: category_row where
  "transport_cat = \<lparr>cat_id = ''c1'', cat_name = ''Transporte'', cat_isDefault = False, cat_userId = Some ''u1''\<rparr>"

definition fuel_row :: expense_row where
  "fuel_row = \<lparr>exp_id = ''e1'', exp_amount = Num 25, exp_description = Some ''fuel'',
     exp_categoryId = ''c1'', exp_transactionId = None, exp_updatedAt = 40\<rparr>"

definition ledger_db :: db where
  "ledger_db = shop_db\<lparr>expenses := [fuel_row], expenseCategories := [transport_cat]\<rparr>"

text \<open>The store of \<open>shop_db\<close> after its transaction was closed at time 60, and a client's
  later copy of that transaction which still says ACTIVE.\<close>

definition closed_db :: db where
  "closed_db = shop_db\<lparr>transactions :=
     [maize_row\<lparr>tx_status := CLOSED, tx_closedAt := Some 60, tx_updatedAt := 60\<rparr>]\<rparr>"

definition reopen_body :: push_body where
  "reopen_body = \<lparr>body_transactions = Some [Object (maize_client (Some 99))], body_providers = None,
                  body_expenses = None\<rparr>"

text \<open>A batch of user \<open>u1\<close> that creates one provider and updates a provider and a transaction.\<close>

definition monday_body :: push_body where
  "monday_body = \<lparr>body_transactions = Some [Object (maize_client (Some 99))],
                  body_providers = Some [Object rosa_client, Object (ana_client (Some 99))],
                  body_expenses = None\<rparr>"

text \<open>The same batch with a \<open>null\<close> between its two providers, as in the JSON body
  \<open>{"providers": [{...}, null, {...}], "transactions": [{...}]}\<close>.\<close>

definition broken_body :: push_body where
  "broken_body = \<lparr>body_transactions = Some [Object (maize_client (Some 99))],
                  body_providers = Some [Object rosa_client, NullElement, Object (ana_client (Some 99))],
                  body_expenses = None\<rparr>"

text \<open>
  The worked example of the balance computation: user \<open>u1\<close>, who has the provider \<open>p1\<close>, agrees
  on 100 units at 10 each and states no total; then come payments of 200 and 150 and deliveries
  of 40 and 20, at the times 11 to 14.
\<close>

definition supplier_db :: db where
  "supplier_db = empty_db\<lparr>providers := [ana_row]\<rparr>"

definition contract_body :: create_body where
  "contract_body = \<lparr>cb_providerId = ''p1'', cb_productServiceId = None, cb_description = Some ''maize'',
     cb_quantity = Some (Num 100), cb_unitPrice = Some (Num 10), cb_totalAmount = None,
     cb_organizationId = None\<rparr>"

definition contract_row :: transaction_row where
  "contract_row = \<lparr>tx_id = ''t1'', tx_contractNumber = ''20250127-A3F9'', tx_description = Some ''maize'',
     tx_status = ACTIVE, tx_productServiceId = None, tx_quantity = Some (Num 100),
     tx_unitPrice = Some (Num 10), tx_totalAmount = Some (Num 1000), tx_transactionDate = 10,
     tx_closedAt = None, tx_userId = ''u1'', tx_organizationId = None, tx_providerId = ''p1'',
     tx_createdAt = 10, tx_updatedAt = 10\<rparr>"

definition payment :: "rat \<Rightarrow> int \<Rightarrow> advance_row" where
  "payment x day = \<lparr>adv_amount = Num x, adv_description = None, adv_advanceDate = day,
     adv_transactionId = ''t1''\<rparr>"

definition handover :: "rat \<Rightarrow> int \<Rightarrow> delivery_row" where
  "handover x day = \<lparr>del_quantity = Num x, del_description = None, del_deliveryDate = day,
     del_transactionId = ''t1''\<rparr>"

definition contract_db :: db where
  "contract_db = supplier_db\<lparr>transactions := [contract_row]\<rparr>"

definition settled_db :: db where
  "settled_db = contract_db\<lparr>advances := [payment 200 11, payment 150 12],
                            deliveries := [handover 40 13, handover 20 14]\<rparr>"

definition example_balances :: balances where
  "example_balances = \<lparr>totalAdvances = Num 350, totalDelivered = Num 60, moneyBalance = Num 650,
     productBalance = Num 40, moneyProgress = Num 35, productProgress = Num 60\<rparr>"

text \<open>A batch that holds the provider Ana twice, first as old as the row, then newer; and a
  batch that holds copies of the provider Ana and of the maize transaction that are not newer
  than the rows, and the new provider Rosa.\<close>

definition twice_body :: push_body where
  "twice_body = \<lparr>body_transactions = None,
                 body_providers = Some [Object (ana_client (Some 20)), Object (ana_client (Some 99))],
                 body_expenses = None\<rparr>"

definition stale_body :: push_body where
  "stale_body = \<lparr>body_transactions = Some [Object (maize_client (Some 15))],
                 body_providers = Some [Object (ana_client (Some 20)), Object rosa_client],
                 body_expenses = None\<rparr>"

section \<open>The loops, turn by turn\<close>

lemma provider_turn_eq:
  "provider_turn uid p st =
     (case st of (d, res, fs) \<Rightarrow>
        (case sync_provider_try uid p d (res_providers res) fs of
           (Inr (d', c'), fs') \<Rightarrow> (d', res\<lparr>res_providers := c'\<rparr>, fs')
         | (Inl e, fs') \<Rightarrow> (d, res\<lparr>res_providers := add_error (cp_id p) e (res_providers res)\<rparr>, fs')))"
  by (simp add: provider_turn_def sync_provider_def split: prod.splits sum.splits)

lemma transaction_turn_eq:
  "transaction_turn uid t st =
     (case st of (d, res, fs) \<Rightarrow>
        (case sync_transaction_try uid t d (res_transactions res) fs of
           (Inr (d', c'), fs') \<Rightarrow> (d', res\<lparr>res_transactions := c'\<rparr>, fs')
         | (Inl e, fs') \<Rightarrow> (d, res\<lparr>res_transactions := add_error (ct_id t) e (res_transactions res)\<rparr>, fs')))"
  by (simp add: transaction_turn_def sync_transaction_def split: prod.splits sum.splits)

text \<open>An object never lets an error out of its turn; \<open>null\<close> always does, and changes nothing.\<close>

lemma sync_provider_Object: "sync_provider uid (Object p) st = (provider_turn uid p st, None)"
  by (simp add: provider_turn_def sync_provider_def split: prod.splits sum.splits)

lemma sync_provider_Null: "sync_provider uid NullElement st = (st, Some TypeError)"
  by (simp add: sync_provider_def split: prod.splits)

lemma sync_transaction_Object: "sync_transaction uid (Object t) st = (transaction_turn uid t st, None)"
  by (simp add: transaction_turn_def sync_transaction_def split: prod.splits sum.splits)

lemma sync_transaction_Null: "sync_transaction uid NullElement st = (st, Some TypeError)"
  by (simp add: sync_transaction_def split: prod.splits)

text \<open>A loop runs the turns of the objects before the first \<open>null\<close>, and stops there with a
  \<open>TypeError\<close> if there is one.\<close>

lemma sync_providers_reach:
  "sync_providers uid els st =
     (provider_turns uid (leading_objects els) st,
      if NullElement \<in> set els then Some TypeError else None)"
proof (induction els arbitrary: st)
  case Nil
  show ?case by simp
next
  case (Cons el els)
  show ?case
  proof (cases el)
    case (Object p)
    then show ?thesis by (simp add: sync_provider_Object Cons.IH)
  next
    case NullElement
    then show ?thesis by (simp add: sync_provider_Null)
  qed
qed

lemma sync_transactions_reach:
  "sync_transactions uid els st =
     (transaction_turns uid (leading_objects els) st,
      if NullElement \<in> set els then Some TypeError else None)"
proof (induction els arbitrary: st)
  case Nil
  show ?case by simp
next
  case (Cons el els)
  show ?case
  proof (cases el)
    case (Object t)
    then show ?thesis by (simp add: sync_transaction_Object Cons.IH)
  next
    case NullElement
    then show ?thesis by (simp add: sync_transaction_Null)
  qed
qed

lemma leading_objects_all: "NullElement \<notin> set els \<Longrightarrow> map Object (leading_objects els) = els"
proof (induction els)
  case Nil
  show ?case by simp
next
  case (Cons el els)
  then show ?case by (cases el) simp_all
qed

lemma leading_objects_map [simp]: "leading_objects (map Object xs) = xs"
  by (induction xs) simp_all

lemma leading_objects_map_append [simp]:
  "leading_objects (map Object xs @ els) = xs @ leading_objects els"
  by (induction xs) simp_all

lemma leading_objects_subset: "x \<in> set (leading_objects els) \<Longrightarrow> Object x \<in> set els"
proof (induction els)
  case Nil
  then show ?case by simp
next
  case (Cons el els)
  then show ?case by (cases el) auto
qed

lemma leading_objects_length: "length (leading_objects els) \<le> length els"
proof (induction els)
  case Nil
  show ?case by simp
next
  case (Cons el els)
  then show ?case by (cases el) simp_all
qed

section \<open>Basic facts about the storage operations\<close>

lemma storage_call_cases:
  "storage_call fs r = (r, tl fs) \<or> storage_call fs r = (Inl Unavailable, tl fs)"
  by (cases fs) (auto simp: storage_call_def)

lemma storage_call_Inr:
  "storage_call fs r = (Inr x, fs') \<Longrightarrow> r = Inr x"
  using storage_call_cases[of fs r] by auto


lemma find_SomeD: "find P xs = Some x \<Longrightarrow> x \<in> set xs \<and> P x"
  by (induction xs) (auto split: if_splits)

lemma distinct_map_same:
  "distinct (map f xs) \<Longrightarrow> x \<in> set xs \<Longrightarrow> y \<in> set xs \<Longrightarrow> f x = f y \<Longrightarrow> x = y"
  by (meson distinct_map inj_onD)

text \<open>What one provider record can do to the store.\<close>

lemma provider_turn_effect:
  assumes "provider_turn uid p (d, res, fs) = (d', res', fs')"
  shows "d' = d
       \<or> (\<exists>existing rows. provider_findFirst (cp_id p) uid (providers d) = Some existing
             \<and> date_gt (cp_updatedAt p) (Some (prov_updatedAt existing))
             \<and> provider_update p (providers d) = Inr rows \<and> d' = d\<lparr>providers := rows\<rparr>)
       \<or> (\<exists>rows. provider_findFirst (cp_id p) uid (providers d) = None
             \<and> provider_create uid p (providers d) = Inr rows \<and> d' = d\<lparr>providers := rows\<rparr>)"
  using assms
  by (auto simp: provider_turn_eq sync_provider_try_def
        split: prod.splits sum.splits option.splits if_splits dest!: storage_call_Inr)


lemma provider_create_others:
  assumes "provider_create uid p rows = Inr rows'"
  shows "filter (\<lambda>r. prov_userId r \<noteq> Some uid) rows' = filter (\<lambda>r. prov_userId r \<noteq> Some uid) rows
       \<and> (\<exists>r. rows' = rows @ [r] \<and> prov_userId r = Some uid \<and> prov_id r = cp_id p \<and> cp_id p \<notin> prov_id ` set rows)"
  using assms unfolding provider_create_def
  by (auto split: field.splits option.splits if_splits)




lemma transaction_turn_effect:
  assumes "transaction_turn uid t (d, res, fs) = (d', res', fs')"
  shows "d' = d
       \<or> (\<exists>existing rows. transaction_findFirst (ct_id t) uid (transactions d) = Some existing
             \<and> date_gt (ct_updatedAt t) (Some (tx_updatedAt existing))
             \<and> transaction_update t (transactions d) = Inr rows \<and> d' = d\<lparr>transactions := rows\<rparr>)
       \<or> (\<exists>rows. transaction_findFirst (ct_id t) uid (transactions d) = None
             \<and> transaction_create uid t d = Inr rows \<and> d' = d\<lparr>transactions := rows\<rparr>)"
  using assms
  by (auto simp: transaction_turn_eq sync_transaction_try_def
        split: prod.splits sum.splits option.splits if_splits dest!: storage_call_Inr)


lemma transaction_insert_Inr:
  "transaction_insert row d = Inr rows \<Longrightarrow> rows = transactions d @ [row] \<and> tx_id row \<notin> tx_id ` set (transactions d)"
  by (auto simp: transaction_insert_def split: if_splits)

lemma transaction_create_others:
  assumes "transaction_create uid t d = Inr rows'"
  shows "\<exists>r. rows' = transactions d @ [r] \<and> tx_userId r = uid \<and> tx_id r = ct_id t
            \<and> ct_id t \<notin> tx_id ` set (transactions d)"
  using assms unfolding transaction_create_def
  by (auto split: field.splits option.splits if_splits dest!: transaction_insert_Inr)



text \<open>The outer \<open>catch\<close> adds the failure row, or nothing when its insert is rejected.\<close>

lemma push_failed_cases:
  "(\<exists>fs'. push_failed uid e d fs =
        (d\<lparr>syncLogs := syncLogs d @
             [\<lparr>log_userId = uid, log_syncType = ''push'', log_recordsCount = 0,
               log_status = ''failed'', log_errorMessage = Some e\<rparr>]\<rparr>, PushFailed, fs'))
   \<or> (\<exists>fs'. push_failed uid e d fs = (d, PushNoResponse, fs'))"
  by (cases fs) (simp_all add: push_failed_def storage_call_def syncLog_create_def)

text \<open>
  The run of a push: the turns of the providers before the first \<open>null\<close>, then, if there was
  none, the turns of the transactions before the first \<open>null\<close>; and what the handler adds to the
  store the loops leave: a log row at most. It answers 200 only when no element is \<open>null\<close>.
\<close>

lemma push_run:
  "\<exists>ts d2 res fs2.
      (ts = [] \<or> ts = leading_objects (default_list (body_transactions body)))
    \<and> transaction_turns uid ts
        (provider_turns uid (leading_objects (default_list (body_providers body))) (d, results0, fs))
        = (d2, res, fs2)
    \<and> ((NullElement \<notin> set (default_list (body_providers body))
         \<and> NullElement \<notin> set (default_list (body_transactions body))
         \<and> ts = leading_objects (default_list (body_transactions body))
         \<and> (\<exists>fs'. push uid body fs d =
              (d2\<lparr>syncLogs := syncLogs d2 @
                   [\<lparr>log_userId = uid, log_syncType = ''push'',
                     log_recordsCount = length (default_list (body_transactions body))
                        + length (default_list (body_providers body))
                        + length (default_list (body_expenses body)),
                     log_status = ''success'', log_errorMessage = None\<rparr>]\<rparr>, PushOk res, fs')))
       \<or> (\<exists>e fs'. push uid body fs d =
              (d2\<lparr>syncLogs := syncLogs d2 @
                   [\<lparr>log_userId = uid, log_syncType = ''push'', log_recordsCount = 0,
                     log_status = ''failed'', log_errorMessage = Some e\<rparr>]\<rparr>, PushFailed, fs'))
       \<or> (\<exists>fs'. push uid body fs d = (d2, PushNoResponse, fs')))"
proof -
  define provs where "provs = default_list (body_providers body)"
  define txs where "txs = default_list (body_transactions body)"
  obtain d1 res1 fs1 where p: "provider_turns uid (leading_objects provs) (d, results0, fs) = (d1, res1, fs1)"
    by (metis prod_cases3)
  show ?thesis
  proof (cases "NullElement \<in> set provs")
    case True
    then have "push uid body fs d = push_failed uid TypeError d1 fs1"
      by (simp add: push_def Let_def sync_providers_reach p provs_def[symmetric])
    with push_failed_cases[of uid TypeError d1 fs1] p
    show ?thesis
      unfolding provs_def
      by (intro exI[of _ "[]"] exI[of _ d1] exI[of _ res1] exI[of _ fs1]) auto
  next
    case False
    obtain d2 res fs2 where t: "transaction_turns uid (leading_objects txs) (d1, res1, fs1) = (d2, res, fs2)"
      by (metis prod_cases3)
    show ?thesis
    proof (cases "NullElement \<in> set txs")
      case True
      with False have "push uid body fs d = push_failed uid TypeError d2 fs2"
        by (simp add: push_def Let_def sync_providers_reach sync_transactions_reach p t
              provs_def[symmetric] txs_def[symmetric])
      with push_failed_cases[of uid TypeError d2 fs2] p t
      show ?thesis
        unfolding provs_def txs_def
        by (intro exI[of _ "leading_objects (default_list (body_transactions body))"]
              exI[of _ d2] exI[of _ res] exI[of _ fs2]) auto
    next
      case nonull: False
      obtain r fs3 where c: "storage_call fs2
             (syncLog_create \<lparr>log_userId = uid, log_syncType = ''push'',
                              log_recordsCount = length txs + length provs + length (default_list (body_expenses body)),
                              log_status = ''success'', log_errorMessage = None\<rparr> d2) = (r, fs3)"
        by force
      show ?thesis
      proof (cases r)
        case (Inr d3)
        with c have "d3 = d2\<lparr>syncLogs := syncLogs d2 @
                   [\<lparr>log_userId = uid, log_syncType = ''push'',
                     log_recordsCount = length txs + length provs + length (default_list (body_expenses body)),
                     log_status = ''success'', log_errorMessage = None\<rparr>]\<rparr>"
          by (cases fs2) (auto simp: storage_call_def syncLog_create_def split: if_splits)
        moreover from False nonull c Inr have "push uid body fs d = (d3, PushOk res, fs3)"
          by (simp add: push_def Let_def sync_providers_reach sync_transactions_reach p t
                provs_def[symmetric] txs_def[symmetric])
        ultimately show ?thesis
          using False nonull p t
          unfolding provs_def txs_def
          by (intro exI[of _ "leading_objects (default_list (body_transactions body))"]
                exI[of _ d2] exI[of _ res] exI[of _ fs2]) auto
      next
        case (Inl e)
        with False nonull c have "push uid body fs d = push_failed uid e d2 fs3"
          by (simp add: push_def Let_def sync_providers_reach sync_transactions_reach p t
                provs_def[symmetric] txs_def[symmetric])
        with push_failed_cases[of uid e d2 fs3] p t
        show ?thesis
          unfolding provs_def txs_def
          by (intro exI[of _ "leading_objects (default_list (body_transactions body))"]
                exI[of _ d2] exI[of _ res] exI[of _ fs2]) auto
      qed
    qed
  qed
qed





section \<open>Last write wins: the turn of a record that is not newer\<close>

text \<open>
  Whatever the store, the counters and the storage schedule are when a loop reaches a record:
  if the caller owns a row with the record's id and the record's \<open>updatedAt\<close> is not strictly
  later than the row's, the turn leaves the whole store as it is and counts neither a creation
  nor an update.
\<close>

lemma turn_skips_record_not_newer:
  "(\<forall>existing. provider_findFirst (cp_id p) uid (providers d) = Some existing
       \<longrightarrow> \<not> date_gt (cp_updatedAt p) (Some (prov_updatedAt existing))
       \<longrightarrow> (\<exists>res' fs'. provider_turn uid p (d, res, fs) = (d, res', fs')
              \<and> created (res_providers res') = created (res_providers res)
              \<and> updated (res_providers res') = updated (res_providers res)
              \<and> res_transactions res' = res_transactions res)) \<and>
   (\<forall>existing. transaction_findFirst (ct_id t) uid (transactions d) = Some existing
       \<longrightarrow> \<not> date_gt (ct_updatedAt t) (Some (tx_updatedAt existing))
       \<longrightarrow> (\<exists>res' fs'. transaction_turn uid t (d, res, fs) = (d, res', fs')
              \<and> created (res_transactions res') = created (res_transactions res)
              \<and> updated (res_transactions res') = updated (res_transactions res)
              \<and> res_providers res' = res_providers res))"
  by (auto simp: provider_turn_eq sync_provider_try_def transaction_turn_eq
        sync_transaction_try_def storage_call_def add_error_def split: list.splits)

section \<open>Ownership\<close>



lemma provider_turn_keeps:
  assumes "provider_turn uid p (d, res, fs) = (d', res', fs')"
  shows "syncLogs d' = syncLogs d \<and> expenses d' = expenses d \<and> advances d' = advances d
       \<and> deliveries d' = deliveries d \<and> transactions d' = transactions d
       \<and> res_expenses res' = res_expenses res \<and> res_transactions res' = res_transactions res"
  using assms
  by (auto simp: provider_turn_eq sync_provider_try_def
        split: prod.splits sum.splits option.splits if_splits)

lemma provider_turns_keeps:
  "provider_turns uid ps (d, res, fs) = (d', res', fs')
   \<Longrightarrow> syncLogs d' = syncLogs d \<and> expenses d' = expenses d \<and> advances d' = advances d
       \<and> deliveries d' = deliveries d \<and> transactions d' = transactions d
       \<and> res_expenses res' = res_expenses res \<and> res_transactions res' = res_transactions res"
proof (induction ps arbitrary: d res fs)
  case Nil
  then show ?case by simp
next
  case (Cons p ps)
  obtain d1 res1 fs1 where s: "provider_turn uid p (d, res, fs) = (d1, res1, fs1)"
    by (metis prod_cases3)
  from Cons.prems s have "provider_turns uid ps (d1, res1, fs1) = (d', res', fs')" by simp
  from Cons.IH[OF this] provider_turn_keeps[OF s] show ?case by simp
qed

lemma transaction_turn_keeps:
  assumes "transaction_turn uid t (d, res, fs) = (d', res', fs')"
  shows "syncLogs d' = syncLogs d \<and> expenses d' = expenses d \<and> advances d' = advances d
       \<and> deliveries d' = deliveries d \<and> providers d' = providers d
       \<and> res_expenses res' = res_expenses res \<and> res_providers res' = res_providers res"
  using assms
  by (auto simp: transaction_turn_eq sync_transaction_try_def
        split: prod.splits sum.splits option.splits if_splits)

lemma transaction_turns_keeps:
  "transaction_turns uid ts (d, res, fs) = (d', res', fs')
   \<Longrightarrow> syncLogs d' = syncLogs d \<and> expenses d' = expenses d \<and> advances d' = advances d
       \<and> deliveries d' = deliveries d \<and> providers d' = providers d
       \<and> res_expenses res' = res_expenses res \<and> res_providers res' = res_providers res"
proof (induction ts arbitrary: d res fs)
  case Nil
  then show ?case by simp
next
  case (Cons t ts)
  obtain d1 res1 fs1 where s: "transaction_turn uid t (d, res, fs) = (d1, res1, fs1)"
    by (metis prod_cases3)
  from Cons.prems s have "transaction_turns uid ts (d1, res1, fs1) = (d', res', fs')" by simp
  from Cons.IH[OF this] transaction_turn_keeps[OF s] show ?case by simp
qed

lemma push_loops_keep:
  assumes "transaction_turns uid ts (provider_turns uid ps (d, results0, fs)) = (d2, res, fs2)"
  shows "syncLogs d2 = syncLogs d \<and> expenses d2 = expenses d \<and> advances d2 = advances d
       \<and> deliveries d2 = deliveries d \<and> res_expenses res = no_counts"
proof -
  obtain d1 res1 fs1 where p: "provider_turns uid ps (d, results0, fs) = (d1, res1, fs1)"
    by (metis prod_cases3)
  from provider_turns_keeps[OF p] transaction_turns_keeps[of uid ts d1 res1 fs1 d2 res fs2] assms p
  show ?thesis by (simp add: results0_def)
qed

section \<open>The sync log of a push\<close>

text \<open>
  C7 as stated fails on the failure path. A push of one new provider whose success log is
  rejected by the store writes a failure row that counts 0 records, not the 1 submitted; and
  when the insert of the failure row is rejected as well, no row is written at all.
\<close>

theorem push_failure_log_counts_nothing:
  "push ''u1'' rosa_body [False, False, True] empty_db =
     (empty_db\<lparr>providers := [rosa_row],
               syncLogs := [\<lparr>log_userId = ''u1'', log_syncType = ''push'', log_recordsCount = 0,
                             log_status = ''failed'', log_errorMessage = Some Unavailable\<rparr>]\<rparr>,
      PushFailed, [])
   \<and> length (default_list (body_providers rosa_body)) = 1
   \<and> push ''u1'' rosa_body [False, False, True, True] empty_db =
     (empty_db\<lparr>providers := [rosa_row]\<rparr>, PushNoResponse, [])"
  by (simp add: push_def push_failed_def sync_providers_reach sync_transactions_reach rosa_body_def default_list_def provider_turn_eq sync_provider_try_def
        storage_call_def provider_findFirst_def provider_create_def create_nullable_def
        syncLog_create_def empty_db_def rosa_client_def rosa_row_def results0_def no_counts_def)

text \<open>
  C7 as amended. A push writes at most one log row. When it answers 200 it has written exactly
  one, with the total number of submitted records (expenses included) and status
  \<open>success\<close>; when it answers 500 it has written exactly one, with \<open>recordsCount\<close> 0, status
  \<open>failed\<close> and the error; when the insert of the failure row is rejected too, it has written
  none and sends no response.
\<close>

theorem push_writes_one_log_row:
  "(case push uid body fs d of
      (d', PushOk res, fs') \<Rightarrow>
         syncLogs d' = syncLogs d @
           [\<lparr>log_userId = uid, log_syncType = ''push'',
             log_recordsCount = length (default_list (body_transactions body))
                + length (default_list (body_providers body))
                + length (default_list (body_expenses body)),
             log_status = ''success'', log_errorMessage = None\<rparr>]
    | (d', PushFailed, fs') \<Rightarrow>
         (\<exists>e. syncLogs d' = syncLogs d @
           [\<lparr>log_userId = uid, log_syncType = ''push'', log_recordsCount = 0,
             log_status = ''failed'', log_errorMessage = Some e\<rparr>])
    | (d', PushNoResponse, fs') \<Rightarrow> syncLogs d' = syncLogs d)"
proof -
  from push_run[of body uid d fs] obtain ts d2 res fs2 where
    l: "transaction_turns uid ts
          (provider_turns uid (leading_objects (default_list (body_providers body))) (d, results0, fs))
          = (d2, res, fs2)"
    and o: "(\<exists>fs'. push uid body fs d =
              (d2\<lparr>syncLogs := syncLogs d2 @
                   [\<lparr>log_userId = uid, log_syncType = ''push'',
                     log_recordsCount = length (default_list (body_transactions body))
                        + length (default_list (body_providers body))
                        + length (default_list (body_expenses body)),
                     log_status = ''success'', log_errorMessage = None\<rparr>]\<rparr>, PushOk res, fs'))
       \<or> (\<exists>e fs'. push uid body fs d =
              (d2\<lparr>syncLogs := syncLogs d2 @
                   [\<lparr>log_userId = uid, log_syncType = ''push'', log_recordsCount = 0,
                     log_status = ''failed'', log_errorMessage = Some e\<rparr>]\<rparr>, PushFailed, fs'))
       \<or> (\<exists>fs'. push uid body fs d = (d2, PushNoResponse, fs'))"
    by blast
  from push_loops_keep[OF l] have "syncLogs d2 = syncLogs d" by simp
  with o show ?thesis by auto
qed

section \<open>The expenses of a batch\<close>

text \<open>
  C4 fails for the expenses collection: the handler reads \<open>expenses\<close> from the body, reports a
  result for it and counts its records in the log, but has no loop over it. A push of one
  expense creates nothing, reports \<open>created = 0\<close>, and logs one record synchronised.
\<close>

theorem push_ignores_expenses:
  "push ''u1'' fuel_body [] shop_db =
     (shop_db\<lparr>syncLogs := [\<lparr>log_userId = ''u1'', log_syncType = ''push'', log_recordsCount = 1,
                             log_status = ''success'', log_errorMessage = None\<rparr>]\<rparr>,
      PushOk \<lparr>res_transactions = \<lparr>created = 0, updated = 0, errors = []\<rparr>,
              res_providers = \<lparr>created = 0, updated = 0, errors = []\<rparr>,
              res_expenses = \<lparr>created = 0, updated = 0, errors = []\<rparr>\<rparr>, [])
   \<and> expenses (fst (push ''u1'' fuel_body [] shop_db)) = []"
  by (simp add: push_def push_failed_def sync_providers_reach sync_transactions_reach fuel_body_def default_list_def storage_call_def syncLog_create_def
        shop_db_def empty_db_def results0_def no_counts_def)

text \<open>The same for every push: the expense table and the expense counters never change.\<close>

lemma push_never_syncs_expenses:
  "(case push uid body fs d of
      (d', PushOk res, fs') \<Rightarrow> expenses d' = expenses d \<and> res_expenses res = no_counts
    | (d', PushFailed, fs') \<Rightarrow> expenses d' = expenses d
    | (d', PushNoResponse, fs') \<Rightarrow> expenses d' = expenses d)"
proof -
  from push_run[of body uid d fs] obtain ts d2 res fs2 where
    l: "transaction_turns uid ts
          (provider_turns uid (leading_objects (default_list (body_providers body))) (d, results0, fs))
          = (d2, res, fs2)"
    and o: "(\<exists>fs' row. push uid body fs d = (d2\<lparr>syncLogs := syncLogs d2 @ [row]\<rparr>, PushOk res, fs'))
       \<or> (\<exists>fs' row. push uid body fs d = (d2\<lparr>syncLogs := syncLogs d2 @ [row]\<rparr>, PushFailed, fs'))
       \<or> (\<exists>fs'. push uid body fs d = (d2, PushNoResponse, fs'))"
    by blast
  from push_loops_keep[OF l] have "expenses d2 = expenses d" "res_expenses res = no_counts" by simp_all
  with o show ?thesis by auto
qed

section \<open>Isolation of a failing record\<close>

lemma storage_call_Nil [simp]: "storage_call [] r = (r, [])"
  by (simp add: storage_call_def)

lemma provider_turns_append:
  "provider_turns uid (xs @ ys) st = provider_turns uid ys (provider_turns uid xs st)"
  by (induction xs arbitrary: st) simp_all

lemma transaction_turns_append:
  "transaction_turns uid (xs @ ys) st = transaction_turns uid ys (transaction_turns uid xs st)"
  by (induction xs arbitrary: st) simp_all

text \<open>What a record does to the store and to the list of errors does not depend on the counters
  it finds; it adds to them.\<close>

lemma bump_bump: "bump c' u' es' (bump c u es k) = bump (c + c') (u + u') (es @ es') k"
  by (simp add: bump_def)

lemma bump_zero: "bump 0 0 [] k = k"
  by (simp add: bump_def)

lemma sync_provider_try_counts:
  "sync_provider_try uid p d k fs =
     (case sync_provider_try uid p d no_counts fs of
        (Inl e, fs') \<Rightarrow> (Inl e, fs')
      | (Inr (d', k0), fs') \<Rightarrow> (Inr (d', bump (created k0) (updated k0) [] k), fs'))"
  by (simp add: sync_provider_try_def bump_def no_counts_def
        split: prod.splits sum.splits option.splits)

lemma provider_turn_delta:
  "\<exists>d' fs' c u es. \<forall>res. provider_turn uid p (d, res, fs)
       = (d', res\<lparr>res_providers := bump c u es (res_providers res)\<rparr>, fs')"
proof -
  obtain r fs' where t: "sync_provider_try uid p d no_counts fs = (r, fs')"
    by force
  show ?thesis
  proof (cases r)
    case (Inl e)
    have "\<forall>res. provider_turn uid p (d, res, fs)
          = (d, res\<lparr>res_providers := bump 0 0 [(cp_id p, e)] (res_providers res)\<rparr>, fs')"
      unfolding provider_turn_eq prod.case
      by (subst sync_provider_try_counts) (simp add: t Inl add_error_def bump_def)
    then show ?thesis by blast
  next
    case (Inr x)
    obtain d' k0 where x: "x = (d', k0)" by force
    have "\<forall>res. provider_turn uid p (d, res, fs)
          = (d', res\<lparr>res_providers := bump (created k0) (updated k0) [] (res_providers res)\<rparr>, fs')"
      unfolding provider_turn_eq prod.case
      by (subst sync_provider_try_counts) (simp add: t Inr x)
    then show ?thesis by blast
  qed
qed

lemma provider_turns_delta:
  "\<exists>d' fs' c u es. \<forall>res. provider_turns uid ps (d, res, fs)
       = (d', res\<lparr>res_providers := bump c u es (res_providers res)\<rparr>, fs')"
proof (induction ps arbitrary: d fs)
  case Nil
  have "\<forall>res. provider_turns uid [] (d, res, fs) = (d, res\<lparr>res_providers := bump 0 0 [] (res_providers res)\<rparr>, fs)"
    by (simp add: bump_zero)
  then show ?case by blast
next
  case (Cons p ps)
  from provider_turn_delta[of uid p d fs] obtain d1 fs1 c1 u1 es1 where
    1: "\<And>res. provider_turn uid p (d, res, fs) = (d1, res\<lparr>res_providers := bump c1 u1 es1 (res_providers res)\<rparr>, fs1)"
    by blast
  from Cons.IH[of d1 fs1] obtain d' fs' c u es where
    2: "\<And>res. provider_turns uid ps (d1, res, fs1) = (d', res\<lparr>res_providers := bump c u es (res_providers res)\<rparr>, fs')"
    by blast
  have "\<forall>res. provider_turns uid (p # ps) (d, res, fs)
       = (d', res\<lparr>res_providers := bump (c1 + c) (u1 + u) (es1 @ es) (res_providers res)\<rparr>, fs')"
    by (simp add: 1 2 bump_bump)
  then show ?case by blast
qed

lemma provider_turn_Nil_faults:
  "provider_turn uid p (d, res, []) = (d', res', fs') \<Longrightarrow> fs' = []"
  by (auto simp: provider_turn_eq sync_provider_try_def
        split: prod.splits sum.splits option.splits if_splits)

lemma provider_turns_Nil_faults:
  "provider_turns uid ps (d, res, []) = (d', res', fs') \<Longrightarrow> fs' = []"
proof (induction ps arbitrary: d res)
  case Nil
  then show ?case by simp
next
  case (Cons p ps)
  obtain d1 res1 fs1 where s: "provider_turn uid p (d, res, []) = (d1, res1, fs1)"
    by (metis prod_cases3)
  with provider_turn_Nil_faults[OF s] Cons show ?case by simp
qed

lemma provider_failure_isolated:
  assumes xs: "provider_turns uid xs (d, res, []) = (d1, res1, fs1)"
      and fail: "sync_provider_try uid p d1 (res_providers res1) [] = (Inl e, fs2)"
  shows "\<exists>dB resB es. provider_turns uid (xs @ ys) (d, res, []) = (dB, resB, [])
            \<and> errors (res_providers resB) = errors (res_providers res1) @ es
            \<and> provider_turns uid (xs @ p # ys) (d, res, [])
                = (dB, resB\<lparr>res_providers := (res_providers resB)
                               \<lparr>errors := errors (res_providers res1) @ (cp_id p, e) # es\<rparr>\<rparr>, [])"
proof -
  have f1: "fs1 = []" using provider_turns_Nil_faults[OF xs] .
  have f2: "fs2 = []" using fail
    by (auto simp: sync_provider_try_def split: prod.splits sum.splits option.splits if_splits)
  have step: "provider_turn uid p (d1, res1, []) =
      (d1, res1\<lparr>res_providers := add_error (cp_id p) e (res_providers res1)\<rparr>, [])"
    using fail f2 by (simp add: provider_turn_eq)
  from provider_turns_delta[of uid ys d1 "[]"] obtain d' fs' c u es where
    dl: "\<And>r. provider_turns uid ys (d1, r, []) = (d', r\<lparr>res_providers := bump c u es (res_providers r)\<rparr>, fs')"
    by blast
  have f3: "fs' = []" using provider_turns_Nil_faults[OF dl] .
  have B: "provider_turns uid (xs @ ys) (d, res, []) =
      (d', res1\<lparr>res_providers := bump c u es (res_providers res1)\<rparr>, [])"
    by (simp add: provider_turns_append xs f1 dl f3)
  have A: "provider_turns uid (xs @ p # ys) (d, res, []) =
      (d', res1\<lparr>res_providers := bump c u es (add_error (cp_id p) e (res_providers res1))\<rparr>, [])"
    by (simp add: provider_turns_append xs f1 step dl f3)
  show ?thesis
    apply (rule exI[of _ d'])
    apply (rule exI[of _ "res1\<lparr>res_providers := bump c u es (res_providers res1)\<rparr>"])
    apply (rule exI[of _ es])
    apply (simp add: A B bump_def add_error_def)
    done
qed

lemma sync_transaction_try_counts:
  "sync_transaction_try uid t d k fs =
     (case sync_transaction_try uid t d no_counts fs of
        (Inl e, fs') \<Rightarrow> (Inl e, fs')
      | (Inr (d', k0), fs') \<Rightarrow> (Inr (d', bump (created k0) (updated k0) [] k), fs'))"
  by (simp add: sync_transaction_try_def bump_def no_counts_def
        split: prod.splits sum.splits option.splits)

lemma transaction_turn_delta:
  "\<exists>d' fs' c u es. \<forall>res. transaction_turn uid t (d, res, fs)
       = (d', res\<lparr>res_transactions := bump c u es (res_transactions res)\<rparr>, fs')"
proof -
  obtain r fs' where t: "sync_transaction_try uid t d no_counts fs = (r, fs')"
    by force
  show ?thesis
  proof (cases r)
    case (Inl e)
    have "\<forall>res. transaction_turn uid t (d, res, fs)
          = (d, res\<lparr>res_transactions := bump 0 0 [(ct_id t, e)] (res_transactions res)\<rparr>, fs')"
      unfolding transaction_turn_eq prod.case
      by (subst sync_transaction_try_counts) (simp add: t Inl add_error_def bump_def)
    then show ?thesis by blast
  next
    case (Inr x)
    obtain d' k0 where x: "x = (d', k0)" by force
    have "\<forall>res. transaction_turn uid t (d, res, fs)
          = (d', res\<lparr>res_transactions := bump (created k0) (updated k0) [] (res_transactions res)\<rparr>, fs')"
      unfolding transaction_turn_eq prod.case
      by (subst sync_transaction_try_counts) (simp add: t Inr x)
    then show ?thesis by blast
  qed
qed

lemma transaction_turns_delta:
  "\<exists>d' fs' c u es. \<forall>res. transaction_turns uid ts (d, res, fs)
       = (d', res\<lparr>res_transactions := bump c u es (res_transactions res)\<rparr>, fs')"
proof (induction ts arbitrary: d fs)
  case Nil
  have "\<forall>res. transaction_turns uid [] (d, res, fs) = (d, res\<lparr>res_transactions := bump 0 0 [] (res_transactions res)\<rparr>, fs)"
    by (simp add: bump_zero)
  then show ?case by blast
next
  case (Cons t ts)
  from transaction_turn_delta[of uid t d fs] obtain d1 fs1 c1 u1 es1 where
    1: "\<And>res. transaction_turn uid t (d, res, fs) = (d1, res\<lparr>res_transactions := bump c1 u1 es1 (res_transactions res)\<rparr>, fs1)"
    by blast
  from Cons.IH[of d1 fs1] obtain d' fs' c u es where
    2: "\<And>res. transaction_turns uid ts (d1, res, fs1) = (d', res\<lparr>res_transactions := bump c u es (res_transactions res)\<rparr>, fs')"
    by blast
  have "\<forall>res. transaction_turns uid (t # ts) (d, res, fs)
       = (d', res\<lparr>res_transactions := bump (c1 + c) (u1 + u) (es1 @ es) (res_transactions res)\<rparr>, fs')"
    by (simp add: 1 2 bump_bump)
  then show ?case by blast
qed

lemma transaction_turn_Nil_faults:
  "transaction_turn uid t (d, res, []) = (d', res', fs') \<Longrightarrow> fs' = []"
  by (auto simp: transaction_turn_eq sync_transaction_try_def
        split: prod.splits sum.splits option.splits if_splits)

lemma transaction_turns_Nil_faults:
  "transaction_turns uid ts (d, res, []) = (d', res', fs') \<Longrightarrow> fs' = []"
proof (induction ts arbitrary: d res)
  case Nil
  then show ?case by simp
next
  case (Cons t ts)
  obtain d1 res1 fs1 where s: "transaction_turn uid t (d, res, []) = (d1, res1, fs1)"
    by (metis prod_cases3)
  with transaction_turn_Nil_faults[OF s] Cons show ?case by simp
qed

lemma transaction_failure_isolated:
  assumes xs: "transaction_turns uid xs (d, res, []) = (d1, res1, fs1)"
      and fail: "sync_transaction_try uid t d1 (res_transactions res1) [] = (Inl e, fs2)"
  shows "\<exists>dB resB es. transaction_turns uid (xs @ ys) (d, res, []) = (dB, resB, [])
            \<and> errors (res_transactions resB) = errors (res_transactions res1) @ es
            \<and> transaction_turns uid (xs @ t # ys) (d, res, [])
                = (dB, resB\<lparr>res_transactions := (res_transactions resB)
                               \<lparr>errors := errors (res_transactions res1) @ (ct_id t, e) # es\<rparr>\<rparr>, [])"
proof -
  have f1: "fs1 = []" using transaction_turns_Nil_faults[OF xs] .
  have f2: "fs2 = []" using fail
    by (auto simp: sync_transaction_try_def split: prod.splits sum.splits option.splits if_splits)
  have step: "transaction_turn uid t (d1, res1, []) =
      (d1, res1\<lparr>res_transactions := add_error (ct_id t) e (res_transactions res1)\<rparr>, [])"
    using fail f2 by (simp add: transaction_turn_eq)
  from transaction_turns_delta[of uid ys d1 "[]"] obtain d' fs' c u es where
    dl: "\<And>r. transaction_turns uid ys (d1, r, []) = (d', r\<lparr>res_transactions := bump c u es (res_transactions r)\<rparr>, fs')"
    by blast
  have f3: "fs' = []" using transaction_turns_Nil_faults[OF dl] .
  have B: "transaction_turns uid (xs @ ys) (d, res, []) =
      (d', res1\<lparr>res_transactions := bump c u es (res_transactions res1)\<rparr>, [])"
    by (simp add: transaction_turns_append xs f1 dl f3)
  have A: "transaction_turns uid (xs @ t # ys) (d, res, []) =
      (d', res1\<lparr>res_transactions := bump c u es (add_error (ct_id t) e (res_transactions res1))\<rparr>, [])"
    by (simp add: transaction_turns_append xs f1 step dl f3)
  show ?thesis
    apply (rule exI[of _ d'])
    apply (rule exI[of _ "res1\<lparr>res_transactions := bump c u es (res_transactions res1)\<rparr>"])
    apply (rule exI[of _ es])
    apply (simp add: A B bump_def add_error_def)
    done
qed

text \<open>A push of objects only, with the store reachable: the two loops, then the success log.\<close>

lemma push_of_objects:
  assumes "NullElement \<notin> set (default_list (body_providers body))"
      and "NullElement \<notin> set (default_list (body_transactions body))"
      and "transaction_turns uid (leading_objects (default_list (body_transactions body)))
             (provider_turns uid (leading_objects (default_list (body_providers body))) (d, results0, []))
             = (d2, res, fs2)"
  shows "push uid body [] d =
           (d2\<lparr>syncLogs := syncLogs d2 @
                [\<lparr>log_userId = uid, log_syncType = ''push'',
                  log_recordsCount = length (default_list (body_transactions body))
                     + length (default_list (body_providers body))
                     + length (default_list (body_expenses body)),
                  log_status = ''success'', log_errorMessage = None\<rparr>]\<rparr>, PushOk res, [])"
proof -
  obtain d1 res1 fs1 where p: "provider_turns uid (leading_objects (default_list (body_providers body))) (d, results0, []) = (d1, res1, fs1)"
    by (metis prod_cases3)
  have f1: "fs1 = []" using provider_turns_Nil_faults[OF p] .
  from assms(3) p f1 have t: "transaction_turns uid (leading_objects (default_list (body_transactions body))) (d1, res1, []) = (d2, res, fs2)"
    by simp
  have f2: "fs2 = []" using transaction_turns_Nil_faults[OF t] .
  from assms(1,2) p t f1 f2 show ?thesis
    by (simp add: push_def Let_def sync_providers_reach sync_transactions_reach syncLog_create_def)
qed

lemma push_answers_when_store_is_up:
  assumes "NullElement \<notin> set (default_list (body_providers body))"
      and "NullElement \<notin> set (default_list (body_transactions body))"
  shows "\<exists>d' res'. push uid body [] d = (d', PushOk res', [])"
proof -
  obtain d2 res fs2 where
    "transaction_turns uid (leading_objects (default_list (body_transactions body)))
       (provider_turns uid (leading_objects (default_list (body_providers body))) (d, results0, []))
       = (d2, res, fs2)"
    by (metis prod_cases3)
  from push_of_objects[OF assms this] show ?thesis by blast
qed

text \<open>
  With the store reachable, a batch of objects in which one provider fails leaves the store,
  the counters and the other errors exactly as the batch without that provider does: the call
  answers 200 with the same results and that one error more, and logs one record more.
\<close>

lemma push_isolates_failing_provider:
  assumes b: "body_providers body = Some (map Object (xs @ p # ys))"
      and nt: "NullElement \<notin> set (default_list (body_transactions body))"
      and xs: "provider_turns uid xs (d, results0, []) = (d1, res1, fs1)"
      and fail: "sync_provider_try uid p d1 (res_providers res1) [] = (Inl e, fs2)"
  shows "\<exists>d2 res es n.
           push uid (body\<lparr>body_providers := Some (map Object (xs @ ys))\<rparr>) [] d =
             (d2\<lparr>syncLogs := syncLogs d2 @
                  [\<lparr>log_userId = uid, log_syncType = ''push'', log_recordsCount = n,
                    log_status = ''success'', log_errorMessage = None\<rparr>]\<rparr>, PushOk res, [])
         \<and> errors (res_providers res) = errors (res_providers res1) @ es
         \<and> push uid body [] d =
             (d2\<lparr>syncLogs := syncLogs d2 @
                  [\<lparr>log_userId = uid, log_syncType = ''push'', log_recordsCount = Suc n,
                    log_status = ''success'', log_errorMessage = None\<rparr>]\<rparr>,
              PushOk (res\<lparr>res_providers := (res_providers res)
                            \<lparr>errors := errors (res_providers res1) @ (cp_id p, e) # es\<rparr>\<rparr>), [])"
proof -
  define ts where "ts = leading_objects (default_list (body_transactions body))"
  from provider_failure_isolated[OF xs fail, of ys] obtain dB resB es where
    B: "provider_turns uid (xs @ ys) (d, results0, []) = (dB, resB, [])"
    and E: "errors (res_providers resB) = errors (res_providers res1) @ es"
    and A: "provider_turns uid (xs @ p # ys) (d, results0, [])
              = (dB, resB\<lparr>res_providers := (res_providers resB)
                             \<lparr>errors := errors (res_providers res1) @ (cp_id p, e) # es\<rparr>\<rparr>, [])"
    by blast
  from transaction_turns_delta[of uid ts dB "[]"] obtain d2 fs' c u es' where
    dl: "\<And>r. transaction_turns uid ts (dB, r, []) = (d2, r\<lparr>res_transactions := bump c u es' (res_transactions r)\<rparr>, fs')"
    by blast
  define res where "res = resB\<lparr>res_transactions := bump c u es' (res_transactions resB)\<rparr>"
  define n where "n = length (default_list (body_transactions body)) + length (xs @ ys)
                        + length (default_list (body_expenses body))"
  have nulls: "NullElement \<notin> set (map Object (xs @ ys))" "NullElement \<notin> set (map Object (xs @ p # ys))"
    by auto
  have 1: "push uid (body\<lparr>body_providers := Some (map Object (xs @ ys))\<rparr>) [] d =
             (d2\<lparr>syncLogs := syncLogs d2 @
                  [\<lparr>log_userId = uid, log_syncType = ''push'', log_recordsCount = n,
                    log_status = ''success'', log_errorMessage = None\<rparr>]\<rparr>, PushOk res, [])"
    using push_of_objects[of "body\<lparr>body_providers := Some (map Object (xs @ ys))\<rparr>" uid d d2 res fs']
      nulls(1) nt B dl[of resB]
    by (simp add: default_list_def ts_def res_def n_def)
  have 2: "push uid body [] d =
             (d2\<lparr>syncLogs := syncLogs d2 @
                  [\<lparr>log_userId = uid, log_syncType = ''push'', log_recordsCount = Suc n,
                    log_status = ''success'', log_errorMessage = None\<rparr>]\<rparr>,
              PushOk (res\<lparr>res_providers := (res_providers res)
                            \<lparr>errors := errors (res_providers res1) @ (cp_id p, e) # es\<rparr>\<rparr>), [])"
    using push_of_objects[of body uid d d2
        "res\<lparr>res_providers := (res_providers res)\<lparr>errors := errors (res_providers res1) @ (cp_id p, e) # es\<rparr>\<rparr>" fs']
      nulls(2) nt A b
      dl[of "resB\<lparr>res_providers := (res_providers resB)\<lparr>errors := errors (res_providers res1) @ (cp_id p, e) # es\<rparr>\<rparr>"]
    by (simp add: default_list_def ts_def res_def n_def)
  have 3: "errors (res_providers res) = errors (res_providers res1) @ es"
    using E by (simp add: res_def)
  from 1 2 3 show ?thesis by blast
qed

text \<open>The same for a transaction that fails.\<close>

lemma push_isolates_failing_transaction:
  assumes b: "body_transactions body = Some (map Object (xt @ t # yt))"
      and np: "NullElement \<notin> set (default_list (body_providers body))"
      and ps: "provider_turns uid (leading_objects (default_list (body_providers body))) (d, results0, []) = (dp, resp, fsp)"
      and xt: "transaction_turns uid xt (dp, resp, []) = (d1, res1, fs1)"
      and fail: "sync_transaction_try uid t d1 (res_transactions res1) [] = (Inl e, fs2)"
  shows "\<exists>d2 res es n.
           push uid (body\<lparr>body_transactions := Some (map Object (xt @ yt))\<rparr>) [] d =
             (d2\<lparr>syncLogs := syncLogs d2 @
                  [\<lparr>log_userId = uid, log_syncType = ''push'', log_recordsCount = n,
                    log_status = ''success'', log_errorMessage = None\<rparr>]\<rparr>, PushOk res, [])
         \<and> errors (res_transactions res) = errors (res_transactions res1) @ es
         \<and> push uid body [] d =
             (d2\<lparr>syncLogs := syncLogs d2 @
                  [\<lparr>log_userId = uid, log_syncType = ''push'', log_recordsCount = Suc n,
                    log_status = ''success'', log_errorMessage = None\<rparr>]\<rparr>,
              PushOk (res\<lparr>res_transactions := (res_transactions res)
                            \<lparr>errors := errors (res_transactions res1) @ (ct_id t, e) # es\<rparr>\<rparr>), [])"
proof -
  have fp: "fsp = []" using provider_turns_Nil_faults[OF ps] .
  from transaction_failure_isolated[OF xt fail, of yt] obtain d2 res es where
    B: "transaction_turns uid (xt @ yt) (dp, resp, []) = (d2, res, [])"
    and E: "errors (res_transactions res) = errors (res_transactions res1) @ es"
    and A: "transaction_turns uid (xt @ t # yt) (dp, resp, [])
              = (d2, res\<lparr>res_transactions := (res_transactions res)
                           \<lparr>errors := errors (res_transactions res1) @ (ct_id t, e) # es\<rparr>\<rparr>, [])"
    by blast
  define n where "n = length (xt @ yt) + length (default_list (body_providers body))
                        + length (default_list (body_expenses body))"
  have nulls: "NullElement \<notin> set (map Object (xt @ yt))" "NullElement \<notin> set (map Object (xt @ t # yt))"
    by auto
  have 1: "push uid (body\<lparr>body_transactions := Some (map Object (xt @ yt))\<rparr>) [] d =
             (d2\<lparr>syncLogs := syncLogs d2 @
                  [\<lparr>log_userId = uid, log_syncType = ''push'', log_recordsCount = n,
                    log_status = ''success'', log_errorMessage = None\<rparr>]\<rparr>, PushOk res, [])"
    using push_of_objects[of "body\<lparr>body_transactions := Some (map Object (xt @ yt))\<rparr>" uid d d2 res "[]"]
      nulls(1) np ps fp B
    by (simp add: default_list_def n_def)
  have 2: "push uid body [] d =
             (d2\<lparr>syncLogs := syncLogs d2 @
                  [\<lparr>log_userId = uid, log_syncType = ''push'', log_recordsCount = Suc n,
                    log_status = ''success'', log_errorMessage = None\<rparr>]\<rparr>,
              PushOk (res\<lparr>res_transactions := (res_transactions res)
                            \<lparr>errors := errors (res_transactions res1) @ (ct_id t, e) # es\<rparr>\<rparr>), [])"
    using push_of_objects[of body uid d d2
        "res\<lparr>res_transactions := (res_transactions res)\<lparr>errors := errors (res_transactions res1) @ (ct_id t, e) # es\<rparr>\<rparr>" "[]"]
      nulls(2) np ps fp A b
    by (simp add: default_list_def n_def)
  from 1 2 E show ?thesis by blast
qed

lemmas sync_eval =
  provider_turn_eq sync_provider_try_def transaction_turn_eq sync_transaction_try_def
  provider_findFirst_def transaction_findFirst_def provider_create_def provider_update_def
  transaction_create_def transaction_update_def transaction_insert_def
  create_nullable_def set_nullable_def date_gt_def add_error_def results0_def no_counts_def

lemmas shop_eval =
  shop_db_def empty_db_def ana_row_def maize_row_def ana_client_def maize_client_def
  rosa_client_def rosa_row_def nameless_client_def orphan_client_def

lemmas push_eval =
  push_def push_failed_def sync_providers_reach sync_transactions_reach default_list_def
  storage_call_def syncLog_create_def Let_def

text \<open>
  C8 fails for an element that is \<open>null\<close>. The validators admit it (\<open>isArray()\<close>); the turn
  throws at \<open>provider.id\<close>, and the \<open>catch\<close> handler that is there to isolate the record throws
  at its own \<open>provider.id\<close>. User \<open>u1\<close> pushes the provider Rosa, a \<open>null\<close>, a newer copy of the
  provider Ana and a newer copy of the maize transaction: Rosa is created; then the batch is
  aborted, Ana and the transaction stay as they were, the call answers 500 without any results
  and logs a failed synchronisation of 0 records. Without the \<open>null\<close> the same batch is applied
  whole and answers 200.
\<close>

theorem push_aborts_on_null_element:
  "push ''u1'' broken_body [] shop_db =
     (shop_db\<lparr>providers := [ana_row, rosa_row],
              syncLogs := [\<lparr>log_userId = ''u1'', log_syncType = ''push'', log_recordsCount = 0,
                            log_status = ''failed'', log_errorMessage = Some TypeError\<rparr>]\<rparr>,
      PushFailed, [])
   \<and> push ''u1'' monday_body [] shop_db =
     (shop_db\<lparr>providers := [ana_row\<lparr>prov_name := ''Ana Maria'', prov_updatedAt := 99\<rparr>, rosa_row],
              transactions := [maize_row\<lparr>tx_description := Some ''maize'', tx_updatedAt := 99\<rparr>],
              syncLogs := [\<lparr>log_userId = ''u1'', log_syncType = ''push'', log_recordsCount = 3,
                            log_status = ''success'', log_errorMessage = None\<rparr>]\<rparr>,
      PushOk \<lparr>res_transactions = \<lparr>created = 0, updated = 1, errors = []\<rparr>,
              res_providers = \<lparr>created = 1, updated = 1, errors = []\<rparr>,
              res_expenses = \<lparr>created = 0, updated = 0, errors = []\<rparr>\<rparr>, [])"
  by (simp add: broken_body_def monday_body_def push_eval sync_eval shop_eval)

section \<open>What a pull returns\<close>

text \<open>
  C3 as stated fails for the general expenses: the expense table has no owner column and the
  query of the pull route filters general expenses by date only. User \<open>u2\<close>, who owns nothing
  in \<open>ledger_db\<close>, is sent the expense recorded under the private category of \<open>u1\<close> (a category
  that the same response does not list, since \<open>u2\<close> cannot see it).
\<close>

theorem pull_sends_general_expenses_to_everyone:
  "pull ''u2'' None 100 [] ledger_db =
     (ledger_db\<lparr>syncLogs := [\<lparr>log_userId = ''u2'', log_syncType = ''pull'', log_recordsCount = 1,
                               log_status = ''success'', log_errorMessage = None\<rparr>]\<rparr>,
      PullOk \<lparr>data_transactions = [], data_providers = [],
              data_expenses = [(fuel_row, Some transport_cat)], data_categories = []\<rparr> 100, [])
   \<and> cat_userId transport_cat = Some ''u1''"
  by (simp add: pull_def transaction_findMany_since_def provider_findMany_since_def
        expense_findMany_general_since_def expenseCategory_findMany_visible_def with_category_def
        syncLog_create_def ledger_db_def shop_db_def empty_db_def ana_row_def maize_row_def
        fuel_row_def transport_cat_def)

lemma pull_failed_not_ok: "pull_failed uid e d fs \<noteq> (d', PullOk data ts, fs')"
  by (auto simp: pull_failed_def split: prod.splits sum.splits)

text \<open>
  C3 as amended. Whenever a pull answers 200, the checkpoint is a valid date (the epoch when
  \<open>lastSync\<close> is omitted) and the response holds exactly: the caller's transactions later than
  the checkpoint, the caller's providers later than the checkpoint, all expenses without a
  transaction later than the checkpoint, whoever recorded them, and all categories that are
  default or the caller's, whatever their date. With a valid or omitted checkpoint and a
  reachable store the pull does answer 200.
\<close>

theorem pull_returns_the_delta:
  "(\<forall>d' data ts fs'. pull uid lastSync now fs d = (d', PullOk data ts, fs') \<longrightarrow>
      (\<exists>since. (case lastSync of None \<Rightarrow> Some 0 | Some dt \<Rightarrow> dt) = Some since
         \<and> map pt_transaction (data_transactions data)
             = filter (\<lambda>r. tx_userId r = uid \<and> since < tx_updatedAt r) (transactions d)
         \<and> data_providers data
             = filter (\<lambda>r. prov_userId r = Some uid \<and> since < prov_updatedAt r) (providers d)
         \<and> map fst (data_expenses data)
             = filter (\<lambda>e. exp_transactionId e = None \<and> since < exp_updatedAt e) (expenses d)
         \<and> data_categories data
             = filter (\<lambda>c. cat_isDefault c \<or> cat_userId c = Some uid) (expenseCategories d)))
   \<and> (lastSync \<noteq> Some None \<longrightarrow> (\<exists>d' data. pull uid lastSync now [] d = (d', PullOk data now, [])))"
proof (intro conjI allI impI)
  fix d' data ts fs'
  assume a: "pull uid lastSync now fs d = (d', PullOk data ts, fs')"
  define lsd where "lsd = (case lastSync of None \<Rightarrow> Some 0 | Some dt \<Rightarrow> dt)"
  obtain r1 fs1 where c1: "storage_call fs (transaction_findMany_since uid lsd d) = (r1, fs1)" by force
  obtain r2 fs2 where c2: "storage_call fs1 (provider_findMany_since uid lsd d) = (r2, fs2)" by force
  obtain r3 fs3 where c3: "storage_call fs2 (expense_findMany_general_since lsd d) = (r3, fs3)" by force
  obtain r4 fs4 where c4: "storage_call fs3 (expenseCategory_findMany_visible uid d) = (r4, fs4)" by force
  from a have ok: "\<exists>txs provs exps cats. r1 = Inr txs \<and> r2 = Inr provs \<and> r3 = Inr exps \<and> r4 = Inr cats
       \<and> data = \<lparr>data_transactions = txs, data_providers = provs, data_expenses = exps, data_categories = cats\<rparr>"
    unfolding pull_def Let_def lsd_def[symmetric]
    by (auto simp: c1 c2 c3 c4 pull_failed_not_ok split: sum.splits prod.splits)
  then obtain txs provs exps cats where r: "r1 = Inr txs" "r2 = Inr provs" "r3 = Inr exps" "r4 = Inr cats"
     and data: "data = \<lparr>data_transactions = txs, data_providers = provs, data_expenses = exps, data_categories = cats\<rparr>"
    by blast
  from c1 r(1) have q1: "transaction_findMany_since uid lsd d = Inr txs" by (auto dest: storage_call_Inr)
  from c2 r(2) have q2: "provider_findMany_since uid lsd d = Inr provs" by (auto dest: storage_call_Inr)
  from c3 r(3) have q3: "expense_findMany_general_since lsd d = Inr exps" by (auto dest: storage_call_Inr)
  from c4 r(4) have q4: "expenseCategory_findMany_visible uid d = Inr cats" by (auto dest: storage_call_Inr)
  from q1 obtain since where s: "lsd = Some since"
    by (cases lsd) (auto simp: transaction_findMany_since_def)
  have "map pt_transaction txs = filter (\<lambda>r. tx_userId r = uid \<and> since < tx_updatedAt r) (transactions d)"
    using q1 s by (auto simp: transaction_findMany_since_def with_movements_def comp_def)
  moreover have "provs = filter (\<lambda>r. prov_userId r = Some uid \<and> since < prov_updatedAt r) (providers d)"
    using q2 s by (auto simp: provider_findMany_since_def)
  moreover have "map fst exps = filter (\<lambda>e. exp_transactionId e = None \<and> since < exp_updatedAt e) (expenses d)"
    using q3 s by (auto simp: expense_findMany_general_since_def with_category_def comp_def)
  moreover have "cats = filter (\<lambda>c. cat_isDefault c \<or> cat_userId c = Some uid) (expenseCategories d)"
    using q4 by (auto simp: expenseCategory_findMany_visible_def)
  ultimately show "\<exists>since. (case lastSync of None \<Rightarrow> Some 0 | Some dt \<Rightarrow> dt) = Some since
         \<and> map pt_transaction (data_transactions data)
             = filter (\<lambda>r. tx_userId r = uid \<and> since < tx_updatedAt r) (transactions d)
         \<and> data_providers data
             = filter (\<lambda>r. prov_userId r = Some uid \<and> since < prov_updatedAt r) (providers d)
         \<and> map fst (data_expenses data)
             = filter (\<lambda>e. exp_transactionId e = None \<and> since < exp_updatedAt e) (expenses d)
         \<and> data_categories data
             = filter (\<lambda>c. cat_isDefault c \<or> cat_userId c = Some uid) (expenseCategories d)"
    using s data unfolding lsd_def by simp
next
  assume "lastSync \<noteq> Some None"
  then obtain since where "(case lastSync of None \<Rightarrow> Some 0 | Some dt \<Rightarrow> dt) = Some since"
    by (cases lastSync) auto
  then show "\<exists>d' data. pull uid lastSync now [] d = (d', PullOk data now, [])"
    by (simp add: pull_def transaction_findMany_since_def provider_findMany_since_def
          expense_findMany_general_since_def expenseCategory_findMany_visible_def syncLog_create_def)
qed

theorem pull_returns_the_delta_witness:
  "pull ''u1'' (Some (Some 15)) 100 [] ledger_db =
     (ledger_db\<lparr>syncLogs := [\<lparr>log_userId = ''u1'', log_syncType = ''pull'', log_recordsCount = 3,
                               log_status = ''success'', log_errorMessage = None\<rparr>]\<rparr>,
      PullOk \<lparr>data_transactions = [\<lparr>pt_transaction = maize_row, pt_advances = [], pt_deliveries = [], pt_expenses = []\<rparr>],
              data_providers = [ana_row],
              data_expenses = [(fuel_row, Some transport_cat)], data_categories = [transport_cat]\<rparr> 100, [])
   \<and> Some (Some (15::int)) \<noteq> Some None
   \<and> filter (\<lambda>r. tx_userId r = ''u1'' \<and> 15 < tx_updatedAt r) (transactions ledger_db) = [maize_row]
   \<and> filter (\<lambda>r. prov_userId r = Some ''u1'' \<and> 15 < prov_updatedAt r) (providers ledger_db) = [ana_row]
   \<and> filter (\<lambda>e. exp_transactionId e = None \<and> 15 < exp_updatedAt e) (expenses ledger_db) = [fuel_row]
   \<and> filter (\<lambda>c. cat_isDefault c \<or> cat_userId c = Some ''u1'') (expenseCategories ledger_db) = [transport_cat]"
proof -
  have ev: "pull ''u1'' (Some (Some 15)) 100 [] ledger_db =
     (ledger_db\<lparr>syncLogs := [\<lparr>log_userId = ''u1'', log_syncType = ''pull'', log_recordsCount = 3,
                               log_status = ''success'', log_errorMessage = None\<rparr>]\<rparr>,
      PullOk \<lparr>data_transactions = [\<lparr>pt_transaction = maize_row, pt_advances = [], pt_deliveries = [], pt_expenses = []\<rparr>],
              data_providers = [ana_row],
              data_expenses = [(fuel_row, Some transport_cat)], data_categories = [transport_cat]\<rparr> 100, [])"
    by (simp add: pull_def transaction_findMany_since_def provider_findMany_since_def
        expense_findMany_general_since_def expenseCategory_findMany_visible_def with_category_def
        with_movements_def syncLog_create_def ledger_db_def shop_db_def empty_db_def ana_row_def
        maize_row_def fuel_row_def transport_cat_def)
  from pull_returns_the_delta[of "''u1''" "Some (Some 15)" 100 "[]" ledger_db] ev
  have "\<exists>since. Some (15::int) = Some since
      \<and> [maize_row] = filter (\<lambda>r. tx_userId r = ''u1'' \<and> since < tx_updatedAt r) (transactions ledger_db)
      \<and> [ana_row] = filter (\<lambda>r. prov_userId r = Some ''u1'' \<and> since < prov_updatedAt r) (providers ledger_db)
      \<and> [fuel_row] = filter (\<lambda>e. exp_transactionId e = None \<and> since < exp_updatedAt e) (expenses ledger_db)
      \<and> [transport_cat] = filter (\<lambda>c. cat_isDefault c \<or> cat_userId c = Some ''u1'') (expenseCategories ledger_db)"
    by simp
  with ev show ?thesis by auto
qed

text \<open>With a checkpoint that is no date and the store reachable, the pull answers 500 and logs
  the failure.\<close>

lemma pull_unparsable_checkpoint_fails:
  "pull uid (Some None) now [] d =
     (d\<lparr>syncLogs := syncLogs d @
          [\<lparr>log_userId = uid, log_syncType = ''pull'', log_recordsCount = 0,
            log_status = ''failed'', log_errorMessage = Some ValidationError\<rparr>]\<rparr>, PullFailed, [])"
  by (simp add: pull_def pull_failed_def Let_def transaction_findMany_since_def
        provider_findMany_since_def expense_findMany_general_since_def
        expenseCategory_findMany_visible_def syncLog_create_def)

section \<open>The life cycle of a transaction\<close>

text \<open>
  C9 as stated fails for the sync push: its update writes the client's status. A client copy
  that is newer than the closed row and says ACTIVE reopens the transaction, which then accepts
  an advance.
\<close>

theorem push_reopens_closed_transaction:
  "status_of closed_db ''t1'' = Some CLOSED
   \<and> status_of (fst (push ''u1'' reopen_body [] closed_db)) ''t1'' = Some ACTIVE
   \<and> advances_of (fst (push ''u1'' reopen_body [] closed_db)) ''t1'' = []
   \<and> advances_of (fst (add_advance ''u1'' ''t1'' \<lparr>ab_amount = Num 200, ab_description = None\<rparr> 120 []
                         (fst (push ''u1'' reopen_body [] closed_db)))) ''t1''
       = [\<lparr>adv_amount = Num 200, adv_description = None, adv_advanceDate = 120, adv_transactionId = ''t1''\<rparr>]"
  by (simp add: status_of_def advances_of_def push_def push_failed_def sync_providers_reach sync_transactions_reach reopen_body_def default_list_def
        transaction_turn_eq sync_transaction_try_def transaction_findFirst_def
        transaction_update_def set_nullable_def date_gt_def storage_call_def syncLog_create_def
        add_advance_def Let_def isFloat_min_def transaction_findFirst_active_def
        closed_db_def shop_db_def empty_db_def maize_row_def ana_row_def maize_client_def
        results0_def no_counts_def)

lemma find_map_same:
  "(\<And>r. r \<in> set rows \<Longrightarrow> P (f r) = P r) \<Longrightarrow> find P (map f rows) = map_option f (find P rows)"
  by (induction rows) auto

lemma storage_call_Inr_cases:
  obtains fs' where "storage_call fs (Inr x) = (Inr x, fs')"
        | fs' where "storage_call fs (Inr x :: prisma_error + 'a) = (Inl Unavailable, fs')"
  using storage_call_cases[of fs "Inr x :: prisma_error + 'a"] by blast

lemma close_transaction_store:
  "fst (close_transaction uid j now fs d) = d
   \<or> fst (close_transaction uid j now fs d)
       = d\<lparr>transactions := fst (transaction_updateMany
             (\<lambda>r. tx_id r = j \<and> tx_userId r = uid \<and> tx_status r = ACTIVE)
             (\<lambda>r. r\<lparr>tx_status := CLOSED, tx_closedAt := Some now\<rparr>) now (transactions d))\<rparr>"
proof -
  obtain rows' n where u: "transaction_updateMany (\<lambda>r. tx_id r = j \<and> tx_userId r = uid \<and> tx_status r = ACTIVE)
        (\<lambda>r. r\<lparr>tx_status := CLOSED, tx_closedAt := Some now\<rparr>) now (transactions d) = (rows', n)"
    by force
  show ?thesis
    by (cases rule: storage_call_Inr_cases[of fs "(rows', n)"])
       (simp_all add: close_transaction_def u)
qed

lemma update_transaction_store:
  "fst (update_transaction uid j body now fs d) = d
   \<or> fst (update_transaction uid j body now fs d)
       = d\<lparr>transactions := fst (transaction_updateMany
             (\<lambda>r. tx_id r = j \<and> tx_userId r = uid \<and> tx_status r = ACTIVE)
             (\<lambda>r. r\<lparr>tx_description := if_defined (ub_description body) (tx_description r),
                     tx_quantity := if_defined (ub_quantity body) (tx_quantity r),
                     tx_unitPrice := if_defined (ub_unitPrice body) (tx_unitPrice r),
                     tx_totalAmount := if_defined (ub_totalAmount body) (tx_totalAmount r)\<rparr>)
             now (transactions d))\<rparr>"
proof -
  obtain rows' n where u: "transaction_updateMany (\<lambda>r. tx_id r = j \<and> tx_userId r = uid \<and> tx_status r = ACTIVE)
        (\<lambda>r. r\<lparr>tx_description := if_defined (ub_description body) (tx_description r),
                tx_quantity := if_defined (ub_quantity body) (tx_quantity r),
                tx_unitPrice := if_defined (ub_unitPrice body) (tx_unitPrice r),
                tx_totalAmount := if_defined (ub_totalAmount body) (tx_totalAmount r)\<rparr>) now (transactions d) = (rows', n)"
    by force
  show ?thesis
  proof (cases rule: storage_call_Inr_cases[of fs "(rows', n)"])
    case (1 fs1)
    show ?thesis
      by (cases rule: storage_call_Inr_cases[of fs1 "find (\<lambda>r. tx_id r = j) rows'"])
         (simp_all add: update_transaction_def u 1)
  next
    case (2 fs1)
    then show ?thesis by (simp add: update_transaction_def u)
  qed
qed

lemma active_is_not_closed:
  assumes "distinct (map tx_id rows)"
      and "map_option tx_status (find (\<lambda>r. tx_id r = i) rows) = Some CLOSED"
  shows "transaction_findFirst_active i uid rows = None"
proof (rule ccontr)
  assume "transaction_findFirst_active i uid rows \<noteq> None"
  then obtain a where a: "a \<in> set rows" "tx_id a = i" "tx_status a = ACTIVE"
    by (auto simp: transaction_findFirst_active_def dest: find_SomeD)
  from assms(2) obtain c where c: "c \<in> set rows" "tx_id c = i" "tx_status c = CLOSED"
    by (auto dest: find_SomeD)
  from distinct_map_same[OF assms(1) a(1) c(1)] a(2,3) c(2,3) show False by simp
qed

lemma add_advance_store:
  "fst (add_advance uid j body now fs d) = d
   \<or> (transaction_findFirst_active j uid (transactions d) \<noteq> None
      \<and> fst (add_advance uid j body now fs d)
          = d\<lparr>advances := advances d @
                [\<lparr>adv_amount = ab_amount body, adv_description = ab_description body,
                  adv_advanceDate = now, adv_transactionId = j\<rparr>]\<rparr>)"
proof (cases "isFloat_min (1 / 100) (ab_amount body)")
  case False
  then show ?thesis by (simp add: add_advance_def)
next
  case True
  show ?thesis
  proof (cases rule: storage_call_Inr_cases[of fs "transaction_findFirst_active j uid (transactions d)"])
    case (1 fs1)
    show ?thesis
    proof (cases "transaction_findFirst_active j uid (transactions d)")
      case None
      then show ?thesis using True 1 by (simp add: add_advance_def)
    next
      case (Some tr)
      show ?thesis
        by (cases rule: storage_call_Inr_cases[of fs1 "advances d @
                [\<lparr>adv_amount = ab_amount body, adv_description = ab_description body,
                  adv_advanceDate = now, adv_transactionId = j\<rparr>]"])
           (use True 1 Some in \<open>simp_all add: add_advance_def Let_def\<close>)
    qed
  next
    case (2 fs1)
    then show ?thesis using True by (simp add: add_advance_def)
  qed
qed

lemma add_delivery_store:
  "fst (add_delivery uid j body now fs d) = d
   \<or> (transaction_findFirst_active j uid (transactions d) \<noteq> None
      \<and> fst (add_delivery uid j body now fs d)
          = d\<lparr>deliveries := deliveries d @
                [\<lparr>del_quantity = db_quantity body, del_description = db_description body,
                  del_deliveryDate = now, del_transactionId = j\<rparr>]\<rparr>)"
proof (cases "isFloat_min (1 / 100) (db_quantity body)")
  case False
  then show ?thesis by (simp add: add_delivery_def)
next
  case True
  show ?thesis
  proof (cases rule: storage_call_Inr_cases[of fs "transaction_findFirst_active j uid (transactions d)"])
    case (1 fs1)
    show ?thesis
    proof (cases "transaction_findFirst_active j uid (transactions d)")
      case None
      then show ?thesis using True 1 by (simp add: add_delivery_def)
    next
      case (Some tr)
      show ?thesis
        by (cases rule: storage_call_Inr_cases[of fs1 "deliveries d @
                [\<lparr>del_quantity = db_quantity body, del_description = db_description body,
                  del_deliveryDate = now, del_transactionId = j\<rparr>]"])
           (use True 1 Some in \<open>simp_all add: add_delivery_def Let_def\<close>)
    qed
  next
    case (2 fs1)
    then show ?thesis using True by (simp add: add_delivery_def)
  qed
qed

lemma add_advance_keeps_closed:
  assumes "keys_ok d" "status_of d i = Some CLOSED"
  shows "status_of (fst (add_advance uid j body now fs d)) i = Some CLOSED
       \<and> advances_of (fst (add_advance uid j body now fs d)) i = advances_of d i
       \<and> deliveries (fst (add_advance uid j body now fs d)) = deliveries d"
proof -
  have "j \<noteq> i" if "transaction_findFirst_active j uid (transactions d) \<noteq> None"
    using active_is_not_closed[of "transactions d" i uid] assms that
    by (auto simp: keys_ok_def status_of_def)
  with add_advance_store[of uid j body now fs d] assms(2) show ?thesis
    by (auto simp: status_of_def advances_of_def)
qed

lemma add_delivery_keeps_closed:
  assumes "keys_ok d" "status_of d i = Some CLOSED"
  shows "status_of (fst (add_delivery uid j body now fs d)) i = Some CLOSED
       \<and> deliveries_of (fst (add_delivery uid j body now fs d)) i = deliveries_of d i
       \<and> advances (fst (add_delivery uid j body now fs d)) = advances d"
proof -
  have "j \<noteq> i" if "transaction_findFirst_active j uid (transactions d) \<noteq> None"
    using active_is_not_closed[of "transactions d" i uid] assms that
    by (auto simp: keys_ok_def status_of_def)
  with add_delivery_store[of uid j body now fs d] assms(2) show ?thesis
    by (auto simp: status_of_def deliveries_of_def)
qed

lemma push_keeps_movements:
  "advances (fst (push uid body fs d)) = advances d \<and> deliveries (fst (push uid body fs d)) = deliveries d"
proof -
  from push_run[of body uid d fs] obtain ts d2 res fs2 where
    l: "transaction_turns uid ts
          (provider_turns uid (leading_objects (default_list (body_providers body))) (d, results0, fs))
          = (d2, res, fs2)"
    and o: "(\<exists>fs' row. push uid body fs d = (d2\<lparr>syncLogs := syncLogs d2 @ [row]\<rparr>, PushOk res, fs'))
       \<or> (\<exists>fs' row. push uid body fs d = (d2\<lparr>syncLogs := syncLogs d2 @ [row]\<rparr>, PushFailed, fs'))
       \<or> (\<exists>fs'. push uid body fs d = (d2, PushNoResponse, fs'))"
    by blast
  from push_loops_keep[OF l] o show ?thesis by auto
qed

lemma updateMany_find:
  assumes "\<And>r. tx_id (change r) = tx_id r"
  shows "find (\<lambda>r. tx_id r = i) (fst (transaction_updateMany matches change now rows))
       = map_option (\<lambda>r. if matches r then (change r)\<lparr>tx_updatedAt := now\<rparr> else r)
           (find (\<lambda>r. tx_id r = i) rows)"
  unfolding transaction_updateMany_def fst_conv
  by (rule find_map_same) (simp add: assms)

lemma close_status:
  "status_of (fst (close_transaction uid j now fs d)) i = status_of d i
   \<or> (status_of d i = Some ACTIVE \<and> status_of (fst (close_transaction uid j now fs d)) i = Some CLOSED)"
proof -
  have "find (\<lambda>r. tx_id r = i) (fst (transaction_updateMany
             (\<lambda>r. tx_id r = j \<and> tx_userId r = uid \<and> tx_status r = ACTIVE)
             (\<lambda>r. r\<lparr>tx_status := CLOSED, tx_closedAt := Some now\<rparr>) now (transactions d)))
      = map_option (\<lambda>r. if tx_id r = j \<and> tx_userId r = uid \<and> tx_status r = ACTIVE
                          then (r\<lparr>tx_status := CLOSED, tx_closedAt := Some now\<rparr>)\<lparr>tx_updatedAt := now\<rparr> else r)
           (find (\<lambda>r. tx_id r = i) (transactions d))"
    by (rule updateMany_find) simp
  with close_transaction_store[of uid j now fs d] show ?thesis
    by (cases "find (\<lambda>r. tx_id r = i) (transactions d)") (auto simp: status_of_def)
qed

lemma update_status:
  "status_of (fst (update_transaction uid j body now fs d)) i = status_of d i"
proof -
  have "find (\<lambda>r. tx_id r = i) (fst (transaction_updateMany
             (\<lambda>r. tx_id r = j \<and> tx_userId r = uid \<and> tx_status r = ACTIVE)
             (\<lambda>r. r\<lparr>tx_description := if_defined (ub_description body) (tx_description r),
                     tx_quantity := if_defined (ub_quantity body) (tx_quantity r),
                     tx_unitPrice := if_defined (ub_unitPrice body) (tx_unitPrice r),
                     tx_totalAmount := if_defined (ub_totalAmount body) (tx_totalAmount r)\<rparr>)
             now (transactions d)))
      = map_option (\<lambda>r. if tx_id r = j \<and> tx_userId r = uid \<and> tx_status r = ACTIVE
                          then (r\<lparr>tx_description := if_defined (ub_description body) (tx_description r),
                     tx_quantity := if_defined (ub_quantity body) (tx_quantity r),
                     tx_unitPrice := if_defined (ub_unitPrice body) (tx_unitPrice r),
                     tx_totalAmount := if_defined (ub_totalAmount body) (tx_totalAmount r)\<rparr>)\<lparr>tx_updatedAt := now\<rparr> else r)
           (find (\<lambda>r. tx_id r = i) (transactions d))"
    by (rule updateMany_find) simp
  with update_transaction_store[of uid j body now fs d] show ?thesis
    by (cases "find (\<lambda>r. tx_id r = i) (transactions d)") (auto simp: status_of_def)
qed

lemma close_update_keep_movements:
  "advances (fst (close_transaction uid j now fs d)) = advances d
   \<and> deliveries (fst (close_transaction uid j now fs d)) = deliveries d
   \<and> advances (fst (update_transaction uid j body now fs d)) = advances d
   \<and> deliveries (fst (update_transaction uid j body now fs d)) = deliveries d"
  using close_transaction_store[of uid j now fs d] update_transaction_store[of uid j body now fs d]
  by auto

lemma add_movement_status:
  "status_of (fst (add_advance uid j ab now fs d)) i = status_of d i
   \<and> status_of (fst (add_delivery uid j dlb now fs d)) i = status_of d i
   \<and> deliveries (fst (add_advance uid j ab now fs d)) = deliveries d
   \<and> advances (fst (add_delivery uid j dlb now fs d)) = advances d"
  using add_advance_store[of uid j ab now fs d] add_delivery_store[of uid j dlb now fs d]
  by (auto simp: status_of_def)

text \<open>
  C9 as amended. Through the routes close, update, add-advance and add-delivery the status of a
  transaction either stays as it is or moves from ACTIVE to CLOSED (only close moves it), so a
  CLOSED transaction stays CLOSED; in a store with unique primary keys a CLOSED transaction
  gains no advance and no delivery through them. A sync push adds no movement to any
  transaction; it can however change the status, as the counterexample shows.
\<close>

theorem routes_never_reopen:
  "(status_of (fst (close_transaction uid j now fs d)) i = status_of d i
      \<or> (status_of d i = Some ACTIVE \<and> status_of (fst (close_transaction uid j now fs d)) i = Some CLOSED))
   \<and> status_of (fst (update_transaction uid j ub now fs d)) i = status_of d i
   \<and> status_of (fst (add_advance uid j ab now fs d)) i = status_of d i
   \<and> status_of (fst (add_delivery uid j dlb now fs d)) i = status_of d i
   \<and> advances (fst (close_transaction uid j now fs d)) = advances d
   \<and> deliveries (fst (close_transaction uid j now fs d)) = deliveries d
   \<and> advances (fst (update_transaction uid j ub now fs d)) = advances d
   \<and> deliveries (fst (update_transaction uid j ub now fs d)) = deliveries d
   \<and> deliveries (fst (add_advance uid j ab now fs d)) = deliveries d
   \<and> advances (fst (add_delivery uid j dlb now fs d)) = advances d
   \<and> (keys_ok d \<longrightarrow> status_of d i = Some CLOSED \<longrightarrow>
         advances_of (fst (add_advance uid j ab now fs d)) i = advances_of d i
       \<and> deliveries_of (fst (add_delivery uid j dlb now fs d)) i = deliveries_of d i)
   \<and> advances (fst (push uid body fs d)) = advances d
   \<and> deliveries (fst (push uid body fs d)) = deliveries d"
  using close_status[of uid j now fs d i] update_status[of uid j ub now fs d i]
    add_movement_status[of uid j ab now fs d i dlb] close_update_keep_movements[of uid j now fs d ub]
    add_advance_keeps_closed[of d i uid j ab now fs] add_delivery_keeps_closed[of d i uid j dlb now fs]
    push_keeps_movements[of uid body fs d]
  by blast

theorem routes_never_reopen_witness:
  "keys_ok closed_db \<and> status_of closed_db ''t1'' = Some CLOSED
   \<and> status_of (fst (close_transaction ''u1'' ''t1'' 70 [] closed_db)) ''t1'' = Some CLOSED
   \<and> status_of (fst (close_transaction ''u1'' ''t1'' 70 [] shop_db)) ''t1'' = Some CLOSED
   \<and> status_of shop_db ''t1'' = Some ACTIVE
   \<and> status_of (fst (update_transaction ''u1'' ''t1''
         \<lparr>ub_description = Some ''beans'', ub_quantity = None, ub_unitPrice = None, ub_totalAmount = None\<rparr>
         70 [] closed_db)) ''t1'' = Some CLOSED
   \<and> add_advance ''u1'' ''t1'' \<lparr>ab_amount = Num 200, ab_description = None\<rparr> 70 [] closed_db
       = (closed_db, Http404, [])
   \<and> add_delivery ''u1'' ''t1'' \<lparr>db_quantity = Num 40, db_description = None\<rparr> 70 [] closed_db
       = (closed_db, Http404, [])
   \<and> advances_of (fst (add_advance ''u1'' ''t1'' \<lparr>ab_amount = Num 200, ab_description = None\<rparr> 70 [] closed_db)) ''t1''
       = advances_of closed_db ''t1''
   \<and> deliveries_of (fst (add_delivery ''u1'' ''t1'' \<lparr>db_quantity = Num 40, db_description = None\<rparr> 70 [] closed_db)) ''t1''
       = deliveries_of closed_db ''t1''"
proof -
  have k: "keys_ok closed_db"
    by (simp add: keys_ok_def closed_db_def shop_db_def empty_db_def)
  have c: "status_of closed_db ''t1'' = Some CLOSED"
    by (simp add: status_of_def closed_db_def shop_db_def empty_db_def maize_row_def)
  have a: "status_of shop_db ''t1'' = Some ACTIVE"
    by (simp add: status_of_def shop_db_def empty_db_def maize_row_def)
  have cl: "status_of (fst (close_transaction ''u1'' ''t1'' 70 [] shop_db)) ''t1'' = Some CLOSED"
    by (simp add: status_of_def close_transaction_def transaction_updateMany_def
          shop_db_def empty_db_def maize_row_def)
  have e1: "add_advance ''u1'' ''t1'' \<lparr>ab_amount = Num 200, ab_description = None\<rparr> 70 [] closed_db
       = (closed_db, Http404, [])"
    by (simp add: add_advance_def isFloat_min_def transaction_findFirst_active_def
          closed_db_def shop_db_def empty_db_def maize_row_def)
  have e2: "add_delivery ''u1'' ''t1'' \<lparr>db_quantity = Num 40, db_description = None\<rparr> 70 [] closed_db
       = (closed_db, Http404, [])"
    by (simp add: add_delivery_def isFloat_min_def transaction_findFirst_active_def
          closed_db_def shop_db_def empty_db_def maize_row_def)
  note th = routes_never_reopen[of "''u1''" "''t1''" 70 "[]" closed_db "''t1''"
      "\<lparr>ub_description = Some ''beans'', ub_quantity = None, ub_unitPrice = None, ub_totalAmount = None\<rparr>"
      "\<lparr>ab_amount = Num 200, ab_description = None\<rparr>"
      "\<lparr>db_quantity = Num 40, db_description = None\<rparr>"]
  from th k c have
    "status_of (fst (close_transaction ''u1'' ''t1'' 70 [] closed_db)) ''t1'' = Some CLOSED"
    "status_of (fst (update_transaction ''u1'' ''t1''
         \<lparr>ub_description = Some ''beans'', ub_quantity = None, ub_unitPrice = None, ub_totalAmount = None\<rparr>
         70 [] closed_db)) ''t1'' = Some CLOSED"
    "advances_of (fst (add_advance ''u1'' ''t1'' \<lparr>ab_amount = Num 200, ab_description = None\<rparr> 70 [] closed_db)) ''t1''
       = advances_of closed_db ''t1''"
    "deliveries_of (fst (add_delivery ''u1'' ''t1'' \<lparr>db_quantity = Num 40, db_description = None\<rparr> 70 [] closed_db)) ''t1''
       = deliveries_of closed_db ''t1''"
    by auto
  with k c a cl e1 e2 show ?thesis by blast
qed

section \<open>Pushing a batch twice\<close>

lemma provider_covered_skips:
  "provider_covered uid (providers d) p \<Longrightarrow> provider_turn uid p (d, res, []) = (d, res, [])"
  by (auto simp: provider_covered_def provider_turn_eq sync_provider_try_def split: option.splits)

lemma providers_covered_skip:
  "\<forall>p \<in> set ps. provider_covered uid (providers d) p \<Longrightarrow> provider_turns uid ps (d, res, []) = (d, res, [])"
  by (induction ps) (simp_all add: provider_covered_skips)

lemma transaction_covered_skips:
  "transaction_covered uid (transactions d) t \<Longrightarrow> transaction_turn uid t (d, res, []) = (d, res, [])"
  by (auto simp: transaction_covered_def transaction_turn_eq sync_transaction_try_def split: option.splits)

lemma transactions_covered_skip:
  "\<forall>t \<in> set ts. transaction_covered uid (transactions d) t \<Longrightarrow> transaction_turns uid ts (d, res, []) = (d, res, [])"
  by (induction ts) (simp_all add: transaction_covered_skips)

lemma find_append_Some: "find P xs = Some x \<Longrightarrow> find P (xs @ ys) = Some x"
  by (induction xs) (auto split: if_splits)

lemma find_append_None: "find P xs = None \<Longrightarrow> find P (xs @ ys) = find P ys"
  by (induction xs) (auto split: if_splits)

text \<open>The rows after an update, seen from a lookup among the caller's rows.\<close>

lemma provider_update_find:
  assumes "provider_update p rows = Inr rows'"
  shows "\<exists>u. cp_updatedAt p = Some u \<and>
           (\<forall>i. provider_findFirst i uid rows' =
              map_option (\<lambda>r. if prov_id r = cp_id p
                               then r\<lparr>prov_name := (case cp_name p of Val n \<Rightarrow> n | _ \<Rightarrow> prov_name r),
                                      prov_email := set_nullable (cp_email p) (prov_email r),
                                      prov_phone := set_nullable (cp_phone p) (prov_phone r),
                                      prov_address := set_nullable (cp_address p) (prov_address r),
                                      prov_notes := set_nullable (cp_notes p) (prov_notes r),
                                      prov_updatedAt := u\<rparr>
                               else r)
                (provider_findFirst i uid rows))"
proof -
  from assms obtain u where u: "cp_updatedAt p = Some u"
    by (cases "cp_updatedAt p") (auto simp: provider_update_def)
  let ?f = "\<lambda>r. if prov_id r = cp_id p
                 then r\<lparr>prov_name := (case cp_name p of Val n \<Rightarrow> n | _ \<Rightarrow> prov_name r),
                        prov_email := set_nullable (cp_email p) (prov_email r),
                        prov_phone := set_nullable (cp_phone p) (prov_phone r),
                        prov_address := set_nullable (cp_address p) (prov_address r),
                        prov_notes := set_nullable (cp_notes p) (prov_notes r),
                        prov_updatedAt := u\<rparr>
                 else r"
  from assms u have rows': "rows' = map ?f rows"
    by (auto simp: provider_update_def split: if_splits)
  have "provider_findFirst i uid (map ?f rows) = map_option ?f (provider_findFirst i uid rows)" for i
    unfolding provider_findFirst_def by (rule find_map_same) simp
  with u rows' show ?thesis by blast
qed

text \<open>The four ways a record can end.\<close>

lemma provider_turn_outcome:
  assumes "provider_turn uid p (d, res, fs) = (d', res', fs')"
  shows "(\<exists>e. d' = d \<and> res' = res\<lparr>res_providers := add_error (cp_id p) e (res_providers res)\<rparr>)
       \<or> (\<exists>existing. provider_findFirst (cp_id p) uid (providers d) = Some existing
             \<and> \<not> date_gt (cp_updatedAt p) (Some (prov_updatedAt existing)) \<and> d' = d \<and> res' = res)
       \<or> (\<exists>existing rows. provider_findFirst (cp_id p) uid (providers d) = Some existing
             \<and> date_gt (cp_updatedAt p) (Some (prov_updatedAt existing))
             \<and> provider_update p (providers d) = Inr rows \<and> d' = d\<lparr>providers := rows\<rparr>)
       \<or> (\<exists>rows. provider_findFirst (cp_id p) uid (providers d) = None
             \<and> provider_create uid p (providers d) = Inr rows \<and> d' = d\<lparr>providers := rows\<rparr>)"
proof -
  obtain r0 fs0 where c0:
    "storage_call fs (Inr (provider_findFirst (cp_id p) uid (providers d)) :: prisma_error + provider_row option) = (r0, fs0)"
    by force
  from storage_call_cases[of fs "Inr (provider_findFirst (cp_id p) uid (providers d)) :: prisma_error + provider_row option"] c0
  consider (down) "r0 = Inl Unavailable" | (up) "r0 = Inr (provider_findFirst (cp_id p) uid (providers d))"
    by auto
  then show ?thesis
  proof cases
    case down
    with assms c0 show ?thesis by (auto simp: provider_turn_eq sync_provider_try_def)
  next
    case up
    show ?thesis
    proof (cases "provider_findFirst (cp_id p) uid (providers d)")
      case None
      obtain r1 fs1 where c1: "storage_call fs0 (provider_create uid p (providers d)) = (r1, fs1)" by force
      show ?thesis
      proof (cases r1)
        case (Inl e)
        with assms c0 up None c1 show ?thesis by (auto simp: provider_turn_eq sync_provider_try_def)
      next
        case (Inr rows)
        with c1 have "provider_create uid p (providers d) = Inr rows" by (auto dest: storage_call_Inr)
        with assms c0 up None c1 Inr show ?thesis by (auto simp: provider_turn_eq sync_provider_try_def)
      qed
    next
      case (Some existing)
      show ?thesis
      proof (cases "date_gt (cp_updatedAt p) (Some (prov_updatedAt existing))")
        case False
        with assms c0 up Some show ?thesis by (auto simp: provider_turn_eq sync_provider_try_def)
      next
        case True
        obtain r1 fs1 where c1: "storage_call fs0 (provider_update p (providers d)) = (r1, fs1)" by force
        show ?thesis
        proof (cases r1)
          case (Inl e)
          with assms c0 up Some True c1 show ?thesis by (auto simp: provider_turn_eq sync_provider_try_def)
        next
          case (Inr rows)
          with c1 have "provider_update p (providers d) = Inr rows" by (auto dest: storage_call_Inr)
          with assms c0 up Some True c1 Inr show ?thesis by (auto simp: provider_turn_eq sync_provider_try_def)
        qed
      qed
    qed
  qed
qed

lemma provider_turn_covers:
  assumes "provider_turn uid p (d, res, fs) = (d', res', fs')"
      and "errors (res_providers res') = errors (res_providers res)"
  shows "provider_covered uid (providers d') p"
  using provider_turn_outcome[OF assms(1)]
proof (elim disjE exE conjE)
  fix e assume "res' = res\<lparr>res_providers := add_error (cp_id p) e (res_providers res)\<rparr>"
  with assms(2) show ?thesis by (simp add: add_error_def)
next
  fix existing
  assume "provider_findFirst (cp_id p) uid (providers d) = Some existing"
    "\<not> date_gt (cp_updatedAt p) (Some (prov_updatedAt existing))" "d' = d"
  then show ?thesis by (simp add: provider_covered_def)
next
  fix existing rows
  assume update: "provider_findFirst (cp_id p) uid (providers d) = Some existing"
    "provider_update p (providers d) = Inr rows" "d' = d\<lparr>providers := rows\<rparr>"
  from provider_update_find[OF update(2), of uid] obtain u where
    u: "cp_updatedAt p = Some u" and
    f: "provider_findFirst (cp_id p) uid rows = map_option (\<lambda>r. if prov_id r = cp_id p
                           then r\<lparr>prov_name := (case cp_name p of Val n \<Rightarrow> n | _ \<Rightarrow> prov_name r),
                                  prov_email := set_nullable (cp_email p) (prov_email r),
                                  prov_phone := set_nullable (cp_phone p) (prov_phone r),
                                  prov_address := set_nullable (cp_address p) (prov_address r),
                                  prov_notes := set_nullable (cp_notes p) (prov_notes r),
                                  prov_updatedAt := u\<rparr>
                           else r)
            (provider_findFirst (cp_id p) uid (providers d))"
    by blast
  from update(1) have "prov_id existing = cp_id p"
    by (auto simp: provider_findFirst_def dest: find_SomeD)
  with f update(1,3) u show ?thesis
    by (simp add: provider_covered_def date_gt_def)
next
  fix rows
  assume create: "provider_findFirst (cp_id p) uid (providers d) = None"
    "provider_create uid p (providers d) = Inr rows" "d' = d\<lparr>providers := rows\<rparr>"
  from provider_create_others[OF create(2)] obtain r where
    r: "rows = providers d @ [r]" "prov_userId r = Some uid" "prov_id r = cp_id p" by blast
  from create(2) have "\<exists>u. cp_updatedAt p = Some u \<and> prov_updatedAt (last rows) = u"
    by (auto simp: provider_create_def split: field.splits option.splits if_splits)
  with r create(1,3) show ?thesis
    by (auto simp: provider_covered_def provider_findFirst_def find_append_None date_gt_def)
qed

lemma provider_turn_keeps_covered:
  assumes "provider_turn uid p (d, res, fs) = (d', res', fs')"
      and "provider_covered uid (providers d) q"
  shows "provider_covered uid (providers d') q"
  using provider_turn_effect[OF assms(1)]
proof (elim disjE exE conjE)
  assume "d' = d" with assms(2) show ?thesis by simp
next
  fix existing rows
  assume a: "provider_findFirst (cp_id p) uid (providers d) = Some existing"
     "provider_update p (providers d) = Inr rows" "d' = d\<lparr>providers := rows\<rparr>"
    and newer: "date_gt (cp_updatedAt p) (Some (prov_updatedAt existing))"
  from provider_update_find[OF a(2), of uid] obtain u where
    u: "cp_updatedAt p = Some u" and
    f: "provider_findFirst (cp_id q) uid rows = map_option (\<lambda>r. if prov_id r = cp_id p
                               then r\<lparr>prov_name := (case cp_name p of Val n \<Rightarrow> n | _ \<Rightarrow> prov_name r),
                                      prov_email := set_nullable (cp_email p) (prov_email r),
                                      prov_phone := set_nullable (cp_phone p) (prov_phone r),
                                      prov_address := set_nullable (cp_address p) (prov_address r),
                                      prov_notes := set_nullable (cp_notes p) (prov_notes r),
                                      prov_updatedAt := u\<rparr>
                               else r)
                (provider_findFirst (cp_id q) uid (providers d))"
    by blast
  from assms(2) obtain r where r: "provider_findFirst (cp_id q) uid (providers d) = Some r"
      "\<not> date_gt (cp_updatedAt q) (Some (prov_updatedAt r))"
    by (auto simp: provider_covered_def split: option.splits)
  from r(1) have rid: "prov_id r = cp_id q" by (auto simp: provider_findFirst_def dest: find_SomeD)
  show ?thesis
  proof (cases "cp_id q = cp_id p")
    case True
    with r(1) a(1) have "r = existing" by simp
    with newer u r(2) f r(1) rid True a(3) show ?thesis
      by (auto simp: provider_covered_def date_gt_def split: option.splits)
  next
    case False
    with f r rid a(3) show ?thesis by (simp add: provider_covered_def)
  qed
next
  fix rows
  assume a: "provider_create uid p (providers d) = Inr rows" "d' = d\<lparr>providers := rows\<rparr>"
  from provider_create_others[OF a(1)] obtain r where r: "rows = providers d @ [r]" by blast
  with assms(2) a(2) show ?thesis
    by (auto simp: provider_covered_def provider_findFirst_def find_append_Some split: option.splits)
qed

lemma provider_turns_keep_covered:
  "provider_turns uid ps (d, res, fs) = (d', res', fs') \<Longrightarrow> provider_covered uid (providers d) q
     \<Longrightarrow> provider_covered uid (providers d') q"
proof (induction ps arbitrary: d res fs)
  case Nil
  then show ?case by simp
next
  case (Cons p ps)
  obtain d1 res1 fs1 where s: "provider_turn uid p (d, res, fs) = (d1, res1, fs1)" by (metis prod_cases3)
  from Cons.prems(1) s have "provider_turns uid ps (d1, res1, fs1) = (d', res', fs')" by simp
  from Cons.IH[OF this provider_turn_keeps_covered[OF s Cons.prems(2)]] show ?case .
qed

lemma provider_turns_cover:
  "provider_turns uid ps (d, res, fs) = (d', res', fs')
     \<Longrightarrow> errors (res_providers res') = errors (res_providers res)
     \<Longrightarrow> \<forall>p \<in> set ps. provider_covered uid (providers d') p"
proof (induction ps arbitrary: d res fs)
  case Nil
  then show ?case by simp
next
  case (Cons p ps)
  obtain d1 res1 fs1 where s: "provider_turn uid p (d, res, fs) = (d1, res1, fs1)" by (metis prod_cases3)
  from Cons.prems(1) s have rest: "provider_turns uid ps (d1, res1, fs1) = (d', res', fs')" by simp
  from provider_turn_delta[of uid p d fs] s obtain c1 u1 es1 where
    1: "res1 = res\<lparr>res_providers := bump c1 u1 es1 (res_providers res)\<rparr>" by (metis prod.inject)
  from provider_turns_delta[of uid ps d1 fs1] rest obtain c u es where
    2: "res' = res1\<lparr>res_providers := bump c u es (res_providers res1)\<rparr>" by (metis prod.inject)
  from 1 2 Cons.prems(2) have "es1 = []" "es = []" by (simp_all add: bump_def)
  with 1 2 have e1: "errors (res_providers res1) = errors (res_providers res)"
    and e2: "errors (res_providers res') = errors (res_providers res1)"
    by (simp_all add: bump_def)
  from provider_turn_covers[OF s e1] have "provider_covered uid (providers d1) p" .
  from provider_turns_keep_covered[OF rest this] Cons.IH[OF rest e2] show ?case by simp
qed

lemma transaction_update_find:
  assumes "transaction_update t rows = Inr rows'"
  shows "\<exists>u f. ct_updatedAt t = Some u
           \<and> (\<forall>r. tx_id r = ct_id t \<longrightarrow> tx_updatedAt (f r) = u)
           \<and> (\<forall>r. tx_id r \<noteq> ct_id t \<longrightarrow> f r = r)
           \<and> (\<forall>i. transaction_findFirst i uid rows' = map_option f (transaction_findFirst i uid rows))"
proof -
  from assms obtain u where u: "ct_updatedAt t = Some u"
    by (cases "ct_updatedAt t") (auto simp: transaction_update_def)
  let ?f = "\<lambda>r. if tx_id r = ct_id t
                 then r\<lparr>tx_description := set_nullable (ct_description t) (tx_description r),
                        tx_quantity := set_nullable (ct_quantity t) (tx_quantity r),
                        tx_unitPrice := set_nullable (ct_unitPrice t) (tx_unitPrice r),
                        tx_totalAmount := set_nullable (ct_totalAmount t) (tx_totalAmount r),
                        tx_status := (case ct_status t of Val s \<Rightarrow> s | _ \<Rightarrow> tx_status r),
                        tx_updatedAt := u\<rparr>
                 else r"
  from assms u have rows': "rows' = map ?f rows"
    by (auto simp: transaction_update_def split: if_splits)
  have "transaction_findFirst i uid (map ?f rows) = map_option ?f (transaction_findFirst i uid rows)" for i
    unfolding transaction_findFirst_def by (rule find_map_same) simp
  with u rows' show ?thesis
    by (intro exI[of _ u] exI[of _ ?f]) simp
qed

lemma transaction_turn_outcome:
  assumes "transaction_turn uid t (d, res, fs) = (d', res', fs')"
  shows "(\<exists>e. d' = d \<and> res' = res\<lparr>res_transactions := add_error (ct_id t) e (res_transactions res)\<rparr>)
       \<or> (\<exists>existing. transaction_findFirst (ct_id t) uid (transactions d) = Some existing
             \<and> \<not> date_gt (ct_updatedAt t) (Some (tx_updatedAt existing)) \<and> d' = d \<and> res' = res)
       \<or> (\<exists>existing rows. transaction_findFirst (ct_id t) uid (transactions d) = Some existing
             \<and> date_gt (ct_updatedAt t) (Some (tx_updatedAt existing))
             \<and> transaction_update t (transactions d) = Inr rows \<and> d' = d\<lparr>transactions := rows\<rparr>)
       \<or> (\<exists>rows. transaction_findFirst (ct_id t) uid (transactions d) = None
             \<and> transaction_create uid t d = Inr rows \<and> d' = d\<lparr>transactions := rows\<rparr>)"
proof -
  obtain r0 fs0 where c0:
    "storage_call fs (Inr (transaction_findFirst (ct_id t) uid (transactions d)) :: prisma_error + transaction_row option) = (r0, fs0)"
    by force
  from storage_call_cases[of fs "Inr (transaction_findFirst (ct_id t) uid (transactions d)) :: prisma_error + transaction_row option"] c0
  consider (down) "r0 = Inl Unavailable" | (up) "r0 = Inr (transaction_findFirst (ct_id t) uid (transactions d))"
    by auto
  then show ?thesis
  proof cases
    case down
    with assms c0 show ?thesis by (auto simp: transaction_turn_eq sync_transaction_try_def)
  next
    case up
    show ?thesis
    proof (cases "transaction_findFirst (ct_id t) uid (transactions d)")
      case None
      obtain r1 fs1 where c1: "storage_call fs0 (transaction_create uid t d) = (r1, fs1)" by force
      show ?thesis
      proof (cases r1)
        case (Inl e)
        with assms c0 up None c1 show ?thesis by (auto simp: transaction_turn_eq sync_transaction_try_def)
      next
        case (Inr rows)
        with c1 have "transaction_create uid t d = Inr rows" by (auto dest: storage_call_Inr)
        with assms c0 up None c1 Inr show ?thesis by (auto simp: transaction_turn_eq sync_transaction_try_def)
      qed
    next
      case (Some existing)
      show ?thesis
      proof (cases "date_gt (ct_updatedAt t) (Some (tx_updatedAt existing))")
        case False
        with assms c0 up Some show ?thesis by (auto simp: transaction_turn_eq sync_transaction_try_def)
      next
        case True
        obtain r1 fs1 where c1: "storage_call fs0 (transaction_update t (transactions d)) = (r1, fs1)" by force
        show ?thesis
        proof (cases r1)
          case (Inl e)
          with assms c0 up Some True c1 show ?thesis by (auto simp: transaction_turn_eq sync_transaction_try_def)
        next
          case (Inr rows)
          with c1 have "transaction_update t (transactions d) = Inr rows" by (auto dest: storage_call_Inr)
          with assms c0 up Some True c1 Inr show ?thesis by (auto simp: transaction_turn_eq sync_transaction_try_def)
        qed
      qed
    qed
  qed
qed

lemma transaction_create_last:
  assumes "transaction_create uid t d = Inr rows"
  shows "\<exists>r u. rows = transactions d @ [r] \<and> tx_userId r = uid \<and> tx_id r = ct_id t
           \<and> ct_updatedAt t = Some u \<and> tx_updatedAt r = u"
  using assms unfolding transaction_create_def
  by (auto split: field.splits option.splits if_splits dest!: transaction_insert_Inr)

lemma transaction_turn_covers:
  assumes "transaction_turn uid t (d, res, fs) = (d', res', fs')"
      and "errors (res_transactions res') = errors (res_transactions res)"
  shows "transaction_covered uid (transactions d') t"
  using transaction_turn_outcome[OF assms(1)]
proof (elim disjE exE conjE)
  fix e assume "res' = res\<lparr>res_transactions := add_error (ct_id t) e (res_transactions res)\<rparr>"
  with assms(2) show ?thesis by (simp add: add_error_def)
next
  fix existing
  assume "transaction_findFirst (ct_id t) uid (transactions d) = Some existing"
    "\<not> date_gt (ct_updatedAt t) (Some (tx_updatedAt existing))" "d' = d"
  then show ?thesis by (simp add: transaction_covered_def)
next
  fix existing rows
  assume update: "transaction_findFirst (ct_id t) uid (transactions d) = Some existing"
    "transaction_update t (transactions d) = Inr rows" "d' = d\<lparr>transactions := rows\<rparr>"
  from transaction_update_find[OF update(2), of uid] obtain u f where
    u: "ct_updatedAt t = Some u" and fu: "\<And>r. tx_id r = ct_id t \<Longrightarrow> tx_updatedAt (f r) = u" and
    f: "transaction_findFirst (ct_id t) uid rows = map_option f (transaction_findFirst (ct_id t) uid (transactions d))"
    by blast
  from update(1) have "tx_id existing = ct_id t"
    by (auto simp: transaction_findFirst_def dest: find_SomeD)
  with f fu update(1,3) u show ?thesis
    by (simp add: transaction_covered_def date_gt_def)
next
  fix rows
  assume create: "transaction_findFirst (ct_id t) uid (transactions d) = None"
    "transaction_create uid t d = Inr rows" "d' = d\<lparr>transactions := rows\<rparr>"
  from transaction_create_last[OF create(2)] obtain r u where
    r: "rows = transactions d @ [r]" "tx_userId r = uid" "tx_id r = ct_id t"
       "ct_updatedAt t = Some u" "tx_updatedAt r = u" by blast
  with create(1,3) show ?thesis
    by (auto simp: transaction_covered_def transaction_findFirst_def find_append_None date_gt_def)
qed

lemma transaction_turn_keeps_covered:
  assumes "transaction_turn uid t (d, res, fs) = (d', res', fs')"
      and "transaction_covered uid (transactions d) q"
  shows "transaction_covered uid (transactions d') q"
  using transaction_turn_effect[OF assms(1)]
proof (elim disjE exE conjE)
  assume "d' = d" with assms(2) show ?thesis by simp
next
  fix existing rows
  assume a: "transaction_findFirst (ct_id t) uid (transactions d) = Some existing"
     "transaction_update t (transactions d) = Inr rows" "d' = d\<lparr>transactions := rows\<rparr>"
    and newer: "date_gt (ct_updatedAt t) (Some (tx_updatedAt existing))"
  from transaction_update_find[OF a(2), of uid] obtain u f where
    u: "ct_updatedAt t = Some u" and fu: "\<And>r. tx_id r = ct_id t \<Longrightarrow> tx_updatedAt (f r) = u" and
    fo: "\<And>r. tx_id r \<noteq> ct_id t \<Longrightarrow> f r = r" and
    f: "transaction_findFirst (ct_id q) uid rows = map_option f (transaction_findFirst (ct_id q) uid (transactions d))"
    by blast
  from assms(2) obtain r where r: "transaction_findFirst (ct_id q) uid (transactions d) = Some r"
      "\<not> date_gt (ct_updatedAt q) (Some (tx_updatedAt r))"
    by (auto simp: transaction_covered_def split: option.splits)
  from r(1) have rid: "tx_id r = ct_id q" by (auto simp: transaction_findFirst_def dest: find_SomeD)
  show ?thesis
  proof (cases "ct_id q = ct_id t")
    case True
    with r(1) a(1) have "r = existing" by simp
    with newer u r(2) f fu r(1) rid True a(3) show ?thesis
      by (auto simp: transaction_covered_def date_gt_def split: option.splits)
  next
    case False
    with f fo r rid a(3) show ?thesis by (simp add: transaction_covered_def)
  qed
next
  fix rows
  assume a: "transaction_create uid t d = Inr rows" "d' = d\<lparr>transactions := rows\<rparr>"
  from transaction_create_others[OF a(1)] obtain r where r: "rows = transactions d @ [r]" by blast
  with assms(2) a(2) show ?thesis
    by (auto simp: transaction_covered_def transaction_findFirst_def find_append_Some split: option.splits)
qed

lemma transaction_turns_keep_covered:
  "transaction_turns uid ts (d, res, fs) = (d', res', fs') \<Longrightarrow> transaction_covered uid (transactions d) q
     \<Longrightarrow> transaction_covered uid (transactions d') q"
proof (induction ts arbitrary: d res fs)
  case Nil
  then show ?case by simp
next
  case (Cons t ts)
  obtain d1 res1 fs1 where s: "transaction_turn uid t (d, res, fs) = (d1, res1, fs1)" by (metis prod_cases3)
  from Cons.prems(1) s have "transaction_turns uid ts (d1, res1, fs1) = (d', res', fs')" by simp
  from Cons.IH[OF this transaction_turn_keeps_covered[OF s Cons.prems(2)]] show ?case .
qed

lemma transaction_turns_cover:
  "transaction_turns uid ts (d, res, fs) = (d', res', fs')
     \<Longrightarrow> errors (res_transactions res') = errors (res_transactions res)
     \<Longrightarrow> \<forall>t \<in> set ts. transaction_covered uid (transactions d') t"
proof (induction ts arbitrary: d res fs)
  case Nil
  then show ?case by simp
next
  case (Cons t ts)
  obtain d1 res1 fs1 where s: "transaction_turn uid t (d, res, fs) = (d1, res1, fs1)" by (metis prod_cases3)
  from Cons.prems(1) s have rest: "transaction_turns uid ts (d1, res1, fs1) = (d', res', fs')" by simp
  from transaction_turn_delta[of uid t d fs] s obtain c1 u1 es1 where
    1: "res1 = res\<lparr>res_transactions := bump c1 u1 es1 (res_transactions res)\<rparr>" by (metis prod.inject)
  from transaction_turns_delta[of uid ts d1 fs1] rest obtain c u es where
    2: "res' = res1\<lparr>res_transactions := bump c u es (res_transactions res1)\<rparr>" by (metis prod.inject)
  from 1 2 Cons.prems(2) have "es1 = []" "es = []" by (simp_all add: bump_def)
  with 1 2 have e1: "errors (res_transactions res1) = errors (res_transactions res)"
    and e2: "errors (res_transactions res') = errors (res_transactions res1)"
    by (simp_all add: bump_def)
  from transaction_turn_covers[OF s e1] have "transaction_covered uid (transactions d1) t" .
  from transaction_turns_keep_covered[OF rest this] Cons.IH[OF rest e2] show ?case by simp
qed

text \<open>
  C2 as stated fails. The two records of \<open>intruder_body\<close> carry ids that belong to another
  user; the first push rejects them and the second push rejects them again, so it reports two
  errors, not an empty error list. And no second push leaves the server state equal to the state
  after the first: it adds its own row to the sync log.
\<close>

theorem second_push_repeats_errors:
  "push ''u2'' intruder_body [] (fst (push ''u2'' intruder_body [] shop_db)) =
     (shop_db\<lparr>syncLogs := [\<lparr>log_userId = ''u2'', log_syncType = ''push'', log_recordsCount = 2,
                              log_status = ''success'', log_errorMessage = None\<rparr>,
                             \<lparr>log_userId = ''u2'', log_syncType = ''push'', log_recordsCount = 2,
                              log_status = ''success'', log_errorMessage = None\<rparr>]\<rparr>,
      PushOk \<lparr>res_transactions = \<lparr>created = 0, updated = 0, errors = [(''t1'', UniqueConstraint)]\<rparr>,
              res_providers = \<lparr>created = 0, updated = 0, errors = [(''p1'', UniqueConstraint)]\<rparr>,
              res_expenses = \<lparr>created = 0, updated = 0, errors = []\<rparr>\<rparr>, [])
   \<and> fst (push ''u2'' intruder_body [] (fst (push ''u2'' intruder_body [] shop_db)))
       \<noteq> fst (push ''u2'' intruder_body [] shop_db)"
proof -
  have 1: "push ''u2'' intruder_body [] shop_db =
      (shop_db\<lparr>syncLogs := [\<lparr>log_userId = ''u2'', log_syncType = ''push'', log_recordsCount = 2,
                                log_status = ''success'', log_errorMessage = None\<rparr>]\<rparr>,
       PushOk \<lparr>res_transactions = \<lparr>created = 0, updated = 0, errors = [(''t1'', UniqueConstraint)]\<rparr>,
               res_providers = \<lparr>created = 0, updated = 0, errors = [(''p1'', UniqueConstraint)]\<rparr>,
               res_expenses = \<lparr>created = 0, updated = 0, errors = []\<rparr>\<rparr>, [])"
    by (simp add: push_def push_failed_def sync_providers_reach sync_transactions_reach intruder_body_def default_list_def storage_call_def syncLog_create_def
          sync_eval shop_eval)
  have 2: "push ''u2'' intruder_body []
        (shop_db\<lparr>syncLogs := [\<lparr>log_userId = ''u2'', log_syncType = ''push'', log_recordsCount = 2,
                                log_status = ''success'', log_errorMessage = None\<rparr>]\<rparr>) =
     (shop_db\<lparr>syncLogs := [\<lparr>log_userId = ''u2'', log_syncType = ''push'', log_recordsCount = 2,
                              log_status = ''success'', log_errorMessage = None\<rparr>,
                             \<lparr>log_userId = ''u2'', log_syncType = ''push'', log_recordsCount = 2,
                              log_status = ''success'', log_errorMessage = None\<rparr>]\<rparr>,
      PushOk \<lparr>res_transactions = \<lparr>created = 0, updated = 0, errors = [(''t1'', UniqueConstraint)]\<rparr>,
              res_providers = \<lparr>created = 0, updated = 0, errors = [(''p1'', UniqueConstraint)]\<rparr>,
              res_expenses = \<lparr>created = 0, updated = 0, errors = []\<rparr>\<rparr>, [])"
    by (simp add: push_def push_failed_def sync_providers_reach sync_transactions_reach intruder_body_def default_list_def storage_call_def syncLog_create_def
          sync_eval shop_eval)
  have 3: "syncLogs (shop_db\<lparr>syncLogs := [\<lparr>log_userId = ''u2'', log_syncType = ''push'', log_recordsCount = 2,
                              log_status = ''success'', log_errorMessage = None\<rparr>,
                             \<lparr>log_userId = ''u2'', log_syncType = ''push'', log_recordsCount = 2,
                              log_status = ''success'', log_errorMessage = None\<rparr>]\<rparr>)
        \<noteq> syncLogs (shop_db\<lparr>syncLogs := [\<lparr>log_userId = ''u2'', log_syncType = ''push'', log_recordsCount = 2,
                                log_status = ''success'', log_errorMessage = None\<rparr>]\<rparr>)"
    by simp
  from 3 have "shop_db\<lparr>syncLogs := [\<lparr>log_userId = ''u2'', log_syncType = ''push'', log_recordsCount = 2,
                              log_status = ''success'', log_errorMessage = None\<rparr>,
                             \<lparr>log_userId = ''u2'', log_syncType = ''push'', log_recordsCount = 2,
                              log_status = ''success'', log_errorMessage = None\<rparr>]\<rparr>
        \<noteq> shop_db\<lparr>syncLogs := [\<lparr>log_userId = ''u2'', log_syncType = ''push'', log_recordsCount = 2,
                                log_status = ''success'', log_errorMessage = None\<rparr>]\<rparr>"
    by metis
  with 1 2 show ?thesis by simp
qed

text \<open>A turn ends with one error more, or with the errors it found and at most one creation
  or update more.\<close>

lemma provider_turn_tally:
  assumes "provider_turn uid p (d, res, fs) = (d', res', fs')"
  shows "(length (errors (res_providers res')) = Suc (length (errors (res_providers res)))
          \<and> created (res_providers res') = created (res_providers res)
          \<and> updated (res_providers res') = updated (res_providers res))
       \<or> (errors (res_providers res') = errors (res_providers res)
          \<and> created (res_providers res') + updated (res_providers res')
              \<le> Suc (created (res_providers res) + updated (res_providers res)))"
  using assms
  by (auto simp: provider_turn_eq sync_provider_try_def add_error_def
        split: prod.splits sum.splits option.splits if_splits)

lemma transaction_turn_tally:
  assumes "transaction_turn uid t (d, res, fs) = (d', res', fs')"
  shows "(length (errors (res_transactions res')) = Suc (length (errors (res_transactions res)))
          \<and> created (res_transactions res') = created (res_transactions res)
          \<and> updated (res_transactions res') = updated (res_transactions res))
       \<or> (errors (res_transactions res') = errors (res_transactions res)
          \<and> created (res_transactions res') + updated (res_transactions res')
              \<le> Suc (created (res_transactions res) + updated (res_transactions res)))"
  using assms
  by (auto simp: transaction_turn_eq sync_transaction_try_def add_error_def
        split: prod.splits sum.splits option.splits if_splits)

lemma filter_length_mono:
  "(\<And>x. x \<in> set xs \<Longrightarrow> P x \<Longrightarrow> Q x) \<Longrightarrow> length (filter P xs) \<le> length (filter Q xs)"
  by (induction xs) auto

text \<open>
  After the turns of a list of records, the records that the store does not cover are at most
  as many as the errors the turns added.
\<close>

lemma provider_turns_uncovered:
  "provider_turns uid ps (d, res, fs) = (d', res', fs')
   \<Longrightarrow> length (filter (\<lambda>p. \<not> provider_covered uid (providers d') p) ps)
         + length (errors (res_providers res)) \<le> length (errors (res_providers res'))"
proof (induction ps arbitrary: d res fs)
  case Nil
  then show ?case by simp
next
  case (Cons p ps)
  obtain d1 res1 fs1 where s: "provider_turn uid p (d, res, fs) = (d1, res1, fs1)"
    by (metis prod_cases3)
  from Cons.prems s have rest: "provider_turns uid ps (d1, res1, fs1) = (d', res', fs')" by simp
  note ih = Cons.IH[OF rest]
  from provider_turn_tally[OF s] show ?case
  proof
    assume "length (errors (res_providers res1)) = Suc (length (errors (res_providers res)))
          \<and> created (res_providers res1) = created (res_providers res)
          \<and> updated (res_providers res1) = updated (res_providers res)"
    with ih show ?thesis by simp
  next
    assume a: "errors (res_providers res1) = errors (res_providers res)
          \<and> created (res_providers res1) + updated (res_providers res1)
              \<le> Suc (created (res_providers res) + updated (res_providers res))"
    then have "provider_covered uid (providers d1) p" using provider_turn_covers[OF s] by simp
    from provider_turns_keep_covered[OF rest this] have "provider_covered uid (providers d') p" .
    with ih a show ?thesis by simp
  qed
qed

lemma transaction_turns_uncovered:
  "transaction_turns uid ts (d, res, fs) = (d', res', fs')
   \<Longrightarrow> length (filter (\<lambda>t. \<not> transaction_covered uid (transactions d') t) ts)
         + length (errors (res_transactions res)) \<le> length (errors (res_transactions res'))"
proof (induction ts arbitrary: d res fs)
  case Nil
  then show ?case by simp
next
  case (Cons t ts)
  obtain d1 res1 fs1 where s: "transaction_turn uid t (d, res, fs) = (d1, res1, fs1)"
    by (metis prod_cases3)
  from Cons.prems s have rest: "transaction_turns uid ts (d1, res1, fs1) = (d', res', fs')" by simp
  note ih = Cons.IH[OF rest]
  from transaction_turn_tally[OF s] show ?case
  proof
    assume "length (errors (res_transactions res1)) = Suc (length (errors (res_transactions res)))
          \<and> created (res_transactions res1) = created (res_transactions res)
          \<and> updated (res_transactions res1) = updated (res_transactions res)"
    with ih show ?thesis by simp
  next
    assume a: "errors (res_transactions res1) = errors (res_transactions res)
          \<and> created (res_transactions res1) + updated (res_transactions res1)
              \<le> Suc (created (res_transactions res) + updated (res_transactions res))"
    then have "transaction_covered uid (transactions d1) t" using transaction_turn_covers[OF s] by simp
    from transaction_turns_keep_covered[OF rest this] have "transaction_covered uid (transactions d') t" .
    with ih a show ?thesis by simp
  qed
qed

text \<open>
  With the store reachable, the turns of a list of records create, update or reject at most as
  many records as the store did not cover when they began.
\<close>

lemma provider_turns_bounded:
  "provider_turns uid ps (d, res, []) = (d', res', fs')
   \<Longrightarrow> created (res_providers res') + updated (res_providers res') + length (errors (res_providers res'))
       \<le> created (res_providers res) + updated (res_providers res) + length (errors (res_providers res))
           + length (filter (\<lambda>p. \<not> provider_covered uid (providers d) p) ps)"
proof (induction ps arbitrary: d res)
  case Nil
  then show ?case by simp
next
  case (Cons p ps)
  show ?case
  proof (cases "provider_covered uid (providers d) p")
    case True
    from provider_covered_skips[OF True] Cons.prems
    have "provider_turns uid ps (d, res, []) = (d', res', fs')" by simp
    from Cons.IH[OF this] True show ?thesis by simp
  next
    case False
    obtain d1 res1 fs1 where s: "provider_turn uid p (d, res, []) = (d1, res1, fs1)"
      by (metis prod_cases3)
    have f1: "fs1 = []" using provider_turn_Nil_faults[OF s] .
    from Cons.prems s f1 have rest: "provider_turns uid ps (d1, res1, []) = (d', res', fs')" by simp
    have "length (filter (\<lambda>p. \<not> provider_covered uid (providers d1) p) ps)
            \<le> length (filter (\<lambda>p. \<not> provider_covered uid (providers d) p) ps)"
      by (rule filter_length_mono) (use provider_turn_keeps_covered[OF s] in blast)
    with Cons.IH[OF rest] provider_turn_tally[OF s] False show ?thesis by auto
  qed
qed

lemma transaction_turns_bounded:
  "transaction_turns uid ts (d, res, []) = (d', res', fs')
   \<Longrightarrow> created (res_transactions res') + updated (res_transactions res') + length (errors (res_transactions res'))
       \<le> created (res_transactions res) + updated (res_transactions res) + length (errors (res_transactions res))
           + length (filter (\<lambda>t. \<not> transaction_covered uid (transactions d) t) ts)"
proof (induction ts arbitrary: d res)
  case Nil
  then show ?case by simp
next
  case (Cons t ts)
  show ?case
  proof (cases "transaction_covered uid (transactions d) t")
    case True
    from transaction_covered_skips[OF True] Cons.prems
    have "transaction_turns uid ts (d, res, []) = (d', res', fs')" by simp
    from Cons.IH[OF this] True show ?thesis by simp
  next
    case False
    obtain d1 res1 fs1 where s: "transaction_turn uid t (d, res, []) = (d1, res1, fs1)"
      by (metis prod_cases3)
    have f1: "fs1 = []" using transaction_turn_Nil_faults[OF s] .
    from Cons.prems s f1 have rest: "transaction_turns uid ts (d1, res1, []) = (d', res', fs')" by simp
    have "length (filter (\<lambda>t. \<not> transaction_covered uid (transactions d1) t) ts)
            \<le> length (filter (\<lambda>t. \<not> transaction_covered uid (transactions d) t) ts)"
      by (rule filter_length_mono) (use transaction_turn_keeps_covered[OF s] in blast)
    with Cons.IH[OF rest] transaction_turn_tally[OF s] False show ?thesis by auto
  qed
qed

text \<open>A turn of the provider loop writes the provider table only, a turn of the transaction
  loop the transaction table only.\<close>

lemma provider_turn_frame:
  assumes "provider_turn uid p (d, res, fs) = (d', res', fs')"
  shows "d' = d\<lparr>providers := providers d'\<rparr>"
  using provider_turn_effect[OF assms] by auto

lemma provider_turns_frame:
  "provider_turns uid ps (d, res, fs) = (d', res', fs') \<Longrightarrow> d' = d\<lparr>providers := providers d'\<rparr>"
proof (induction ps arbitrary: d res fs)
  case Nil
  then show ?case by simp
next
  case (Cons p ps)
  obtain d1 res1 fs1 where s: "provider_turn uid p (d, res, fs) = (d1, res1, fs1)"
    by (metis prod_cases3)
  from Cons.prems s have rest: "provider_turns uid ps (d1, res1, fs1) = (d', res', fs')" by simp
  from provider_turn_frame[OF s]
  have "d1\<lparr>providers := providers d'\<rparr> = (d\<lparr>providers := providers d1\<rparr>)\<lparr>providers := providers d'\<rparr>"
    by (rule arg_cong[where f = "\<lambda>r. r\<lparr>providers := providers d'\<rparr>"])
  then have "d1\<lparr>providers := providers d'\<rparr> = d\<lparr>providers := providers d'\<rparr>" by simp
  with Cons.IH[OF rest] show ?case by simp
qed

lemma transaction_turn_frame:
  assumes "transaction_turn uid t (d, res, fs) = (d', res', fs')"
  shows "d' = d\<lparr>transactions := transactions d'\<rparr>"
  using transaction_turn_effect[OF assms] by auto

lemma transaction_turns_frame:
  "transaction_turns uid ts (d, res, fs) = (d', res', fs') \<Longrightarrow> d' = d\<lparr>transactions := transactions d'\<rparr>"
proof (induction ts arbitrary: d res fs)
  case Nil
  then show ?case by simp
next
  case (Cons t ts)
  obtain d1 res1 fs1 where s: "transaction_turn uid t (d, res, fs) = (d1, res1, fs1)"
    by (metis prod_cases3)
  from Cons.prems s have rest: "transaction_turns uid ts (d1, res1, fs1) = (d', res', fs')" by simp
  from transaction_turn_frame[OF s]
  have "d1\<lparr>transactions := transactions d'\<rparr> = (d\<lparr>transactions := transactions d1\<rparr>)\<lparr>transactions := transactions d'\<rparr>"
    by (rule arg_cong[where f = "\<lambda>r. r\<lparr>transactions := transactions d'\<rparr>"])
  then have "d1\<lparr>transactions := transactions d'\<rparr> = d\<lparr>transactions := transactions d'\<rparr>" by simp
  with Cons.IH[OF rest] show ?case by simp
qed

text \<open>
  C2 as amended. When a push has answered 200, pushing the same batch again with the store
  reachable answers 200, and for each of the two collections the creations, updates and errors
  of the second push are together at most as many as the errors of the first: the store covers
  a record once its turn has ended without an error, and a covered record is skipped. A
  collection for which the first push reported no error is left as it was. When the first push
  reported no error at all, the second creates nothing, updates nothing, reports no error and
  leaves every table as the first push left it, but for the one row it adds to the sync log. In
  every case the second push writes nothing but the two tables and that one row.
\<close>

theorem second_push_skips_what_first_applied:
  assumes "push uid body fs d = (d1, PushOk res1, fs1)"
  shows "\<exists>d2 res2.
           push uid body [] d1 = (d2, PushOk res2, [])
         \<and> created (res_providers res2) + updated (res_providers res2) + length (errors (res_providers res2))
             \<le> length (errors (res_providers res1))
         \<and> created (res_transactions res2) + updated (res_transactions res2)
               + length (errors (res_transactions res2))
             \<le> length (errors (res_transactions res1))
         \<and> (errors (res_providers res1) = [] \<longrightarrow> providers d2 = providers d1)
         \<and> (errors (res_transactions res1) = [] \<longrightarrow> transactions d2 = transactions d1)
         \<and> d2 = d1\<lparr>providers := providers d2, transactions := transactions d2,
                    syncLogs := syncLogs d1 @
                      [\<lparr>log_userId = uid, log_syncType = ''push'',
                        log_recordsCount = length (default_list (body_transactions body))
                           + length (default_list (body_providers body))
                           + length (default_list (body_expenses body)),
                        log_status = ''success'', log_errorMessage = None\<rparr>]\<rparr>
         \<and> (errors (res_providers res1) = [] \<and> errors (res_transactions res1) = [] \<longrightarrow>
              push uid body [] d1 =
                (d1\<lparr>syncLogs := syncLogs d1 @
                     [\<lparr>log_userId = uid, log_syncType = ''push'',
                       log_recordsCount = length (default_list (body_transactions body))
                          + length (default_list (body_providers body))
                          + length (default_list (body_expenses body)),
                       log_status = ''success'', log_errorMessage = None\<rparr>]\<rparr>,
                 PushOk results0, []))"
proof -
  define ps where "ps = leading_objects (default_list (body_providers body))"
  define ts where "ts = leading_objects (default_list (body_transactions body))"
  text \<open>The first push.\<close>
  from push_run[of body uid d fs] assms obtain dL fsL where
    l: "transaction_turns uid ts (provider_turns uid ps (d, results0, fs)) = (dL, res1, fsL)"
    and np: "NullElement \<notin> set (default_list (body_providers body))"
    and nt: "NullElement \<notin> set (default_list (body_transactions body))"
    and tabs: "providers d1 = providers dL" "transactions d1 = transactions dL"
    unfolding ps_def ts_def by auto
  obtain dp resp fsp where p: "provider_turns uid ps (d, results0, fs) = (dp, resp, fsp)"
    by (metis prod_cases3)
  with l have t: "transaction_turns uid ts (dp, resp, fsp) = (dL, res1, fsL)" by simp
  from provider_turns_keeps[OF p] have pk: "res_transactions resp = no_counts"
    by (simp add: results0_def)
  from transaction_turns_keeps[OF t] have tk: "providers dL = providers dp" "res_providers res1 = res_providers resp"
    by simp_all
  from provider_turns_uncovered[OF p] tk tabs
  have up: "length (filter (\<lambda>p. \<not> provider_covered uid (providers d1) p) ps)
              \<le> length (errors (res_providers res1))"
    by simp
  from transaction_turns_uncovered[OF t] pk tabs
  have ut: "length (filter (\<lambda>t. \<not> transaction_covered uid (transactions d1) t) ts)
              \<le> length (errors (res_transactions res1))"
    by (simp add: no_counts_def)
  text \<open>The second push.\<close>
  obtain dp2 resp2 fsp2 where p2: "provider_turns uid ps (d1, results0, []) = (dp2, resp2, fsp2)"
    by (metis prod_cases3)
  have fp2: "fsp2 = []" using provider_turns_Nil_faults[OF p2] .
  obtain dL2 res2 fsL2 where t2: "transaction_turns uid ts (dp2, resp2, []) = (dL2, res2, fsL2)"
    by (metis prod_cases3)
  from provider_turns_keeps[OF p2] have pk2: "res_transactions resp2 = no_counts"
     "transactions dp2 = transactions d1" "syncLogs dp2 = syncLogs d1" "expenses dp2 = expenses d1"
     "advances dp2 = advances d1" "deliveries dp2 = deliveries d1" "res_expenses resp2 = no_counts"
    by (simp_all add: results0_def)
  from transaction_turns_keeps[OF t2] have tk2: "providers dL2 = providers dp2"
     "res_providers res2 = res_providers resp2" "syncLogs dL2 = syncLogs dp2" "expenses dL2 = expenses dp2"
     "advances dL2 = advances dp2" "deliveries dL2 = deliveries dp2" "res_expenses res2 = res_expenses resp2"
    by simp_all
  define row where "row = \<lparr>log_userId = uid, log_syncType = ''push'',
                        log_recordsCount = length (default_list (body_transactions body))
                           + length (default_list (body_providers body))
                           + length (default_list (body_expenses body)),
                        log_status = ''success'', log_errorMessage = None\<rparr>"
  from push_of_objects[OF np nt, of uid d1 dL2 res2 fsL2] p2 fp2 t2
  have push2: "push uid body [] d1 = (dL2\<lparr>syncLogs := syncLogs dL2 @ [row]\<rparr>, PushOk res2, [])"
    by (simp add: ps_def ts_def row_def)
  from provider_turns_bounded[OF p2] up tk2(2)
  have b1: "created (res_providers res2) + updated (res_providers res2) + length (errors (res_providers res2))
             \<le> length (errors (res_providers res1))"
    by (simp add: results0_def no_counts_def)
  from transaction_turns_bounded[OF t2] ut pk2(1,2)
  have b2: "created (res_transactions res2) + updated (res_transactions res2)
               + length (errors (res_transactions res2))
             \<le> length (errors (res_transactions res1))"
    by (simp add: no_counts_def)
  have c1: "providers dL2 = providers d1" if "errors (res_providers res1) = []"
  proof -
    from up that have "\<forall>q \<in> set ps. provider_covered uid (providers d1) q"
      by (simp add: filter_empty_conv)
    from providers_covered_skip[OF this, of results0] p2 tk2(1) show ?thesis by simp
  qed
  have c2: "transactions dL2 = transactions d1" if "errors (res_transactions res1) = []"
  proof -
    from ut that pk2(2) have "\<forall>q \<in> set ts. transaction_covered uid (transactions dp2) q"
      by (simp add: filter_empty_conv)
    from transactions_covered_skip[OF this, of resp2] t2 pk2(2) show ?thesis by simp
  qed
  have frame: "dL2\<lparr>syncLogs := syncLogs dL2 @ [row]\<rparr>
                 = d1\<lparr>providers := providers dL2, transactions := transactions dL2,
                      syncLogs := syncLogs d1 @ [row]\<rparr>"
  proof -
    have "dL2 = dp2\<lparr>transactions := transactions dL2\<rparr>" by (rule transaction_turns_frame[OF t2])
    moreover have "dp2 = d1\<lparr>providers := providers dp2\<rparr>" by (rule provider_turns_frame[OF p2])
    ultimately have "dL2 = d1\<lparr>providers := providers dL2, transactions := transactions dL2\<rparr>"
      using tk2(1) by simp
    then have "dL2\<lparr>syncLogs := syncLogs dL2 @ [row]\<rparr>
        = d1\<lparr>providers := providers dL2, transactions := transactions dL2\<rparr>\<lparr>syncLogs := syncLogs dL2 @ [row]\<rparr>"
      by simp
    then show ?thesis using tk2(3) pk2(3) by simp
  qed
  have zero: "res2 = results0" if "errors (res_providers res1) = []" "errors (res_transactions res1) = []"
  proof -
    from b1 b2 that have "res_providers res2 = no_counts" "res_transactions res2 = no_counts"
      by (simp_all add: no_counts_def)
    moreover have "res_expenses res2 = no_counts" using tk2(7) pk2(7) by simp
    ultimately show ?thesis by (simp add: results0_def)
  qed
  have same: "dL2\<lparr>syncLogs := syncLogs dL2 @ [row]\<rparr> = d1\<lparr>syncLogs := syncLogs d1 @ [row]\<rparr>"
    if "errors (res_providers res1) = []" "errors (res_transactions res1) = []"
    using frame c1[OF that(1)] c2[OF that(2)] by simp
  show ?thesis
    unfolding row_def[symmetric]
    apply (rule exI[of _ "dL2\<lparr>syncLogs := syncLogs dL2 @ [row]\<rparr>"])
    apply (rule exI[of _ res2])
    using push2 b1 b2 c1 c2 frame zero same
    apply simp
    done
qed

theorem second_push_skips_what_first_applied_witness:
  "push ''u1'' rosa_body [True] empty_db =
     (empty_db\<lparr>syncLogs := [\<lparr>log_userId = ''u1'', log_syncType = ''push'', log_recordsCount = 1,
                               log_status = ''success'', log_errorMessage = None\<rparr>]\<rparr>,
      PushOk \<lparr>res_transactions = \<lparr>created = 0, updated = 0, errors = []\<rparr>,
              res_providers = \<lparr>created = 0, updated = 0, errors = [(''p2'', Unavailable)]\<rparr>,
              res_expenses = \<lparr>created = 0, updated = 0, errors = []\<rparr>\<rparr>, [])
   \<and> push ''u1'' rosa_body []
        (empty_db\<lparr>syncLogs := [\<lparr>log_userId = ''u1'', log_syncType = ''push'', log_recordsCount = 1,
                                  log_status = ''success'', log_errorMessage = None\<rparr>]\<rparr>) =
     (empty_db\<lparr>providers := [rosa_row],
               syncLogs := [\<lparr>log_userId = ''u1'', log_syncType = ''push'', log_recordsCount = 1,
                              log_status = ''success'', log_errorMessage = None\<rparr>,
                            \<lparr>log_userId = ''u1'', log_syncType = ''push'', log_recordsCount = 1,
                              log_status = ''success'', log_errorMessage = None\<rparr>]\<rparr>,
      PushOk \<lparr>res_transactions = \<lparr>created = 0, updated = 0, errors = []\<rparr>,
              res_providers = \<lparr>created = 1, updated = 0, errors = []\<rparr>,
              res_expenses = \<lparr>created = 0, updated = 0, errors = []\<rparr>\<rparr>, [])
   \<and> (\<exists>d2 res2.
         push ''u1'' rosa_body []
           (empty_db\<lparr>syncLogs := [\<lparr>log_userId = ''u1'', log_syncType = ''push'', log_recordsCount = 1,
                                     log_status = ''success'', log_errorMessage = None\<rparr>]\<rparr>)
           = (d2, PushOk res2, [])
       \<and> created (res_providers res2) + updated (res_providers res2) + length (errors (res_providers res2)) \<le> 1
       \<and> created (res_transactions res2) + updated (res_transactions res2)
             + length (errors (res_transactions res2)) \<le> 0
       \<and> transactions d2 = [])"
proof -
  have 1: "push ''u1'' rosa_body [True] empty_db =
     (empty_db\<lparr>syncLogs := [\<lparr>log_userId = ''u1'', log_syncType = ''push'', log_recordsCount = 1,
                               log_status = ''success'', log_errorMessage = None\<rparr>]\<rparr>,
      PushOk \<lparr>res_transactions = \<lparr>created = 0, updated = 0, errors = []\<rparr>,
              res_providers = \<lparr>created = 0, updated = 0, errors = [(''p2'', Unavailable)]\<rparr>,
              res_expenses = \<lparr>created = 0, updated = 0, errors = []\<rparr>\<rparr>, [])"
    by (simp add: rosa_body_def push_eval sync_eval shop_eval)
  have 2: "push ''u1'' rosa_body []
        (empty_db\<lparr>syncLogs := [\<lparr>log_userId = ''u1'', log_syncType = ''push'', log_recordsCount = 1,
                                  log_status = ''success'', log_errorMessage = None\<rparr>]\<rparr>) =
     (empty_db\<lparr>providers := [rosa_row],
               syncLogs := [\<lparr>log_userId = ''u1'', log_syncType = ''push'', log_recordsCount = 1,
                              log_status = ''success'', log_errorMessage = None\<rparr>,
                            \<lparr>log_userId = ''u1'', log_syncType = ''push'', log_recordsCount = 1,
                              log_status = ''success'', log_errorMessage = None\<rparr>]\<rparr>,
      PushOk \<lparr>res_transactions = \<lparr>created = 0, updated = 0, errors = []\<rparr>,
              res_providers = \<lparr>created = 1, updated = 0, errors = []\<rparr>,
              res_expenses = \<lparr>created = 0, updated = 0, errors = []\<rparr>\<rparr>, [])"
    by (simp add: rosa_body_def push_eval sync_eval shop_eval)
  from second_push_skips_what_first_applied[OF 1]
  have 3: "\<exists>d2 res2.
         push ''u1'' rosa_body []
           (empty_db\<lparr>syncLogs := [\<lparr>log_userId = ''u1'', log_syncType = ''push'', log_recordsCount = 1,
                                     log_status = ''success'', log_errorMessage = None\<rparr>]\<rparr>)
           = (d2, PushOk res2, [])
       \<and> created (res_providers res2) + updated (res_providers res2) + length (errors (res_providers res2)) \<le> 1
       \<and> created (res_transactions res2) + updated (res_transactions res2)
             + length (errors (res_transactions res2)) \<le> 0
       \<and> transactions d2 = []"
    by (auto simp: empty_db_def)
  from 1 2 3 show ?thesis by blast
qed

section \<open>Last write wins, in a whole push\<close>

lemma provider_create_last:
  "provider_create uid p rows = Inr rows' \<Longrightarrow> \<exists>x. rows' = rows @ [x]"
  by (auto simp: provider_create_def split: field.splits option.splits if_splits)

text \<open>
  A row of the caller stays as it is through the turn of any record that has another id or is
  not newer than the row; and the turn of a record with the row's id that is not newer counts
  no creation and no update.
\<close>

lemma provider_turn_keeps_row:
  assumes s: "provider_turn uid p (d, res, fs) = (d', res', fs')"
      and r: "provider_findFirst i uid (providers d) = Some r"
      and c: "cp_id p = i \<longrightarrow> \<not> date_gt (cp_updatedAt p) (Some (prov_updatedAt r))"
  shows "provider_findFirst i uid (providers d') = Some r
       \<and> (cp_id p = i \<longrightarrow> created (res_providers res') = created (res_providers res)
                          \<and> updated (res_providers res') = updated (res_providers res))"
  using provider_turn_outcome[OF s]
proof (elim disjE exE conjE)
  fix e assume "d' = d" "res' = res\<lparr>res_providers := add_error (cp_id p) e (res_providers res)\<rparr>"
  with r show ?thesis by (simp add: add_error_def)
next
  fix existing
  assume "d' = d" "res' = res"
  with r show ?thesis by simp
next
  fix existing rows
  assume a: "provider_findFirst (cp_id p) uid (providers d) = Some existing"
     "date_gt (cp_updatedAt p) (Some (prov_updatedAt existing))"
     "provider_update p (providers d) = Inr rows" "d' = d\<lparr>providers := rows\<rparr>"
  from a(1,2) r c have ne: "cp_id p \<noteq> i" by auto
  from r have "prov_id r = i" unfolding provider_findFirst_def by (auto dest: find_SomeD)
  with ne provider_update_find[OF a(3), of uid] r a(4) show ?thesis by auto
next
  fix rows
  assume a: "provider_findFirst (cp_id p) uid (providers d) = None"
     "provider_create uid p (providers d) = Inr rows" "d' = d\<lparr>providers := rows\<rparr>"
  from a(1) r have ne: "cp_id p \<noteq> i" by auto
  from provider_create_last[OF a(2)] obtain x where "rows = providers d @ [x]" by blast
  with r a(3) ne show ?thesis by (simp add: provider_findFirst_def find_append_Some)
qed

lemma provider_turns_keep_row:
  "provider_turns uid ps (d, res, fs) = (d', res', fs')
   \<Longrightarrow> provider_findFirst i uid (providers d) = Some r
   \<Longrightarrow> \<forall>p \<in> set ps. cp_id p = i \<longrightarrow> \<not> date_gt (cp_updatedAt p) (Some (prov_updatedAt r))
   \<Longrightarrow> provider_findFirst i uid (providers d') = Some r
       \<and> created (res_providers res') + updated (res_providers res')
           \<le> created (res_providers res) + updated (res_providers res)
               + length (filter (\<lambda>p. cp_id p \<noteq> i) ps)"
proof (induction ps arbitrary: d res fs)
  case Nil
  then show ?case by simp
next
  case (Cons p ps)
  obtain d1 res1 fs1 where s: "provider_turn uid p (d, res, fs) = (d1, res1, fs1)"
    by (metis prod_cases3)
  from Cons.prems(1) s have rest: "provider_turns uid ps (d1, res1, fs1) = (d', res', fs')" by simp
  from Cons.prems(3) have c: "cp_id p = i \<longrightarrow> \<not> date_gt (cp_updatedAt p) (Some (prov_updatedAt r))"
    and cs: "\<forall>p \<in> set ps. cp_id p = i \<longrightarrow> \<not> date_gt (cp_updatedAt p) (Some (prov_updatedAt r))"
    by simp_all
  from provider_turn_keeps_row[OF s Cons.prems(2) c]
  have k: "provider_findFirst i uid (providers d1) = Some r"
    and same: "cp_id p = i \<Longrightarrow> created (res_providers res1) = created (res_providers res)
                          \<and> updated (res_providers res1) = updated (res_providers res)"
    by simp_all
  from provider_turn_tally[OF s]
  have le: "created (res_providers res1) + updated (res_providers res1)
              \<le> Suc (created (res_providers res) + updated (res_providers res))"
    by auto
  from Cons.IH[OF rest k cs] same le show ?case by (cases "cp_id p = i") auto
qed

lemma transaction_turn_keeps_row:
  assumes s: "transaction_turn uid t (d, res, fs) = (d', res', fs')"
      and r: "transaction_findFirst i uid (transactions d) = Some r"
      and c: "ct_id t = i \<longrightarrow> \<not> date_gt (ct_updatedAt t) (Some (tx_updatedAt r))"
  shows "transaction_findFirst i uid (transactions d') = Some r
       \<and> (ct_id t = i \<longrightarrow> created (res_transactions res') = created (res_transactions res)
                          \<and> updated (res_transactions res') = updated (res_transactions res))"
  using transaction_turn_outcome[OF s]
proof (elim disjE exE conjE)
  fix e assume "d' = d" "res' = res\<lparr>res_transactions := add_error (ct_id t) e (res_transactions res)\<rparr>"
  with r show ?thesis by (simp add: add_error_def)
next
  fix existing
  assume "d' = d" "res' = res"
  with r show ?thesis by simp
next
  fix existing rows
  assume a: "transaction_findFirst (ct_id t) uid (transactions d) = Some existing"
     "date_gt (ct_updatedAt t) (Some (tx_updatedAt existing))"
     "transaction_update t (transactions d) = Inr rows" "d' = d\<lparr>transactions := rows\<rparr>"
  from a(1,2) r c have ne: "ct_id t \<noteq> i" by auto
  from r have "tx_id r = i" unfolding transaction_findFirst_def by (auto dest: find_SomeD)
  with ne transaction_update_find[OF a(3), of uid] r a(4) show ?thesis by auto
next
  fix rows
  assume a: "transaction_findFirst (ct_id t) uid (transactions d) = None"
     "transaction_create uid t d = Inr rows" "d' = d\<lparr>transactions := rows\<rparr>"
  from a(1) r have ne: "ct_id t \<noteq> i" by auto
  from transaction_create_last[OF a(2)] obtain x where "rows = transactions d @ [x]" by blast
  with r a(3) ne show ?thesis by (simp add: transaction_findFirst_def find_append_Some)
qed

lemma transaction_turns_keep_row:
  "transaction_turns uid ts (d, res, fs) = (d', res', fs')
   \<Longrightarrow> transaction_findFirst i uid (transactions d) = Some r
   \<Longrightarrow> \<forall>t \<in> set ts. ct_id t = i \<longrightarrow> \<not> date_gt (ct_updatedAt t) (Some (tx_updatedAt r))
   \<Longrightarrow> transaction_findFirst i uid (transactions d') = Some r
       \<and> created (res_transactions res') + updated (res_transactions res')
           \<le> created (res_transactions res) + updated (res_transactions res)
               + length (filter (\<lambda>t. ct_id t \<noteq> i) ts)"
proof (induction ts arbitrary: d res fs)
  case Nil
  then show ?case by simp
next
  case (Cons t ts)
  obtain d1 res1 fs1 where s: "transaction_turn uid t (d, res, fs) = (d1, res1, fs1)"
    by (metis prod_cases3)
  from Cons.prems(1) s have rest: "transaction_turns uid ts (d1, res1, fs1) = (d', res', fs')" by simp
  from Cons.prems(3) have c: "ct_id t = i \<longrightarrow> \<not> date_gt (ct_updatedAt t) (Some (tx_updatedAt r))"
    and cs: "\<forall>t \<in> set ts. ct_id t = i \<longrightarrow> \<not> date_gt (ct_updatedAt t) (Some (tx_updatedAt r))"
    by simp_all
  from transaction_turn_keeps_row[OF s Cons.prems(2) c]
  have k: "transaction_findFirst i uid (transactions d1) = Some r"
    and same: "ct_id t = i \<Longrightarrow> created (res_transactions res1) = created (res_transactions res)
                          \<and> updated (res_transactions res1) = updated (res_transactions res)"
    by simp_all
  from transaction_turn_tally[OF s]
  have le: "created (res_transactions res1) + updated (res_transactions res1)
              \<le> Suc (created (res_transactions res) + updated (res_transactions res))"
    by auto
  from Cons.IH[OF rest k cs] same le show ?case by (cases "ct_id t = i") auto
qed

lemma leading_objects_filter:
  "length (filter P (leading_objects els))
     \<le> length (filter (\<lambda>el. case el of Object x \<Rightarrow> P x | NullElement \<Rightarrow> False) els)"
proof (induction els)
  case Nil
  show ?case by simp
next
  case (Cons el els)
  then show ?case by (cases el) auto
qed

text \<open>
  C1 as amended. Let the caller own a row with id \<open>i\<close>, and let no provider record of the batch
  with that id be strictly newer than the row. Then the push, whatever the rest of the batch
  and the storage schedule are and however it ends, leaves that row exactly as it is; and when
  it answers 200, the creations and updates it reports for the providers are at most as many as
  the provider records with another id: none is reported for a record with id \<open>i\<close>. The same
  holds for a transaction row and the transaction records of the batch.
\<close>

theorem push_skips_records_not_newer:
  "(provider_findFirst i uid (providers d) = Some r \<longrightarrow>
    (\<forall>p. Object p \<in> set (default_list (body_providers body)) \<longrightarrow> cp_id p = i
           \<longrightarrow> \<not> date_gt (cp_updatedAt p) (Some (prov_updatedAt r))) \<longrightarrow>
    (case push uid body fs d of (d', resp, fs') \<Rightarrow>
        provider_findFirst i uid (providers d') = Some r
      \<and> (\<forall>res'. resp = PushOk res' \<longrightarrow>
            created (res_providers res') + updated (res_providers res')
              \<le> length (filter (\<lambda>el. case el of Object p \<Rightarrow> cp_id p \<noteq> i | NullElement \<Rightarrow> False)
                           (default_list (body_providers body))))))
   \<and> (transaction_findFirst j uid (transactions d) = Some s \<longrightarrow>
    (\<forall>t. Object t \<in> set (default_list (body_transactions body)) \<longrightarrow> ct_id t = j
           \<longrightarrow> \<not> date_gt (ct_updatedAt t) (Some (tx_updatedAt s))) \<longrightarrow>
    (case push uid body fs d of (d', resp, fs') \<Rightarrow>
        transaction_findFirst j uid (transactions d') = Some s
      \<and> (\<forall>res'. resp = PushOk res' \<longrightarrow>
            created (res_transactions res') + updated (res_transactions res')
              \<le> length (filter (\<lambda>el. case el of Object t \<Rightarrow> ct_id t \<noteq> j | NullElement \<Rightarrow> False)
                           (default_list (body_transactions body))))))"
proof -
  define ps where "ps = leading_objects (default_list (body_providers body))"
  from push_run[of body uid d fs] obtain ts d2 res fs2 where
    tsub: "ts = [] \<or> ts = leading_objects (default_list (body_transactions body))"
    and l: "transaction_turns uid ts (provider_turns uid ps (d, results0, fs)) = (d2, res, fs2)"
    and o: "(\<exists>fs' row. push uid body fs d = (d2\<lparr>syncLogs := syncLogs d2 @ [row]\<rparr>, PushOk res, fs'))
       \<or> (\<exists>fs' row. push uid body fs d = (d2\<lparr>syncLogs := syncLogs d2 @ [row]\<rparr>, PushFailed, fs'))
       \<or> (\<exists>fs'. push uid body fs d = (d2, PushNoResponse, fs'))"
    unfolding ps_def by blast
  obtain dp resp fsp where p: "provider_turns uid ps (d, results0, fs) = (dp, resp, fsp)"
    by (metis prod_cases3)
  with l have t: "transaction_turns uid ts (dp, resp, fsp) = (d2, res, fs2)" by simp
  from provider_turns_keeps[OF p] have pk: "transactions dp = transactions d" "res_transactions resp = no_counts"
    by (simp_all add: results0_def)
  from transaction_turns_keeps[OF t] have tk: "providers d2 = providers dp" "res_providers res = res_providers resp"
    by simp_all
  have tobj: "\<forall>t \<in> set ts. Object t \<in> set (default_list (body_transactions body))"
    using tsub leading_objects_subset by fastforce
  have pobj: "\<forall>p \<in> set ps. Object p \<in> set (default_list (body_providers body))"
    unfolding ps_def using leading_objects_subset by fastforce
  have tlen: "length (filter (\<lambda>t. ct_id t \<noteq> j) ts)
              \<le> length (filter (\<lambda>el. case el of Object t \<Rightarrow> ct_id t \<noteq> j | NullElement \<Rightarrow> False)
                           (default_list (body_transactions body)))"
    using tsub leading_objects_filter[of "\<lambda>t. ct_id t \<noteq> j" "default_list (body_transactions body)"] by auto
  have plen: "length (filter (\<lambda>p. cp_id p \<noteq> i) ps)
              \<le> length (filter (\<lambda>el. case el of Object p \<Rightarrow> cp_id p \<noteq> i | NullElement \<Rightarrow> False)
                           (default_list (body_providers body)))"
    unfolding ps_def by (rule leading_objects_filter)
  have P: "providers d2 = providers dp \<Longrightarrow> provider_findFirst i uid (providers d2) = Some r
       \<and> created (res_providers res) + updated (res_providers res)
              \<le> length (filter (\<lambda>el. case el of Object p \<Rightarrow> cp_id p \<noteq> i | NullElement \<Rightarrow> False)
                           (default_list (body_providers body)))"
    if "provider_findFirst i uid (providers d) = Some r"
       "\<forall>p. Object p \<in> set (default_list (body_providers body)) \<longrightarrow> cp_id p = i
           \<longrightarrow> \<not> date_gt (cp_updatedAt p) (Some (prov_updatedAt r))"
  proof -
    from that(2) pobj have "\<forall>p \<in> set ps. cp_id p = i \<longrightarrow> \<not> date_gt (cp_updatedAt p) (Some (prov_updatedAt r))"
      by blast
    from provider_turns_keep_row[OF p that(1) this] plen tk
    show ?thesis by (simp add: results0_def no_counts_def)
  qed
  have T: "transaction_findFirst j uid (transactions d2) = Some s
       \<and> created (res_transactions res) + updated (res_transactions res)
              \<le> length (filter (\<lambda>el. case el of Object t \<Rightarrow> ct_id t \<noteq> j | NullElement \<Rightarrow> False)
                           (default_list (body_transactions body)))"
    if "transaction_findFirst j uid (transactions d) = Some s"
       "\<forall>t. Object t \<in> set (default_list (body_transactions body)) \<longrightarrow> ct_id t = j
           \<longrightarrow> \<not> date_gt (ct_updatedAt t) (Some (tx_updatedAt s))"
  proof -
    from that(2) tobj have c: "\<forall>t \<in> set ts. ct_id t = j \<longrightarrow> \<not> date_gt (ct_updatedAt t) (Some (tx_updatedAt s))"
      by blast
    from that(1) pk(1) have "transaction_findFirst j uid (transactions dp) = Some s" by simp
    from transaction_turns_keep_row[OF t this c] tlen pk(2)
    show ?thesis by (simp add: no_counts_def)
  qed
  from o show ?thesis
  proof (elim disjE exE)
    fix fs' row assume "push uid body fs d = (d2\<lparr>syncLogs := syncLogs d2 @ [row]\<rparr>, PushOk res, fs')"
    with P[OF _ _ tk(1)] T show ?thesis by simp
  next
    fix fs' row assume "push uid body fs d = (d2\<lparr>syncLogs := syncLogs d2 @ [row]\<rparr>, PushFailed, fs')"
    with P[OF _ _ tk(1)] T show ?thesis by simp
  next
    fix fs' assume "push uid body fs d = (d2, PushNoResponse, fs')"
    with P[OF _ _ tk(1)] T show ?thesis by simp
  qed
qed

text \<open>
  C1 as stated fails for a batch that holds an id twice: the turns come one after the other and
  each reads the row anew. The first record of \<open>twice_body\<close> is as old as the row of user \<open>u1\<close>
  with its id, and is skipped; the second is newer, and the push rewrites the row and reports
  one update.
\<close>

theorem push_rewrites_row_of_repeated_id:
  "provider_findFirst (cp_id (ana_client (Some 20))) ''u1'' (providers shop_db) = Some ana_row
   \<and> \<not> date_gt (cp_updatedAt (ana_client (Some 20))) (Some (prov_updatedAt ana_row))
   \<and> Object (ana_client (Some 20)) \<in> set (default_list (body_providers twice_body))
   \<and> push ''u1'' twice_body [] shop_db =
       (shop_db\<lparr>providers := [ana_row\<lparr>prov_name := ''Ana Maria'', prov_updatedAt := 99\<rparr>],
                syncLogs := [\<lparr>log_userId = ''u1'', log_syncType = ''push'', log_recordsCount = 2,
                              log_status = ''success'', log_errorMessage = None\<rparr>]\<rparr>,
        PushOk \<lparr>res_transactions = \<lparr>created = 0, updated = 0, errors = []\<rparr>,
                res_providers = \<lparr>created = 0, updated = 1, errors = []\<rparr>,
                res_expenses = \<lparr>created = 0, updated = 0, errors = []\<rparr>\<rparr>, [])
   \<and> provider_findFirst (cp_id (ana_client (Some 20))) ''u1''
         (providers (fst (push ''u1'' twice_body [] shop_db))) \<noteq> Some ana_row"
  by (simp add: twice_body_def push_eval sync_eval shop_eval)

theorem push_skips_records_not_newer_witness:
  "push ''u1'' stale_body [] shop_db =
       (shop_db\<lparr>providers := [ana_row, rosa_row],
                syncLogs := [\<lparr>log_userId = ''u1'', log_syncType = ''push'', log_recordsCount = 3,
                              log_status = ''success'', log_errorMessage = None\<rparr>]\<rparr>,
        PushOk \<lparr>res_transactions = \<lparr>created = 0, updated = 0, errors = []\<rparr>,
                res_providers = \<lparr>created = 1, updated = 0, errors = []\<rparr>,
                res_expenses = \<lparr>created = 0, updated = 0, errors = []\<rparr>\<rparr>, [])
   \<and> provider_findFirst ''p1'' ''u1'' (providers (fst (push ''u1'' stale_body [] shop_db))) = Some ana_row
   \<and> transaction_findFirst ''t1'' ''u1'' (transactions (fst (push ''u1'' stale_body [] shop_db))) = Some maize_row
   \<and> length (filter (\<lambda>el. case el of Object p \<Rightarrow> cp_id p \<noteq> ''p1'' | NullElement \<Rightarrow> False)
                (default_list (body_providers stale_body))) = 1
   \<and> length (filter (\<lambda>el. case el of Object t \<Rightarrow> ct_id t \<noteq> ''t1'' | NullElement \<Rightarrow> False)
                (default_list (body_transactions stale_body))) = 0"
proof -
  have ev: "push ''u1'' stale_body [] shop_db =
       (shop_db\<lparr>providers := [ana_row, rosa_row],
                syncLogs := [\<lparr>log_userId = ''u1'', log_syncType = ''push'', log_recordsCount = 3,
                              log_status = ''success'', log_errorMessage = None\<rparr>]\<rparr>,
        PushOk \<lparr>res_transactions = \<lparr>created = 0, updated = 0, errors = []\<rparr>,
                res_providers = \<lparr>created = 1, updated = 0, errors = []\<rparr>,
                res_expenses = \<lparr>created = 0, updated = 0, errors = []\<rparr>\<rparr>, [])"
    by (simp add: stale_body_def push_eval sync_eval shop_eval)
  have h1: "provider_findFirst ''p1'' ''u1'' (providers shop_db) = Some ana_row"
    by (simp add: provider_findFirst_def shop_eval)
  have h2: "\<forall>p. Object p \<in> set (default_list (body_providers stale_body)) \<longrightarrow> cp_id p = ''p1''
           \<longrightarrow> \<not> date_gt (cp_updatedAt p) (Some (prov_updatedAt ana_row))"
    by (auto simp: stale_body_def default_list_def date_gt_def shop_eval)
  have h3: "transaction_findFirst ''t1'' ''u1'' (transactions shop_db) = Some maize_row"
    by (simp add: transaction_findFirst_def shop_eval)
  have h4: "\<forall>t. Object t \<in> set (default_list (body_transactions stale_body)) \<longrightarrow> ct_id t = ''t1''
           \<longrightarrow> \<not> date_gt (ct_updatedAt t) (Some (tx_updatedAt maize_row))"
    by (auto simp: stale_body_def default_list_def date_gt_def shop_eval)
  have n1: "length (filter (\<lambda>el. case el of Object p \<Rightarrow> cp_id p \<noteq> ''p1'' | NullElement \<Rightarrow> False)
                (default_list (body_providers stale_body))) = 1"
    by (simp add: stale_body_def default_list_def shop_eval)
  have n2: "length (filter (\<lambda>el. case el of Object t \<Rightarrow> ct_id t \<noteq> ''t1'' | NullElement \<Rightarrow> False)
                (default_list (body_transactions stale_body))) = 0"
    by (simp add: stale_body_def default_list_def shop_eval)
  note th = push_skips_records_not_newer[of "''p1''" "''u1''" shop_db ana_row stale_body "[]" "''t1''" maize_row]
  from th[THEN conjunct1, THEN mp, OF h1, THEN mp, OF h2]
  have a: "provider_findFirst ''p1'' ''u1'' (providers (fst (push ''u1'' stale_body [] shop_db))) = Some ana_row"
    by (simp add: split_beta)
  from th[THEN conjunct2, THEN mp, OF h3, THEN mp, OF h4]
  have b: "transaction_findFirst ''t1'' ''u1'' (transactions (fst (push ''u1'' stale_body [] shop_db))) = Some maize_row"
    by (simp add: split_beta)
  from ev a b n1 n2 show ?thesis by blast
qed

section \<open>Rounding to binary64\<close>

lemma two_powi_diff: "(2::rat) powi (int a - int b) = 2 ^ a / 2 ^ b"
  by (simp add: power_int_diff)

lemma ilog2_candidate:
  assumes "0 < (y::rat)" "quotient_of y = (p, q)"
  defines "e0 \<equiv> int (floorlog 2 (nat p)) - int (floorlog 2 (nat q))"
  shows "2 powi (e0 - 1) \<le> y \<and> y < 2 powi (e0 + 1)"
proof -
  have q: "0 < q" using assms(2) by (rule quotient_of_denom_pos)
  have y: "y = of_int p / of_int q" using assms(2) by (rule quotient_of_div)
  have p: "0 < p" using assms(1) q unfolding y by (simp add: zero_less_divide_iff)
  define bp where "bp = floorlog 2 (nat p)"
  define bq where "bq = floorlog 2 (nat q)"
  have bp1: "1 \<le> bp" and bq1: "1 \<le> bq"
    using p q floorlog_eq_zero_iff[of 2 "nat p"] floorlog_eq_zero_iff[of 2 "nat q"]
    unfolding bp_def bq_def by (simp_all add: Suc_le_eq)
  have np: "(of_nat (nat p) :: rat) = of_int p" and nq: "(of_nat (nat q) :: rat) = of_int q"
    using p q by simp_all
  from floorlog_bounds[of "nat p" 2] p have fp: "2 ^ (bp - 1) \<le> nat p" "nat p < 2 ^ bp"
    unfolding bp_def by simp_all
  have "(of_nat (2 ^ (bp - 1)) :: rat) \<le> of_nat (nat p)" using fp(1) by (simp only: of_nat_le_iff)
  then have P1: "(2::rat) ^ (bp - 1) \<le> of_int p" by (simp only: np of_nat_power of_nat_numeral)
  have "(of_nat (nat p) :: rat) < of_nat (2 ^ bp)" using fp(2) by (simp only: of_nat_less_iff)
  then have P2: "(of_int p :: rat) < 2 ^ bp" by (simp only: np of_nat_power of_nat_numeral)
  from floorlog_bounds[of "nat q" 2] q have fq: "2 ^ (bq - 1) \<le> nat q" "nat q < 2 ^ bq"
    unfolding bq_def by simp_all
  have "(of_nat (2 ^ (bq - 1)) :: rat) \<le> of_nat (nat q)" using fq(1) by (simp only: of_nat_le_iff)
  then have Q1: "(2::rat) ^ (bq - 1) \<le> of_int q" by (simp only: nq of_nat_power of_nat_numeral)
  have "(of_nat (nat q) :: rat) < of_nat (2 ^ bq)" using fq(2) by (simp only: of_nat_less_iff)
  then have Q2: "(of_int q :: rat) < 2 ^ bq" by (simp only: nq of_nat_power of_nat_numeral)
  have pr: "(0::rat) < of_int p" and qr: "(0::rat) < of_int q" using p q by simp_all
  have e0: "e0 = int bp - int bq" by (simp add: e0_def bp_def bq_def)
  have up: "(2::rat) powi (e0 + 1) = 2 ^ bp / 2 ^ (bq - 1)"
  proof -
    have "e0 + 1 = int bp - int (bq - 1)" using bq1 e0 by simp
    then show ?thesis by (simp only: two_powi_diff)
  qed
  have lo: "(2::rat) powi (e0 - 1) = 2 ^ (bp - 1) / 2 ^ bq"
  proof -
    have "e0 - 1 = int (bp - 1) - int bq" using bp1 e0 by simp
    then show ?thesis by (simp only: two_powi_diff)
  qed
  have "of_int p / of_int q < (2::rat) ^ bp / 2 ^ (bq - 1)"
  proof (rule frac_less)
    show "(0::rat) \<le> of_int p" using pr by simp
    show "(of_int p :: rat) < 2 ^ bp" by (rule P2)
    show "(0::rat) < 2 ^ (bq - 1)" by simp
    show "(2::rat) ^ (bq - 1) \<le> of_int q" by (rule Q1)
  qed
  moreover have "(2::rat) ^ (bp - 1) / 2 ^ bq \<le> of_int p / of_int q"
  proof (rule frac_le)
    show "(0::rat) \<le> of_int p" using pr by simp
    show "(2::rat) ^ (bp - 1) \<le> of_int p" by (rule P1)
    show "(0::rat) < of_int q" by (rule qr)
    show "(of_int q :: rat) \<le> 2 ^ bq" using Q2 by simp
  qed
  ultimately show ?thesis by (simp only: up lo y)
qed

lemma ilog2_bounds:
  assumes "x \<noteq> 0"
  shows "2 powi (ilog2 x) \<le> \<bar>x\<bar> \<and> \<bar>x\<bar> < 2 powi (ilog2 x + 1)"
proof -
  obtain p q where pq: "quotient_of \<bar>x\<bar> = (p, q)" by force
  define e0 where "e0 = int (floorlog 2 (nat p)) - int (floorlog 2 (nat q))"
  from assms have "0 < \<bar>x\<bar>" by simp
  from ilog2_candidate[OF this pq] have c: "2 powi (e0 - 1) \<le> \<bar>x\<bar>" "\<bar>x\<bar> < 2 powi (e0 + 1)"
    by (simp_all add: e0_def)
  have i: "ilog2 x = (if 2 powi e0 \<le> \<bar>x\<bar> then e0 else e0 - 1)"
    by (simp add: ilog2_def pq e0_def Let_def)
  show ?thesis
  proof (cases "2 powi e0 \<le> \<bar>x\<bar>")
    case True
    with c i show ?thesis by simp
  next
    case False
    with c i show ?thesis by simp
  qed
qed

lemma ilog2_unique:
  assumes "2 powi e \<le> \<bar>x\<bar>" "\<bar>x\<bar> < 2 powi (e + 1)"
  shows "ilog2 x = e"
proof -
  have "0 < (2::rat) powi e" by simp
  with assms(1) have "0 < \<bar>x\<bar>" by linarith
  then have x: "x \<noteq> 0" by simp
  from ilog2_bounds[OF x] have b: "2 powi (ilog2 x) \<le> \<bar>x\<bar>" "\<bar>x\<bar> < 2 powi (ilog2 x + 1)" by simp_all
  have "\<not> ilog2 x < e"
  proof
    assume "ilog2 x < e"
    then have "ilog2 x + 1 \<le> e" by simp
    then have "(2::rat) powi (ilog2 x + 1) \<le> 2 powi e" by (intro power_int_increasing) simp_all
    with b(2) assms(1) show False by simp
  qed
  moreover have "\<not> e < ilog2 x"
  proof
    assume "e < ilog2 x"
    then have "e + 1 \<le> ilog2 x" by simp
    then have "(2::rat) powi (e + 1) \<le> 2 powi (ilog2 x)" by (intro power_int_increasing) simp_all
    with b(1) assms(2) show False by simp
  qed
  ultimately show ?thesis by simp
qed

lemma round_half_even_near: "\<bar>of_int (round_half_even y) - y\<bar> \<le> 1 / 2"
proof -
  have "of_int \<lfloor>y\<rfloor> \<le> y" "y < of_int \<lfloor>y\<rfloor> + 1" by linarith+
  then show ?thesis
    unfolding round_half_even_def Let_def by (auto simp: abs_le_iff)
qed

lemma round_half_even_of_int [simp]: "round_half_even (of_int n) = n"
  by (simp add: round_half_even_def)

lemma ulp_eq:
  assumes "2 powi e \<le> \<bar>x\<bar>" "\<bar>x\<bar> < 2 powi (e + 1)"
  shows "ulp x = 2 powi (max e (- 1022) - 52)"
  using ilog2_unique[OF assms] by (simp add: ulp_def)

lemma ulp_pos [simp]: "0 < ulp x"
  by (simp add: ulp_def)

text \<open>How a double is computed from the binade of the exact value.\<close>

lemma binary64_eqI:
  assumes "2 powi e \<le> \<bar>x\<bar>" "\<bar>x\<bar> < 2 powi (e + 1)"
      and "round_half_even (x / 2 powi (max e (- 1022) - 52)) = n"
      and "\<bar>of_int n * 2 powi (max e (- 1022) - 52)\<bar> < (2::rat) powi 1024"
  shows "binary64 x = Num (of_int n * 2 powi (max e (- 1022) - 52))"
proof -
  have "0 < (2::rat) powi e" by simp
  with assms(1) have "0 < \<bar>x\<bar>" by linarith
  then have x: "x \<noteq> 0" by simp
  show ?thesis
    using x assms(3,4) by (simp add: binary64_def Let_def ulp_eq[OF assms(1,2)])
qed

text \<open>Integers below \<open>2 ^ 53\<close> in magnitude are doubles.\<close>

lemma binary64_of_int:
  assumes "\<bar>m\<bar> < 2 ^ 53"
  shows "binary64 (of_int m) = Num (of_int m)"
proof (cases "m = 0")
  case True
  then show ?thesis by (simp add: binary64_def)
next
  case False
  define x :: rat where "x = of_int m"
  have x0: "x \<noteq> 0" using False by (simp add: x_def)
  define e where "e = ilog2 x"
  from ilog2_bounds[OF x0] have b: "2 powi e \<le> \<bar>x\<bar>" "\<bar>x\<bar> < 2 powi (e + 1)"
    by (simp_all add: e_def)
  have ax: "\<bar>x\<bar> = of_int \<bar>m\<bar>" by (simp add: x_def)
  have "1 \<le> \<bar>m\<bar>" using False by simp
  then have "(1::rat) \<le> of_int \<bar>m\<bar>" by (simp only: of_int_1_le_iff)
  then have "1 \<le> \<bar>x\<bar>" by (simp only: ax)
  have e0: "0 \<le> e"
  proof (rule ccontr)
    assume "\<not> 0 \<le> e"
    then have "e + 1 \<le> 0" by simp
    then have "(2::rat) powi (e + 1) \<le> 2 powi 0" by (intro power_int_increasing) simp_all
    with b(2) \<open>1 \<le> \<bar>x\<bar>\<close> show False by simp
  qed
  have "\<bar>x\<bar> < 2 ^ 53" unfolding ax using assms
    by (metis of_int_less_iff of_int_numeral of_int_power)
  have e52: "e \<le> 52"
  proof (rule ccontr)
    assume "\<not> e \<le> 52"
    then have "53 \<le> e" by simp
    then have "(2::rat) powi 53 \<le> 2 powi e" by (intro power_int_increasing) simp_all
    with b(1) \<open>\<bar>x\<bar> < 2 ^ 53\<close> show False by simp
  qed
  have mx: "max e (- 1022) = e" using e0 by simp
  obtain k where k: "52 - e = int k" using e52 by (metis diff_ge_0_iff_ge nonneg_int_cases)
  have u: "(2::rat) powi (e - 52) = 1 / 2 ^ k"
  proof -
    have "e - 52 = - int k" using k by simp
    then show ?thesis by (simp add: power_int_minus divide_inverse)
  qed
  have q: "x / 2 powi (e - 52) = of_int (m * 2 ^ k)"
    by (simp add: u x_def)
  have r: "round_half_even (x / 2 powi (max e (- 1022) - 52)) = m * 2 ^ k"
    by (simp only: mx q round_half_even_of_int)
  have v: "of_int (m * 2 ^ k) * (2::rat) powi (max e (- 1022) - 52) = x"
    unfolding mx u by (simp add: x_def)
  have "(2::rat) ^ 53 \<le> 2 ^ 1024" by (rule power_increasing) simp_all
  with \<open>\<bar>x\<bar> < 2 ^ 53\<close> have "\<bar>x\<bar> < (2::rat) ^ 1024" by (rule less_le_trans)
  then have "\<bar>x\<bar> < (2::rat) powi 1024" by (simp only: power_int_numeral)
  then have ov: "\<bar>of_int (m * 2 ^ k) * (2::rat) powi (max e (- 1022) - 52)\<bar> < 2 powi 1024"
    by (simp only: v)
  from binary64_eqI[OF b r ov]
  have "binary64 x = Num (of_int (m * 2 ^ k) * 2 powi (max e (- 1022) - 52))" .
  then have "binary64 x = Num x" by (simp only: v)
  then show ?thesis by (simp only: x_def)
qed

lemma binary64_numeral [simp]:
  "\<bar>numeral k :: int\<bar> < 2 ^ 53 \<Longrightarrow> binary64 (numeral k) = Num (numeral k)"
  using binary64_of_int[of "numeral k"] by simp

lemma binary64_zero [simp]: "binary64 0 = Num 0"
  by (simp add: binary64_def)

lemma floor_numeral_divide [simp]:
  "\<lfloor>(numeral a :: rat) / numeral b\<rfloor> = numeral a div numeral b"
  using floor_divide_of_int_eq[of "numeral a" "numeral b", where ?'a = rat] by simp

text \<open>The error of one rounding, when the result is finite: half a unit in the last place.\<close>

lemma binary64_Num_D:
  assumes "binary64 x = Num v" "x \<noteq> 0"
  shows "v = of_int (round_half_even (x / ulp x)) * ulp x"
  using assms unfolding binary64_def Let_def by (simp split: if_splits)

lemma scaled_error:
  fixes u :: rat
  assumes "0 < u" "\<bar>of_int n - x / u\<bar> \<le> 1 / 2"
  shows "\<bar>of_int n * u - x\<bar> \<le> u / 2"
proof -
  have "(of_int n - x / u) * u = of_int n * u - x"
    using assms(1) by (simp add: left_diff_distrib)
  then have "\<bar>of_int n * u - x\<bar> = \<bar>(of_int n - x / u) * u\<bar>"
    by (simp only:)
  also have "\<dots> = \<bar>of_int n - x / u\<bar> * u"
    using assms(1) by (simp add: abs_mult)
  also have "\<dots> \<le> 1 / 2 * u"
    using assms by (intro mult_right_mono) simp_all
  finally show ?thesis by simp
qed

lemma binary64_half_ulp:
  assumes "binary64 x = Num v" "x \<noteq> 0"
  shows "\<bar>v - x\<bar> \<le> ulp x / 2"
  unfolding binary64_Num_D[OF assms]
  by (rule scaled_error) (simp_all only: ulp_pos round_half_even_near)

lemma ulp_normal_le:
  assumes "x \<noteq> 0" "- 1022 \<le> ilog2 x"
  shows "ulp x / 2 \<le> \<bar>x\<bar> / 2 ^ 53"
proof -
  from ilog2_bounds[OF assms(1)] have b: "2 powi (ilog2 x) \<le> \<bar>x\<bar>" by (rule conjunct1)
  have "ulp x = 2 powi (ilog2 x - 52)" using assms(2) by (simp add: ulp_def)
  also have "\<dots> = 2 powi (ilog2 x) / 2 ^ 52" by (simp add: power_int_diff)
  also have "\<dots> \<le> \<bar>x\<bar> / 2 ^ 52" using b by (rule divide_right_mono) simp
  finally have "ulp x / 2 \<le> \<bar>x\<bar> / 2 ^ 52 / 2" by (rule divide_right_mono) simp
  also have "\<bar>x\<bar> / 2 ^ 52 / 2 = \<bar>x\<bar> / 2 ^ Suc 52" by (simp only: power_Suc divide_divide_eq_left mult.commute)
  finally show ?thesis by (simp only: eval_nat_numeral)
qed

lemma ulp_subnormal_le:
  assumes "\<not> - 1022 \<le> ilog2 x"
  shows "ulp x / 2 \<le> 1 / 2 ^ 80"
proof -
  have "ulp x = 2 powi (- 1074)" using assms by (simp add: ulp_def)
  also have "\<dots> \<le> (2::rat) powi (- 79)" by (rule power_int_increasing) simp_all
  also have "\<dots> = 1 / 2 ^ 79" by (simp add: power_int_minus)
  finally have "ulp x / 2 \<le> 1 / 2 ^ 79 / 2" by (rule divide_right_mono) simp
  then show ?thesis by simp
qed

lemma binary64_error:
  assumes "binary64 x = Num v"
  shows "\<bar>v - x\<bar> \<le> \<bar>x\<bar> / 2 ^ 53 + 1 / 2 ^ 80"
proof (cases "x = 0")
  case True
  with assms show ?thesis by (simp add: binary64_def)
next
  case False
  note half = binary64_half_ulp[OF assms False]
  show ?thesis
  proof (cases "- 1022 \<le> ilog2 x")
    case True
    from ulp_normal_le[OF False True] half have "\<bar>v - x\<bar> \<le> \<bar>x\<bar> / 2 ^ 53" by (rule order_trans[rotated])
    then show ?thesis by simp
  next
    case False
    from ulp_subnormal_le[OF False] half have "\<bar>v - x\<bar> \<le> 1 / 2 ^ 80" by (rule order_trans[rotated])
    moreover have "0 \<le> \<bar>x\<bar> / 2 ^ 53" by simp
    ultimately show ?thesis by linarith
  qed
qed

section \<open>The balance example\<close>

lemma quotient_7_20: "binary64 (7 / 20) = Num (3152519739159347 / 9007199254740992)"
proof -
  have "binary64 (7 / 20) = Num (of_int 6305039478318694 * 2 powi (max (- 2) (- 1022) - 52))"
    by (rule binary64_eqI) (simp_all add: round_half_even_def Let_def power_int_minus)
  then show ?thesis by (simp add: power_int_minus)
qed

lemma percent_35: "binary64 (78812993478983675 / 2251799813685248) = Num (35)"
proof -
  have "binary64 (78812993478983675 / 2251799813685248) = Num (of_int 4925812092436480 * 2 powi (max 5 (- 1022) - 52))"
    by (rule binary64_eqI) (simp_all add: round_half_even_def Let_def power_int_minus)
  then show ?thesis by (simp add: power_int_minus)
qed

lemma quotient_3_5: "binary64 (3 / 5) = Num (5404319552844595 / 9007199254740992)"
proof -
  have "binary64 (3 / 5) = Num (of_int 5404319552844595 * 2 powi (max (- 1) (- 1022) - 52))"
    by (rule binary64_eqI) (simp_all add: round_half_even_def Let_def power_int_minus)
  then show ?thesis by (simp add: power_int_minus)
qed

lemma percent_60: "binary64 (135107988821114875 / 2251799813685248) = Num (60)"
proof -
  have "binary64 (135107988821114875 / 2251799813685248) = Num (of_int 8444249301319680 * 2 powi (max 5 (- 1022) - 52))"
    by (rule binary64_eqI) (simp_all add: round_half_even_def Let_def power_int_minus)
  then show ?thesis by (simp add: power_int_minus)
qed

lemma progress_350_1000: "progress (Num 350) (Some (Num 1000)) = Num 35"
  by (simp add: progress_def quotient_7_20 percent_35)

lemma progress_60_100: "progress (Num 60) (Some (Num 100)) = Num 60"
  by (simp add: progress_def quotient_3_5 percent_60)

lemma round2_35: "round2 (Num 35) = Num 35"
  by (simp add: round2_def)

lemma round2_60: "round2 (Num 60) = Num 60"
  by (simp add: round2_def)

text \<open>
  C5. An agreement on 100 units at 10 each, made without a total, is stored with the total
  1000; and for a transaction of quantity 100 and total 1000 with payments of 200 and 150 and
  deliveries of 40 and 20, \<open>calculateBalances\<close> returns payments 350, delivered 60, money
  balance 650, product balance 40, money progress 35 and product progress 60, whatever the other
  columns of the rows hold.
\<close>

theorem balance_example:
  "calculatedTotal None (Some (Num 100)) (Some (Num 10)) = Some (Num 1000)
   \<and> calculateBalances (t\<lparr>tx_quantity := Some (Num 100), tx_totalAmount := Some (Num 1000)\<rparr>)
        [a1\<lparr>adv_amount := Num 200\<rparr>, a2\<lparr>adv_amount := Num 150\<rparr>]
        [d1\<lparr>del_quantity := Num 40\<rparr>, d2\<lparr>del_quantity := Num 20\<rparr>]
       = example_balances"
  by (simp add: calculatedTotal_def calculateBalances_def example_balances_def Let_def or_zero_def
        js_sub_def progress_350_1000 progress_60_100 round2_35 round2_60)

text \<open>The same example through the routes: the creation, the four movements, the reading.\<close>

lemma balance_example_through_routes:
  "create_transaction ''u1'' contract_body ''t1'' ''20250127-A3F9'' 10 [] supplier_db
     = (contract_db, Http201 contract_row, [])"
  "add_advance ''u1'' ''t1'' \<lparr>ab_amount = Num 200, ab_description = None\<rparr> 11 [] contract_db
     = (contract_db\<lparr>advances := [payment 200 11]\<rparr>, Http201 (payment 200 11), [])"
  "add_advance ''u1'' ''t1'' \<lparr>ab_amount = Num 150, ab_description = None\<rparr> 12 []
       (contract_db\<lparr>advances := [payment 200 11]\<rparr>)
     = (contract_db\<lparr>advances := [payment 200 11, payment 150 12]\<rparr>, Http201 (payment 150 12), [])"
  "add_delivery ''u1'' ''t1'' \<lparr>db_quantity = Num 40, db_description = None\<rparr> 13 []
       (contract_db\<lparr>advances := [payment 200 11, payment 150 12]\<rparr>)
     = (contract_db\<lparr>advances := [payment 200 11, payment 150 12], deliveries := [handover 40 13]\<rparr>,
        Http201 (handover 40 13), [])"
  "add_delivery ''u1'' ''t1'' \<lparr>db_quantity = Num 20, db_description = None\<rparr> 14 []
       (contract_db\<lparr>advances := [payment 200 11, payment 150 12], deliveries := [handover 40 13]\<rparr>)
     = (settled_db, Http201 (handover 20 14), [])"
  "get_transaction ''u1'' ''t1'' [] settled_db = (Http200 (contract_row, example_balances), [])"
proof -
  note fixtures = supplier_db_def contract_body_def contract_row_def contract_db_def settled_db_def
    payment_def handover_def empty_db_def ana_row_def
  show "create_transaction ''u1'' contract_body ''t1'' ''20250127-A3F9'' 10 [] supplier_db
     = (contract_db, Http201 contract_row, [])"
    by (simp add: create_transaction_def fixtures optional_isFloat_min_def isFloat_min_def
          calculatedTotal_def transaction_insert_def storage_call_def Let_def)
  show "add_advance ''u1'' ''t1'' \<lparr>ab_amount = Num 200, ab_description = None\<rparr> 11 [] contract_db
     = (contract_db\<lparr>advances := [payment 200 11]\<rparr>, Http201 (payment 200 11), [])"
    by (simp add: add_advance_def fixtures isFloat_min_def transaction_findFirst_active_def Let_def)
  show "add_advance ''u1'' ''t1'' \<lparr>ab_amount = Num 150, ab_description = None\<rparr> 12 []
       (contract_db\<lparr>advances := [payment 200 11]\<rparr>)
     = (contract_db\<lparr>advances := [payment 200 11, payment 150 12]\<rparr>, Http201 (payment 150 12), [])"
    by (simp add: add_advance_def fixtures isFloat_min_def transaction_findFirst_active_def Let_def)
  show "add_delivery ''u1'' ''t1'' \<lparr>db_quantity = Num 40, db_description = None\<rparr> 13 []
       (contract_db\<lparr>advances := [payment 200 11, payment 150 12]\<rparr>)
     = (contract_db\<lparr>advances := [payment 200 11, payment 150 12], deliveries := [handover 40 13]\<rparr>,
        Http201 (handover 40 13), [])"
    by (simp add: add_delivery_def fixtures isFloat_min_def transaction_findFirst_active_def Let_def)
  show "add_delivery ''u1'' ''t1'' \<lparr>db_quantity = Num 20, db_description = None\<rparr> 14 []
       (contract_db\<lparr>advances := [payment 200 11, payment 150 12], deliveries := [handover 40 13]\<rparr>)
     = (settled_db, Http201 (handover 20 14), [])"
    by (simp add: add_delivery_def fixtures isFloat_min_def transaction_findFirst_active_def Let_def)
  show "get_transaction ''u1'' ''t1'' [] settled_db = (Http200 (contract_row, example_balances), [])"
    by (simp add: get_transaction_def fixtures transaction_findFirst_visible_def
          calculateBalances_def example_balances_def Let_def or_zero_def
          js_sub_def progress_350_1000 progress_60_100 round2_35 round2_60)
qed

section \<open>The accuracy of the progress percentages\<close>

lemma rounding_error:
  assumes "x \<noteq> 0"
  shows "\<bar>of_int (round_half_even (x / ulp x)) * ulp x - x\<bar> \<le> \<bar>x\<bar> / 2 ^ 53 + 1 / 2 ^ 80"
proof -
  have half: "\<bar>of_int (round_half_even (x / ulp x)) * ulp x - x\<bar> \<le> ulp x / 2"
    by (rule scaled_error) (simp_all only: ulp_pos round_half_even_near)
  show ?thesis
  proof (cases "- 1022 \<le> ilog2 x")
    case True
    from ulp_normal_le[OF assms True] half
    have "\<bar>of_int (round_half_even (x / ulp x)) * ulp x - x\<bar> \<le> \<bar>x\<bar> / 2 ^ 53"
      by (rule order_trans[rotated])
    then show ?thesis by simp
  next
    case False
    from ulp_subnormal_le[OF False] half
    have "\<bar>of_int (round_half_even (x / ulp x)) * ulp x - x\<bar> \<le> 1 / 2 ^ 80"
      by (rule order_trans[rotated])
    moreover have "0 \<le> \<bar>x\<bar> / 2 ^ 53" by simp
    ultimately show ?thesis by linarith
  qed
qed

lemma below_overflow: "(v::rat) < 2 ^ 64 \<Longrightarrow> v < 2 powi 1024"
proof -
  assume "v < 2 ^ 64"
  also have "(2::rat) ^ 64 \<le> 2 ^ 1024" by (rule power_increasing) simp_all
  also have "(2::rat) ^ 1024 = 2 powi 1024" by (simp only: power_int_numeral)
  finally show ?thesis .
qed

text \<open>A result of moderate size is rounded to a finite double close to it.\<close>

lemma binary64_total:
  assumes "\<bar>x\<bar> \<le> 2 ^ 62"
  shows "\<exists>v. binary64 x = Num v \<and> \<bar>v - x\<bar> \<le> \<bar>x\<bar> / 2 ^ 53 + 1 / 2 ^ 80"
proof (cases "x = 0")
  case True
  then show ?thesis by simp
next
  case False
  define v where "v = of_int (round_half_even (x / ulp x)) * ulp x"
  have err: "\<bar>v - x\<bar> \<le> \<bar>x\<bar> / 2 ^ 53 + 1 / 2 ^ 80"
    unfolding v_def by (rule rounding_error[OF False])
  with assms have "\<bar>v\<bar> < 2 ^ 64" by simp
  then have "\<bar>v\<bar> < 2 powi 1024" by (rule below_overflow)
  then have "\<not> 2 powi 1024 \<le> \<bar>v\<bar>" by (simp only: not_le)
  then have "binary64 x = Num v"
    unfolding binary64_def Let_def v_def[symmetric] using False by (simp only: if_False)
  with err show ?thesis by blast
qed

lemma round2_progress_accurate:
  assumes m: "0 \<le> m" and a: "0 < a" and bound: "100 * m / a \<le> 10 ^ 12"
  shows "\<exists>k r. round2 (progress (Num m) (Some (Num a))) = Num r
           \<and> binary64 (of_int k / 100) = Num r
           \<and> \<bar>of_int k / 100 - 100 * m / a\<bar> \<le> 1 / 200 + (100 * m / a) / 2 ^ 51 + 1 / 2 ^ 64"
proof -
  define q where "q = m / a"
  have pq: "100 * m / a = 100 * q" by (simp add: q_def)
  have q0: "0 \<le> q" using m a by (simp add: q_def)
  have qb: "q \<le> 10 ^ 10" using bound unfolding pq by simp
  from q0 qb have "\<bar>q\<bar> \<le> 2 ^ 62" by simp
  from binary64_total[OF this] obtain x1
    where x1: "binary64 q = Num x1" and e1: "\<bar>x1 - q\<bar> \<le> \<bar>q\<bar> / 2 ^ 53 + 1 / 2 ^ 80" by blast
  from e1 q0 qb have "\<bar>x1 * 100\<bar> \<le> 2 ^ 62" by simp
  from binary64_total[OF this] obtain x2
    where x2: "binary64 (x1 * 100) = Num x2"
      and e2: "\<bar>x2 - x1 * 100\<bar> \<le> \<bar>x1 * 100\<bar> / 2 ^ 53 + 1 / 2 ^ 80" by blast
  from e1 e2 q0 qb have "\<bar>x2 * 100\<bar> \<le> 2 ^ 62" by simp
  from binary64_total[OF this] obtain x3
    where x3: "binary64 (x2 * 100) = Num x3"
      and e3: "\<bar>x3 - x2 * 100\<bar> \<le> \<bar>x2 * 100\<bar> / 2 ^ 53 + 1 / 2 ^ 80" by blast
  define k where "k = \<lfloor>x3 + 1 / 2\<rfloor>"
  have k1: "of_int k \<le> x3 + 1 / 2" unfolding k_def by (rule of_int_floor_le)
  have k2: "x3 + 1 / 2 < of_int k + 1" unfolding k_def by linarith
  from k1 k2 e1 e2 e3 q0 qb have "\<bar>rat_of_int k / 100\<bar> \<le> 2 ^ 62" by simp
  from binary64_total[OF this] obtain r where r: "binary64 (of_int k / 100) = Num r" by blast
  have "round2 (progress (Num m) (Some (Num a))) = Num r"
    using a by (simp add: round2_def progress_def x1[unfolded q_def] x2 x3 k_def[symmetric] r)
  moreover from k1 k2 e1 e2 e3 q0
  have "\<bar>of_int k / 100 - 100 * q\<bar> \<le> 1 / 200 + (100 * q) / 2 ^ 51 + 1 / 2 ^ 64" by simp
  ultimately show ?thesis using r unfolding pq by blast
qed

subsection \<open>23 paid of 160 agreed\<close>

lemma quotient_23_160: "binary64 (23 / 160) = Num (2589569785738035 / 18014398509481984)"
proof -
  have "binary64 (23 / 160) = Num (of_int 5179139571476070 * 2 powi (max (- 3) (- 1022) - 52))"
    by (rule binary64_eqI) (simp_all add: round_half_even_def Let_def power_int_minus)
  then show ?thesis by (simp add: power_int_minus)
qed

lemma percent_14_375: "binary64 (64739244643450875 / 4503599627370496) = Num (8092405580431359 / 562949953421312)"
proof -
  have "binary64 (64739244643450875 / 4503599627370496) = Num (of_int 8092405580431359 * 2 powi (max 3 (- 1022) - 52))"
    by (rule binary64_eqI) (simp_all add: round_half_even_def Let_def power_int_minus)
  then show ?thesis by (simp add: power_int_minus)
qed

lemma scaled_14_375: "binary64 (202310139510783975 / 140737488355328) = Num (6322191859711999 / 4398046511104)"
proof -
  have "binary64 (202310139510783975 / 140737488355328) = Num (of_int 6322191859711999 * 2 powi (max 10 (- 1022) - 52))"
    by (rule binary64_eqI) (simp_all add: round_half_even_def Let_def power_int_minus)
  then show ?thesis by (simp add: power_int_minus)
qed

lemma double_14_37: "binary64 (1437 / 100) = Num (8089590830664253 / 562949953421312)"
proof -
  have "binary64 (1437 / 100) = Num (of_int 8089590830664253 * 2 powi (max 3 (- 1022) - 52))"
    by (rule binary64_eqI) (simp_all add: round_half_even_def Let_def power_int_minus)
  then show ?thesis by (simp add: power_int_minus)
qed

lemma double_14_38: "binary64 (719 / 50) = Num (8095220330198467 / 562949953421312)"
proof -
  have "binary64 (719 / 50) = Num (of_int 8095220330198467 * 2 powi (max 3 (- 1022) - 52))"
    by (rule binary64_eqI) (simp_all add: round_half_even_def Let_def power_int_minus)
  then show ?thesis by (simp add: power_int_minus)
qed

lemma progress_23_160: "round2 (progress (Num 23) (Some (Num 160))) = Num (8089590830664253 / 562949953421312)"
  by (simp add: round2_def progress_def quotient_23_160 percent_14_375 scaled_14_375 double_14_37)

text \<open>
  C6, as stated, fails. Of 160 agreed, 23 are paid: the exact percentage is 14.375, which
  rounded half-up to two places is 14.38. The quotient, its product with 100 and the product of
  that with 100 are each rounded to a double, the last to less than 1437.5; \<open>Math.round\<close>
  gives 1437 and the route answers the double 14.37.
\<close>

theorem progress_23_of_160_rounds_down:
  "moneyProgress (calculateBalances (contract_row\<lparr>tx_totalAmount := Some (Num 160)\<rparr>) [payment 23 11] [])
     = binary64 (1437 / 100)
   \<and> spec_progress 23 160 = 1438 / 100
   \<and> binary64 (1437 / 100) \<noteq> binary64 (spec_progress 23 160)"
  by (simp add: calculateBalances_def Let_def payment_def contract_row_def progress_23_160
        spec_progress_def spec_round2_def double_14_37 double_14_38)

subsection \<open>What the rounding guarantees\<close>

lemma round2_zero: "round2 (Num 0) = Num 0"
proof -
  have "\<lfloor>(1::rat) / 2\<rfloor> = 0" by (simp add: floor_eq_iff)
  then show ?thesis by (simp add: round2_def)
qed

text \<open>
  C6, amended. The two progress figures are \<open>round2\<close> of the progress of the total reached
  against the amount agreed. When nothing is agreed (the column is null) or the amount agreed is
  not greater than zero, the figure is 0. Otherwise, for a total reached \<open>m \<ge> 0\<close> and an
  amount agreed \<open>a > 0\<close> with an exact percentage of at most \<open>10 ^ 12\<close>, the figure is a
  finite double, namely the double nearest to \<open>k / 100\<close> for a whole number \<open>k\<close> of hundredths
  that differs from the exact percentage \<open>100 m / a\<close> by at most half a hundredth plus the
  percentage divided by \<open>2 ^ 51\<close> plus \<open>1 / 2 ^ 64\<close>: a tie, or a value that close to a tie,
  may go down as well as up.
\<close>

theorem progress_is_rounded_to_hundredths:
  "round2 (progress reached None) = Num 0
   \<and> (\<not> js_gt agreed (Num 0) \<longrightarrow> round2 (progress reached (Some agreed)) = Num 0)
   \<and> (0 \<le> m \<and> 0 < a \<and> 100 * m / a \<le> 10 ^ 12 \<longrightarrow>
        (\<exists>k r. round2 (progress (Num m) (Some (Num a))) = Num r
           \<and> binary64 (of_int k / 100) = Num r
           \<and> \<bar>of_int k / 100 - 100 * m / a\<bar> \<le> 1 / 200 + (100 * m / a) / 2 ^ 51 + 1 / 2 ^ 64))
   \<and> moneyProgress (calculateBalances t advs dels)
       = round2 (progress (totalAdvances (calculateBalances t advs dels)) (tx_totalAmount t))
   \<and> productProgress (calculateBalances t advs dels)
       = round2 (progress (totalDelivered (calculateBalances t advs dels)) (tx_quantity t))"
proof (intro conjI impI)
  show "round2 (progress reached None) = Num 0"
    by (simp add: progress_def round2_zero)
  show "round2 (progress reached (Some agreed)) = Num 0" if "\<not> js_gt agreed (Num 0)"
    using that by (simp add: progress_def round2_zero)
  show "\<exists>k r. round2 (progress (Num m) (Some (Num a))) = Num r
           \<and> binary64 (of_int k / 100) = Num r
           \<and> \<bar>of_int k / 100 - 100 * m / a\<bar> \<le> 1 / 200 + (100 * m / a) / 2 ^ 51 + 1 / 2 ^ 64"
    if "0 \<le> m \<and> 0 < a \<and> 100 * m / a \<le> 10 ^ 12"
    using that by (intro round2_progress_accurate) simp_all
  show "moneyProgress (calculateBalances t advs dels)
       = round2 (progress (totalAdvances (calculateBalances t advs dels)) (tx_totalAmount t))"
    by (simp add: calculateBalances_def Let_def)
  show "productProgress (calculateBalances t advs dels)
       = round2 (progress (totalDelivered (calculateBalances t advs dels)) (tx_quantity t))"
    by (simp add: calculateBalances_def Let_def)
qed

theorem progress_is_rounded_to_hundredths_witness:
  "round2 (progress (Num 350) None) = Num 0
   \<and> round2 (progress (Num 350) (Some (Num 0))) = Num 0
   \<and> (\<exists>k r. round2 (progress (Num 350) (Some (Num 1000))) = Num r
           \<and> binary64 (of_int k / 100) = Num r
           \<and> \<bar>of_int k / 100 - 100 * 350 / (1000::rat)\<bar> \<le> 1 / 200 + (100 * 350 / 1000) / 2 ^ 51 + 1 / 2 ^ 64)
   \<and> moneyProgress (calculateBalances contract_row [payment 200 11, payment 150 12] [])
       = round2 (progress (totalAdvances (calculateBalances contract_row [payment 200 11, payment 150 12] []))
                   (tx_totalAmount contract_row))"
  using progress_is_rounded_to_hundredths
          [where reached = "Num 350" and agreed = "Num 0" and m = 350 and a = 1000
             and t = contract_row and advs = "[payment 200 11, payment 150 12]" and dels = "[]"]
  by simp

end
